(* ===== verification/Prelude.thy ===== *)
theory Prelude
  imports Main "HOL-Library.Product_Lexorder"
begin

text \<open>
  Shared material of the development.  It fixes how the theories speak about
  database rows (\<open>one_or_none\<close> is SQLAlchemy's \<open>scalar_one_or_none\<close>,
  \<open>upd_where\<close> an update of the rows that satisfy a predicate, \<open>page_of\<close> an
  OFFSET/LIMIT slice), about the text the program builds with f-strings
  (decimal numbers, zero padded fields) and about Python's \<open>datetime\<close>.  The
  lemmas below are generic: nothing here depends on a component.
\<close>

section \<open>Lemma collections\<close>

named_theorems row_simps \<open>rewriting of row lookups and row updates\<close>
named_theorems txt_simps \<open>evaluation of decimal and padded text\<close>
named_theorems guard_simps \<open>principal and tenancy guards\<close>

section \<open>Rows\<close>

text \<open>Every exception class the modelled code raises or lets through.\<close>

datatype lcp_error =
    PermissionError
  | RuntimeError
  | NotSystemPrincipalError
  | SchedulerNotSystemError
  | PlannerNotSystemError
  | WatcherNotSystemError
  | AuthenticationError
  | MultipleResultsFound
  | IntegrityError
  | DatasetNotFoundError string
  | DatasetAlreadyExistsError
  | TaskNotFoundError string
  | TaskTransitionError string
  | WorkerNotFoundError string
  | WorkerLeaseMismatchError string
  | IndexNotFoundError string string
  | IndexAlreadyExistsError string string
  | IndexTransitionError string
  | PolicyNotFoundError string string
  | PolicyAlreadyExistsError string string
  | RuleNotFoundError string string
  | RuleAlreadyExistsError string string
  | RuleValidationError
  | RuleDisabledError string
  | ValueError
  | TypeError
  | ValueErrorText string
  | ColumnNotFoundError string
  | DimensionMismatchError string
  | GravitinoDisabledError
  | GravitinoAPIError int string
  | OtherError string

type_synonym 'a res = "lcp_error + 'a"

definition one_or_none :: "'r list \<Rightarrow> 'r option res" where
  "one_or_none rs =
     (case rs of [] \<Rightarrow> Inr None | [r] \<Rightarrow> Inr (Some r) | _ \<Rightarrow> Inl MultipleResultsFound)"

definition upd_where :: "('r \<Rightarrow> bool) \<Rightarrow> ('r \<Rightarrow> 'r) \<Rightarrow> 'r list \<Rightarrow> 'r list" where
  "upd_where P f rs = map (\<lambda>r. if P r then f r else r) rs"

definition page_of :: "nat \<Rightarrow> nat \<Rightarrow> 'r list \<Rightarrow> 'r list" where
  "page_of offset limit rs = take limit (drop offset rs)"

lemma one_or_none_simps [simp, row_simps]:
  "one_or_none [] = Inr None"
  "one_or_none [r] = Inr (Some r)"
  "one_or_none (r # r' # rs) = Inl MultipleResultsFound"
  by (simp_all add: one_or_none_def)

lemma one_or_none_Some:
  assumes "one_or_none (filter P rs) = Inr (Some r)"
  shows "r \<in> set rs" and "P r" and "\<And>r'. r' \<in> set rs \<Longrightarrow> P r' \<Longrightarrow> r' = r"
proof -
  have f: "filter P rs = [r]"
    using assms by (auto simp: one_or_none_def split: list.splits)
  then have s: "set (filter P rs) = {r}" by simp
  show "r \<in> set rs" "P r" using s by auto
  show "\<And>r'. r' \<in> set rs \<Longrightarrow> P r' \<Longrightarrow> r' = r" using s by auto
qed

lemma one_or_none_None:
  "one_or_none (filter P rs) = Inr None \<longleftrightarrow> (\<forall>r\<in>set rs. \<not> P r)"
proof (cases "filter P rs")
  case Nil
  then show ?thesis by (simp add: filter_empty_conv)
next
  case (Cons r rs')
  then have "r \<in> set (filter P rs)" by simp
  then have "\<exists>r\<in>set rs. P r" by auto
  moreover have "one_or_none (filter P rs) \<noteq> Inr None"
    using Cons by (cases rs') simp_all
  ultimately show ?thesis by blast
qed

lemma one_or_none_cases:
  "one_or_none rs = Inl e \<Longrightarrow> e = MultipleResultsFound"
  by (auto simp: one_or_none_def split: list.splits)

lemma filter_key_distinct:
  assumes "distinct (map k rs)" and "r \<in> set rs"
  shows "filter (\<lambda>x. k x = k r) rs = [r]"
  using assms
proof (induction rs)
  case Nil
  then show ?case by simp
next
  case (Cons a rs)
  show ?case
  proof (cases "a = r")
    case True
    then have "\<forall>x\<in>set rs. k x \<noteq> k r" using Cons.prems by auto (metis image_eqI)
    then show ?thesis using True by (simp add: filter_empty_conv)
  next
    case False
    then have "r \<in> set rs" and "k a \<noteq> k r" using Cons.prems by auto
    then show ?thesis using Cons by simp
  qed
qed

lemma one_or_none_distinct:
  assumes "distinct (map k rs)" and "r \<in> set rs"
  shows "one_or_none (filter (\<lambda>x. k x = k r) rs) = Inr (Some r)"
  by (simp add: filter_key_distinct [OF assms])

lemma one_or_none_key:
  assumes "distinct (map k rs)"
  shows "one_or_none (filter (\<lambda>x. k x = v) rs) = Inr (find (\<lambda>x. k x = v) rs)"
proof (cases "\<exists>r\<in>set rs. k r = v")
  case True
  then obtain r where r: "r \<in> set rs" "k r = v" by blast
  have "find (\<lambda>x. k x = v) rs = Some r"
    using assms r by (induction rs) (auto simp: image_iff)
  then show ?thesis using one_or_none_distinct [OF assms r(1)] r(2) by simp
next
  case False
  then have "find (\<lambda>x. k x = v) rs = None" by (simp add: find_None_iff)
  moreover have "one_or_none (filter (\<lambda>x. k x = v) rs) = Inr None"
    unfolding one_or_none_None using False by simp
  ultimately show ?thesis by simp
qed

lemma upd_where_simps [simp, row_simps]:
  "upd_where P f [] = []"
  "upd_where P f (r # rs) = (if P r then f r else r) # upd_where P f rs"
  by (simp_all add: upd_where_def)

lemma length_upd_where [simp, row_simps]: "length (upd_where P f rs) = length rs"
  by (simp add: upd_where_def)

lemma set_upd_where: "set (upd_where P f rs) = (\<lambda>r. if P r then f r else r) ` set rs"
  by (simp add: upd_where_def)

lemma upd_where_in:
  "r \<in> set (upd_where P f rs) \<longleftrightarrow> (\<exists>r0\<in>set rs. r = (if P r0 then f r0 else r0))"
  by (auto simp: set_upd_where)

lemma upd_where_hit: "r \<in> set rs \<Longrightarrow> P r \<Longrightarrow> f r \<in> set (upd_where P f rs)"
  by (auto simp: set_upd_where)

lemma upd_where_miss: "r \<in> set rs \<Longrightarrow> \<not> P r \<Longrightarrow> r \<in> set (upd_where P f rs)"
  by (auto simp: set_upd_where)

lemma map_upd_where [row_simps]:
  "(\<And>r. P r \<Longrightarrow> k (f r) = k r) \<Longrightarrow> map k (upd_where P f rs) = map k rs"
  by (induction rs) auto

lemma upd_where_id: "(\<And>r. r \<in> set rs \<Longrightarrow> P r \<Longrightarrow> f r = r) \<Longrightarrow> upd_where P f rs = rs"
  by (induction rs) auto

lemma upd_where_append [simp, row_simps]:
  "upd_where P f (rs @ ss) = upd_where P f rs @ upd_where P f ss"
  by (simp add: upd_where_def)

lemma filter_map_option_upd [row_simps]:
  "(\<And>r. P r \<Longrightarrow> k (f r) = k r) \<Longrightarrow> List.map_filter k (upd_where P f rs) = List.map_filter k rs"
  by (induction rs) (simp_all add: List.map_filter_simps split: option.splits)

lemma upd_where_none: "filter P rs = [] \<Longrightarrow> upd_where P f rs = rs"
  by (induction rs) (auto split: if_splits)

text \<open>Updating the one row that satisfies \<open>P\<close> moves a count by at most one.\<close>

lemma count_upd_where:
  assumes "filter P rs = [r]"
  shows "int (length (filter Q (upd_where P f rs)))
     = int (length (filter Q rs)) + (if Q (f r) then 1 else 0) - (if Q r then 1 else 0)"
  using assms by (induction rs) (auto simp: upd_where_none split: if_splits)

lemma find_in: "find P rs = Some r \<Longrightarrow> r \<in> set rs \<and> P r"
  by (induction rs) (auto split: if_splits)

subsection \<open>OFFSET/LIMIT paging\<close>

lemma length_page_of: "length (page_of off lim rs) \<le> lim"
  by (simp add: page_of_def)

lemma set_page_of: "set (page_of off lim rs) \<subseteq> set rs"
  unfolding page_of_def using set_take_subset set_drop_subset by fastforce

lemma page_of_append: "page_of off lim rs @ page_of (off + lim) m rs = page_of off (lim + m) rs"
  by (simp add: page_of_def take_add add.commute)

lemma concat_pages: "concat (map (\<lambda>i. page_of (i * n) n rs) [0..<k]) = take (k * n) rs"
proof (induction k)
  case 0
  then show ?case by simp
next
  case (Suc k)
  have "take (n + k * n) rs = take (k * n) rs @ take n (drop (k * n) rs)"
    by (metis add.commute take_add)
  then show ?case using Suc by (simp add: page_of_def)
qed

end
