(* ===== verification/Pytext.thy ===== *)
theory Pytext
  imports Prelude
begin

text \<open>
  The text and time the program handles.  \<open>dec_nat\<close> and \<open>dec_int\<close> are Python's
  \<open>str\<close> of an integer, \<open>pad\<close> a zero padded field of \<open>strftime\<close>.  A
  \<open>datetime\<close> keeps the fields Python's naive \<open>datetime\<close> keeps;
  \<open>dt_us\<close> is its distance from day 0 in microseconds, computed as
  \<open>datetime.toordinal\<close> does, and orders and subtracts datetimes.
  The lemmas give length bounds and injectivity of the texts, which the idempotency
  keys of the planner and the watcher rest on.
\<close>

section \<open>Decimal text\<close>

definition digit :: "nat \<Rightarrow> char" where
  "digit d = char_of (48 + d)"

fun dec_nat :: "nat \<Rightarrow> string" where
  "dec_nat n = (if n < 10 then [digit n] else dec_nat (n div 10) @ [digit (n mod 10)])"

declare dec_nat.simps [simp del]

definition dec_int :: "int \<Rightarrow> string" where
  "dec_int i = (if i < 0 then ''-'' @ dec_nat (nat (- i)) else dec_nat (nat i))"

definition pad :: "nat \<Rightarrow> nat \<Rightarrow> string" where
  "pad w n = replicate (w - length (dec_nat n)) (CHR ''0'') @ dec_nat n"

definition undigit :: "char \<Rightarrow> nat" where
  "undigit c = of_char c - 48"

definition undec :: "string \<Rightarrow> nat" where
  "undec s = foldl (\<lambda>a c. 10 * a + undigit c) 0 s"

lemma undigit_digit: "d < 10 \<Longrightarrow> undigit (digit d) = d"
  by (simp add: undigit_def digit_def)

lemma undec_append: "undec (s @ [c]) = 10 * undec s + undigit c"
  by (simp add: undec_def)

lemma undec_dec_nat: "undec (dec_nat n) = n"
proof (induction n rule: dec_nat.induct)
  case (1 n)
  show ?case
  proof (cases "n < 10")
    case True
    then have d: "dec_nat n = [digit n]" by (subst dec_nat.simps) simp
    show ?thesis unfolding d undec_def using undigit_digit [OF True] by simp
  next
    case False
    then have d: "dec_nat n = dec_nat (n div 10) @ [digit (n mod 10)]"
      by (subst dec_nat.simps) simp
    show ?thesis
      unfolding d undec_append using 1 False by (simp add: undigit_digit)
  qed
qed

lemma dec_nat_inj [simp]: "dec_nat m = dec_nat n \<longleftrightarrow> m = n"
  by (metis undec_dec_nat)

lemma dec_nat_Suc_len: "n < 10 ^ Suc k \<Longrightarrow> length (dec_nat n) \<le> Suc k"
proof (induction k arbitrary: n)
  case 0
  then show ?case by (subst dec_nat.simps) simp
next
  case (Suc k)
  show ?case
  proof (cases "n < 10")
    case True
    then show ?thesis by (subst dec_nat.simps) simp
  next
    case False
    have "n div 10 < 10 ^ Suc k" using Suc.prems by simp
    then have "length (dec_nat (n div 10)) \<le> Suc k" by (rule Suc.IH)
    with False show ?thesis by (subst dec_nat.simps) simp
  qed
qed

lemma dec_nat_nonempty: "dec_nat n \<noteq> []"
  by (subst dec_nat.simps) simp

text \<open>Every character of a decimal is a digit, so no separator occurs in it.\<close>

lemma dec_nat_digits: "c \<in> set (dec_nat n) \<Longrightarrow> \<exists>d<10. c = digit d"
proof (induction n rule: dec_nat.induct)
  case (1 n)
  show ?case
  proof (cases "n < 10")
    case True
    with 1(2) show ?thesis by (subst (asm) dec_nat.simps) auto
  next
    case False
    then have "dec_nat n = dec_nat (n div 10) @ [digit (n mod 10)]"
      by (subst dec_nat.simps) simp
    with 1 False consider "c \<in> set (dec_nat (n div 10))" | "c = digit (n mod 10)" by auto
    then show ?thesis
    proof cases
      case 1
      then show ?thesis using "1.IH" False by blast
    next
      case 2
      moreover have "n mod 10 < 10" by simp
      ultimately show ?thesis by blast
    qed
  qed
qed

lemma digit_not_colon: "d < 10 \<Longrightarrow> digit d \<noteq> CHR '':''"
proof -
  assume d: "d < 10"
  have "(of_char (digit d) :: nat) = 48 + d" using d by (simp add: digit_def)
  then have "digit d = CHR '':'' \<Longrightarrow> 48 + d = 58" by auto
  then show ?thesis using d by auto
qed

lemma dec_nat_no_colon: "CHR '':'' \<notin> set (dec_nat n)"
  using dec_nat_digits digit_not_colon by metis

lemma undec_zeros: "undec (replicate k (CHR ''0'') @ s) = undec s"
proof (induction k)
  case 0
  then show ?case by simp
next
  case (Suc k)
  have "undigit (CHR ''0'') = 0" by (simp add: undigit_def)
  then show ?case using Suc by (simp add: undec_def)
qed

lemma undec_pad: "undec (pad w n) = n"
  by (simp add: pad_def undec_zeros undec_dec_nat)

lemma pad_inj [simp]: "pad w m = pad w n \<longleftrightarrow> m = n"
  by (metis undec_pad)

lemma length_pad: "n < 10 ^ w \<Longrightarrow> 0 < w \<Longrightarrow> length (pad w n) = w"
  using dec_nat_Suc_len [of n "w - 1"] by (simp add: pad_def)

section \<open>Naive datetimes\<close>

record datetime =
  dt_year :: nat
  dt_month :: nat
  dt_day :: nat
  dt_hour :: nat
  dt_minute :: nat
  dt_second :: nat
  dt_micro :: nat

definition DT :: "nat \<Rightarrow> nat \<Rightarrow> nat \<Rightarrow> nat \<Rightarrow> nat \<Rightarrow> nat \<Rightarrow> nat \<Rightarrow> datetime" where
  "DT y mo d h mi s us =
     \<lparr>dt_year = y, dt_month = mo, dt_day = d, dt_hour = h,
      dt_minute = mi, dt_second = s, dt_micro = us\<rparr>"

definition is_leap :: "nat \<Rightarrow> bool" where
  "is_leap y \<longleftrightarrow> y mod 4 = 0 \<and> (y mod 100 \<noteq> 0 \<or> y mod 400 = 0)"

definition days_before_month :: "nat \<Rightarrow> nat \<Rightarrow> nat" where
  "days_before_month y m =
     sum_list (take (m - 1) [31, if is_leap y then 29 else 28, 31, 30, 31, 30, 31, 31, 30, 31, 30, 31])"

definition dt_ordinal :: "datetime \<Rightarrow> int" where
  "dt_ordinal t = (let y = int (dt_year t) - 1 in
     y * 365 + y div 4 - y div 100 + y div 400
       + int (days_before_month (dt_year t) (dt_month t)) + int (dt_day t))"

definition dt_us :: "datetime \<Rightarrow> int" where
  "dt_us t = (((dt_ordinal t * 24 + int (dt_hour t)) * 60 + int (dt_minute t)) * 60
                + int (dt_second t)) * 1000000 + int (dt_micro t)"

text \<open>\<open>strftime("%Y%m%d")\<close>, \<open>strftime("%Y%m%d%H")\<close> and \<open>isoformat()\<close>.\<close>

definition fmt_day :: "datetime \<Rightarrow> string" where
  "fmt_day t = pad 4 (dt_year t) @ pad 2 (dt_month t) @ pad 2 (dt_day t)"

definition fmt_hour :: "datetime \<Rightarrow> string" where
  "fmt_hour t = fmt_day t @ pad 2 (dt_hour t)"

definition isoformat :: "datetime \<Rightarrow> string" where
  "isoformat t = pad 4 (dt_year t) @ ''-'' @ pad 2 (dt_month t) @ ''-'' @ pad 2 (dt_day t)
     @ ''T'' @ pad 2 (dt_hour t) @ '':'' @ pad 2 (dt_minute t) @ '':'' @ pad 2 (dt_second t)
     @ (if dt_micro t = 0 then [] else ''.'' @ pad 6 (dt_micro t))"

text \<open>The ranges Python enforces on a \<open>datetime\<close>.\<close>

definition wf_dt :: "datetime \<Rightarrow> bool" where
  "wf_dt t \<longleftrightarrow> 1 \<le> dt_year t \<and> dt_year t < 10000 \<and> 1 \<le> dt_month t \<and> dt_month t \<le> 12
     \<and> 1 \<le> dt_day t \<and> dt_day t \<le> 31 \<and> dt_hour t < 24 \<and> dt_minute t < 60
     \<and> dt_second t < 60 \<and> dt_micro t < 1000000"

lemma length_fmt_day: "wf_dt t \<Longrightarrow> length (fmt_day t) = 8"
  by (simp add: fmt_day_def wf_dt_def length_pad)

lemma length_fmt_hour: "wf_dt t \<Longrightarrow> length (fmt_hour t) = 10"
  by (simp add: fmt_hour_def length_fmt_day length_pad wf_dt_def)

lemma fmt_day_eq_iff:
  assumes "wf_dt s" and "wf_dt t"
  shows "fmt_day s = fmt_day t \<longleftrightarrow>
     dt_year s = dt_year t \<and> dt_month s = dt_month t \<and> dt_day s = dt_day t"
proof -
  have "length (pad 4 (dt_year s)) = length (pad 4 (dt_year t))"
    and "length (pad 2 (dt_month s)) = length (pad 2 (dt_month t))"
    using assms by (simp_all add: wf_dt_def length_pad)
  then show ?thesis by (auto simp: fmt_day_def)
qed

lemma fmt_hour_eq_iff:
  assumes "wf_dt s" and "wf_dt t"
  shows "fmt_hour s = fmt_hour t \<longleftrightarrow> fmt_day s = fmt_day t \<and> dt_hour s = dt_hour t"
proof -
  have "length (fmt_day s) = length (fmt_day t)" using assms by (simp add: length_fmt_day)
  then show ?thesis by (auto simp: fmt_hour_def)
qed

lemma fmt_day_no_colon: "CHR '':'' \<notin> set (fmt_day t)"
  and fmt_hour_no_colon: "CHR '':'' \<notin> set (fmt_hour t)"
  by (auto simp: fmt_hour_def fmt_day_def pad_def dec_nat_no_colon)

section \<open>Separated texts\<close>

text \<open>
  Two texts built as \<open>a:rest\<close> are equal exactly when their parts are, as long as the
  first parts hold no colon: the argument behind every prefixed idempotency key.
\<close>

lemma colon_sep:
  assumes "CHR '':'' \<notin> set a" and "CHR '':'' \<notin> set b"
  shows "a @ CHR '':'' # x = b @ CHR '':'' # y \<longleftrightarrow> a = b \<and> x = y"
proof
  assume eq: "a @ CHR '':'' # x = b @ CHR '':'' # y"
  have "takeWhile (\<lambda>c. c \<noteq> CHR '':'') (a @ CHR '':'' # x) = a"
    and "takeWhile (\<lambda>c. c \<noteq> CHR '':'') (b @ CHR '':'' # y) = b"
    using assms by (simp_all add: takeWhile_append)
  with eq have "a = b" by simp
  with eq show "a = b \<and> x = y" by simp
qed simp

lemma colon_sep_right:
  assumes "CHR '':'' \<notin> set x" and "CHR '':'' \<notin> set y"
  shows "a @ CHR '':'' # x = b @ CHR '':'' # y \<longleftrightarrow> a = b \<and> x = y"
proof -
  have "a @ CHR '':'' # x = b @ CHR '':'' # y \<longleftrightarrow>
      rev (a @ CHR '':'' # x) = rev (b @ CHR '':'' # y)" by (rule rev_is_rev_conv [symmetric])
  also have "\<dots> \<longleftrightarrow> rev x @ CHR '':'' # rev a = rev y @ CHR '':'' # rev b" by simp
  also have "\<dots> \<longleftrightarrow> rev x = rev y \<and> rev a = rev b"
    using assms by (intro colon_sep) simp_all
  finally show ?thesis by auto
qed

section \<open>String methods\<close>

text \<open>Python's \<open>str.strip()\<close> : the characters (code points below 256) it removes.\<close>

definition is_space :: "char \<Rightarrow> bool" where
  "is_space c \<longleftrightarrow> List.member [9, 10, 11, 12, 13, 28, 29, 30, 31, 32, 133, 160] (of_char c :: nat)"

definition strip :: "string \<Rightarrow> string" where
  "strip s = rev (dropWhile is_space (rev (dropWhile is_space s)))"

text \<open>\<open>str.lower()\<close> on code points below 256.\<close>

definition lower_char :: "char \<Rightarrow> char" where
  "lower_char c =
     (let n = (of_char c :: nat)
      in if 65 \<le> n \<and> n \<le> 90 \<or> 192 \<le> n \<and> n \<le> 222 \<and> n \<noteq> 215 then char_of (n + 32) else c)"

definition lower :: "string \<Rightarrow> string" where
  "lower s = map lower_char s"

fun startswith :: "string \<Rightarrow> string \<Rightarrow> bool" where
  "startswith s [] = True"
| "startswith [] (p # ps) = False"
| "startswith (c # s) (p # ps) = (c = p \<and> startswith s ps)"

text \<open>
  \<open>str.upper()\<close> on the code points below 256 whose upper case is one such code point
  (field names are ASCII), and Python's \<open>sub in s\<close>.
\<close>

definition upper_char :: "char \<Rightarrow> char" where
  "upper_char c =
     (let n = (of_char c :: nat)
      in if 97 \<le> n \<and> n \<le> 122 \<or> 224 \<le> n \<and> n \<le> 254 \<and> n \<noteq> 247 then char_of (n - 32) else c)"

definition upper :: "string \<Rightarrow> string" where
  "upper s = map upper_char s"

fun contains :: "string \<Rightarrow> string \<Rightarrow> bool" where
  "contains [] p = (p = [])"
| "contains (c # s) p = (startswith (c # s) p \<or> contains s p)"

text \<open>\<open>s.split(sep, 1)[1]\<close> where the separator occurs, and \<open>s.split(sep, 1)[0]\<close>.\<close>

definition after_first :: "char \<Rightarrow> string \<Rightarrow> string" where
  "after_first c s = tl (dropWhile (\<lambda>x. x \<noteq> c) s)"

definition before_first :: "char \<Rightarrow> string \<Rightarrow> string" where
  "before_first c s = takeWhile (\<lambda>x. x \<noteq> c) s"

definition rstrip_char :: "char \<Rightarrow> string \<Rightarrow> string" where
  "rstrip_char c s = rev (dropWhile (\<lambda>x. x = c) (rev s))"

fun join_text :: "string \<Rightarrow> string list \<Rightarrow> string" where
  "join_text sep [] = []"
| "join_text sep [s] = s"
| "join_text sep (s # t # ts) = s @ sep @ join_text sep (t # ts)"

text \<open>\<open>repr\<close> of a text whose code points are below 256.\<close>

definition hex_digit :: "nat \<Rightarrow> char" where
  "hex_digit n = (if n < 10 then digit n else char_of (87 + n))"

definition repr_char :: "char \<Rightarrow> char \<Rightarrow> string" where
  "repr_char quote c =
     (let n = (of_char c :: nat) in
      if c = quote \<or> n = 92 then [char_of (92 :: nat), c]
      else if n = 9 then [char_of (92 :: nat), CHR ''t'']
      else if n = 10 then [char_of (92 :: nat), CHR ''n'']
      else if n = 13 then [char_of (92 :: nat), CHR ''r'']
      else if n < 32 \<or> 127 \<le> n \<and> n \<le> 160 \<or> n = 173
      then [char_of (92 :: nat), CHR ''x'', hex_digit (n div 16), hex_digit (n mod 16)]
      else [c])"

definition py_repr :: "string \<Rightarrow> string" where
  "py_repr s =
     (let quote = (if List.member s (CHR 0x27) \<and> \<not> List.member s (CHR 0x22) then CHR 0x22 else CHR 0x27)
      in [quote] @ concat (map (repr_char quote) s) @ [quote])"

definition py_repr_list :: "string list \<Rightarrow> string" where
  "py_repr_list ss = ''['' @ join_text '', '' (map py_repr ss) @ '']''"

lemma startswith_iff: "startswith s p \<longleftrightarrow> (\<exists>r. s = p @ r)"
  by (induction s p rule: startswith.induct) auto

lemma contains_iff: "contains s p \<longleftrightarrow> (\<exists>a b. s = a @ p @ b)"
proof (induction s)
  case Nil
  then show ?case by simp
next
  case (Cons c s)
  show ?case
    unfolding contains.simps Cons.IH startswith_iff
    by (metis append_Cons append_Nil list.exhaust list.inject)
qed

text \<open>\<open>s.split(sep)\<close> for a one-character separator.\<close>

fun split_on :: "char \<Rightarrow> string \<Rightarrow> string list" where
  "split_on c [] = [[]]"
| "split_on c (x # xs) =
     (if x = c then [] # split_on c xs
      else case split_on c xs of [] \<Rightarrow> [[x]] | y # ys \<Rightarrow> (x # y) # ys)"

lemma split_on_nonempty: "split_on c s \<noteq> []"
  by (induction s) (auto split: list.split)

lemma split_on_plain: "c \<notin> set s \<Longrightarrow> split_on c s = [s]"
  by (induction s) auto

lemma split_on_append: "c \<notin> set s \<Longrightarrow> split_on c (s @ c # r) = s # split_on c r"
  by (induction s) auto

lemma split_on_no_sep: "p \<in> set (split_on c s) \<Longrightarrow> c \<notin> set p"
proof (induction s arbitrary: p)
  case Nil
  then show ?case by simp
next
  case (Cons x xs)
  obtain y ys where y: "split_on c xs = y # ys" using split_on_nonempty by (cases "split_on c xs") auto
  then show ?case using Cons by (auto split: if_splits)
qed

lemma split_on_step:
  "split_on c s = p # ps \<Longrightarrow>
     c \<notin> set p \<and> (if ps = [] then s = p else \<exists>r. s = p @ c # r \<and> split_on c r = ps)"
proof (induction s arbitrary: p ps)
  case Nil
  then show ?case by auto
next
  case (Cons x xs)
  obtain y ys where y: "split_on c xs = y # ys"
    using split_on_nonempty by (cases "split_on c xs") auto
  show ?case
  proof (cases "x = c")
    case True
    then show ?thesis using Cons.prems y by auto
  next
    case False
    then have "p = x # y" and "ps = ys" using Cons.prems y by auto
    then show ?thesis using Cons.IH [OF y] False by (cases "ys = []") auto
  qed
qed

end
