(* ===== verification/Schema.thy ===== *)
theory Schema
  imports Complex_Main Pytext
begin

text \<open>
  The state store: one record per table of \<open>src/lcp/db/models.py\<close>, the closed
  vocabularies of the status columns, the database as a record of tables, the INSERTs
  with the UNIQUE keys the models (and, for \<open>dataset\<close>, the DDL they mirror) declare,
  and the well-formedness of a database: every UNIQUE key holds.  The surrogate keys of
  index, policy and rule rows are kept because idempotency keys embed them;
  \<open>updated_at\<close> and the surrogate keys nobody reads are left out.
\<close>

section \<open>Column types\<close>

datatype json =
    JNull | JBool bool | JInt int | JFloat rat | JStr string
  | JList "json list" | JObj "(string \<times> json) list"

type_synonym params = "(string \<times> json) list"

datatype dataset_status = ACTIVE | PAUSED | ARCHIVED | DELETED
datatype task_status = PENDING | QUEUED | RUNNING | SUCCEEDED | FAILED | CANCELLED
datatype task_type =
    VECTORIZE | COMPACTION | TTL_DELETE | INDEX_BUILD | INDEX_OPTIMIZE
  | INDEX_CLEANUP | LIFECYCLE_RECYCLE
datatype index_status =
    IX_BUILDING | IX_READY | IX_OPTIMIZING | IX_MERGING | IX_FAILED | IX_DROPPED
datatype worker_status = ALIVE | DRAINING | DEAD
datatype trigger_type = ON_INSERT | SCHEDULED | MANUAL

fun task_status_str :: "task_status \<Rightarrow> string" where
  "task_status_str PENDING = ''PENDING''"
| "task_status_str QUEUED = ''QUEUED''"
| "task_status_str RUNNING = ''RUNNING''"
| "task_status_str SUCCEEDED = ''SUCCEEDED''"
| "task_status_str FAILED = ''FAILED''"
| "task_status_str CANCELLED = ''CANCELLED''"

fun task_type_str :: "task_type \<Rightarrow> string" where
  "task_type_str VECTORIZE = ''VECTORIZE''"
| "task_type_str COMPACTION = ''COMPACTION''"
| "task_type_str TTL_DELETE = ''TTL_DELETE''"
| "task_type_str INDEX_BUILD = ''INDEX_BUILD''"
| "task_type_str INDEX_OPTIMIZE = ''INDEX_OPTIMIZE''"
| "task_type_str INDEX_CLEANUP = ''INDEX_CLEANUP''"
| "task_type_str LIFECYCLE_RECYCLE = ''LIFECYCLE_RECYCLE''"

fun dataset_status_str :: "dataset_status \<Rightarrow> string" where
  "dataset_status_str ACTIVE = ''ACTIVE''"
| "dataset_status_str PAUSED = ''PAUSED''"
| "dataset_status_str ARCHIVED = ''ARCHIVED''"
| "dataset_status_str DELETED = ''DELETED''"

section \<open>Tables\<close>

record dataset_row =
  ds_uuid :: string
  ds_catalog :: string
  ds_schema :: string
  ds_table :: string
  ds_storage_uri :: string
  ds_tenant :: string
  ds_owner :: "string option"
  ds_description :: "string option"
  ds_status :: dataset_status
  ds_row_count :: int
  ds_fragment_count :: int
  ds_index_coverage :: rat
  ds_latest_version :: int
  ds_extra :: "json option"
  ds_created_at :: datetime

record task_row =
  tk_uuid :: string
  tk_type :: task_type
  tk_dataset :: string
  tk_tenant :: string
  tk_status :: task_status
  tk_priority :: int
  tk_progress :: rat
  tk_attempt :: int
  tk_max_attempts :: int
  tk_worker :: "string option"
  tk_key :: "string option"
  tk_params :: "params option"
  tk_result :: "params option"
  tk_error_code :: "string option"
  tk_error_message :: "string option"
  tk_scheduled_at :: "datetime option"
  tk_started_at :: "datetime option"
  tk_finished_at :: "datetime option"
  tk_created_at :: datetime

record index_row =
  ix_id :: nat
  ix_dataset :: string
  ix_name :: string
  ix_column :: string
  ix_type :: string
  ix_params :: "params option"
  ix_status :: index_status
  ix_coverage :: rat
  ix_fragment_count :: int
  ix_delta_count :: int
  ix_last_optimized_at :: "datetime option"
  ix_last_merged_at :: "datetime option"
  ix_last_seen_version :: "int option"
  ix_error_message :: "string option"
  ix_created_at :: datetime

record policy_row =
  lp_id :: nat
  lp_dataset :: string
  lp_name :: string
  lp_tier_rules :: "params option"
  lp_ttl_days :: "int option"
  lp_compaction_threshold :: "params option"
  lp_index_optimize_cron :: "string option"
  lp_watch_enabled :: bool
  lp_min_unindexed_rows :: "int option"
  lp_min_version_drift :: "int option"
  lp_stale_minutes :: "int option"
  lp_enabled :: bool
  lp_last_run_at :: "datetime option"
  lp_created_at :: datetime

record rule_row =
  vr_id :: nat
  vr_dataset :: string
  vr_target_column :: string
  vr_source_columns :: "string list option"
  vr_model_name :: string
  vr_model_version :: string
  vr_model_endpoint :: "string option"
  vr_batch_size :: int
  vr_trigger_type :: trigger_type
  vr_cron_expr :: "string option"
  vr_enabled :: bool
  vr_extra :: "params option"
  vr_created_at :: datetime

record worker_row =
  wk_id :: string
  wk_type :: string
  wk_host :: "string option"
  wk_lease :: string
  wk_capacity :: int
  wk_in_flight :: int
  wk_labels :: "params option"
  wk_status :: worker_status
  wk_last_heartbeat_at :: datetime

record db =
  datasets :: "dataset_row list"
  tasks :: "task_row list"
  indexes :: "index_row list"
  policies :: "policy_row list"
  rules :: "rule_row list"
  workers :: "worker_row list"
  next_index_id :: nat
  next_policy_id :: nat
  next_rule_id :: nat

definition empty_db :: db where
  "empty_db = \<lparr>datasets = [], tasks = [], indexes = [], policies = [], rules = [],
     workers = [], next_index_id = 1, next_policy_id = 1, next_rule_id = 1\<rparr>"

end
