(* ===== verification/Jsonval.thy ===== *)
theory Jsonval
  imports Schema
begin

text \<open>
  What Python does with a decoded JSON value: truth value, \<open>int(...)\<close>, iteration,
  \<open>dict.get\<close>.  A JSON object is an association list in insertion order.
\<close>

section \<open>Truth, integers, iteration\<close>

fun py_truthy :: "json \<Rightarrow> bool" where
  "py_truthy JNull = False"
| "py_truthy (JBool b) = b"
| "py_truthy (JInt i) = (i \<noteq> 0)"
| "py_truthy (JFloat r) = (r \<noteq> 0)"
| "py_truthy (JStr s) = (s \<noteq> [])"
| "py_truthy (JList xs) = (xs \<noteq> [])"
| "py_truthy (JObj kvs) = (kvs \<noteq> [])"

text \<open>\<open>d.get(k, default)\<close>, and \<open>x or default\<close>.\<close>

definition get_or :: "params \<Rightarrow> string \<Rightarrow> json \<Rightarrow> json" where
  "get_or d k v = (case map_of d k of None \<Rightarrow> v | Some x \<Rightarrow> x)"

definition py_or :: "json \<Rightarrow> json \<Rightarrow> json" where
  "py_or x y = (if py_truthy x then x else y)"

fun iter_json :: "json \<Rightarrow> json list res" where
  "iter_json (JList xs) = Inr xs"
| "iter_json (JObj kvs) = Inr (map (\<lambda>kv. JStr (fst kv)) kvs)"
| "iter_json (JStr s) = Inr (map (\<lambda>c. JStr [c]) s)"
| "iter_json _ = Inl TypeError"

text \<open>Python's \<open>int(...)\<close> of a JSON value: digits with an optional sign, surrounded by blanks.\<close>

definition is_digit :: "char \<Rightarrow> bool" where
  "is_digit c \<longleftrightarrow> 48 \<le> (of_char c :: nat) \<and> (of_char c :: nat) \<le> 57"

definition int_of_digits :: "string \<Rightarrow> int res" where
  "int_of_digits s =
     (let groups = split_on (CHR ''_'') s
      in if list_all (\<lambda>g. g \<noteq> [] \<and> list_all is_digit g) groups
         then Inr (int (undec (concat groups))) else Inl ValueError)"

definition int_of_text :: "string \<Rightarrow> int res" where
  "int_of_text s =
     (let t = strip s
      in if startswith t ''-''
         then (case int_of_digits (tl t) of Inl e \<Rightarrow> Inl e | Inr n \<Rightarrow> Inr (- n))
         else if startswith t ''+'' then int_of_digits (tl t)
         else int_of_digits t)"

fun int_of_json :: "json \<Rightarrow> int res" where
  "int_of_json (JInt i) = Inr i"
| "int_of_json (JBool b) = Inr (if b then 1 else 0)"
| "int_of_json (JFloat r) = Inr (if 0 \<le> r then \<lfloor>r\<rfloor> else \<lceil>r\<rceil>)"
| "int_of_json (JStr s) = int_of_text s"
| "int_of_json _ = Inl TypeError"

text \<open>\<open>x or {}\<close> for a value that is used as a dict afterwards.\<close>

definition as_dict :: "json \<Rightarrow> params res" where
  "as_dict v = (case v of JObj kvs \<Rightarrow> Inr kvs | _ \<Rightarrow> Inl (OtherError ''AttributeError''))"

definition opt_params :: "params option \<Rightarrow> params" where
  "opt_params p = (case p of None \<Rightarrow> [] | Some kvs \<Rightarrow> kvs)"

lemma get_or_Nil [simp]: "get_or [] k v = v"
  by (simp add: get_or_def)

lemma get_or_Cons [simp]: "get_or ((k', x) # d) k v = (if k' = k then x else get_or d k v)"
  by (simp add: get_or_def)

text \<open>An integer prints and parses back.\<close>

lemma digit_is_digit: "d < 10 \<Longrightarrow> is_digit (digit d)"
  by (simp add: is_digit_def digit_def)

lemma dec_nat_is_digits: "list_all is_digit (dec_nat n)"
  using dec_nat_digits digit_is_digit by (auto simp: list_all_iff)

lemma digit_not_sep:
  assumes "is_digit c"
  shows "c \<noteq> CHR ''_''" and "\<not> is_space c" and "c \<noteq> CHR ''-''" and "c \<noteq> CHR ''+''"
proof -
  from assms have n: "48 \<le> (of_char c :: nat)" "(of_char c :: nat) \<le> 57" by (auto simp: is_digit_def)
  show "c \<noteq> CHR ''_''" using n by auto
  show "\<not> is_space c" using n by (auto simp: is_space_def)
  show "c \<noteq> CHR ''-''" "c \<noteq> CHR ''+''" using n by auto
qed

lemma int_of_digits_dec_nat: "int_of_digits (dec_nat n) = Inr (int n)"
proof -
  have "CHR ''_'' \<notin> set (dec_nat n)"
    using dec_nat_is_digits [of n] digit_not_sep(1) by (auto simp: list_all_iff)
  then show ?thesis
    using dec_nat_is_digits [of n] dec_nat_nonempty [of n] undec_dec_nat [of n]
    by (simp add: int_of_digits_def split_on_plain)
qed

lemma strip_none:
  assumes "s \<noteq> []" and "\<not> is_space (hd s)" and "\<not> is_space (last s)"
  shows "strip s = s"
proof -
  have d: "dropWhile is_space s = s" using assms by (cases s) auto
  have "dropWhile is_space (rev s) = rev s" using assms by (cases "rev s") (auto simp: last_rev hd_rev [symmetric])
  with d show ?thesis by (simp add: strip_def)
qed

lemma int_of_text_dec_int: "int_of_text (dec_int i) = Inr i"
proof -
  have sp: "\<not> is_space c" if "c \<in> set (dec_nat n)" for c n
    using dec_nat_is_digits [of n] that digit_not_sep(2) by (auto simp: list_all_iff)
  obtain c cs where c: "dec_nat (nat i) = c # cs" using dec_nat_nonempty by (cases "dec_nat (nat i)") auto
  have dig: "is_digit c" using dec_nat_is_digits [of "nat i"] c by simp
  show ?thesis
  proof (cases "i < 0")
    case True
    have "strip (dec_int i) = dec_int i"
    proof (rule strip_none)
      show "dec_int i \<noteq> []" using True by (simp add: dec_int_def)
      show "\<not> is_space (hd (dec_int i))" using True by (simp add: dec_int_def is_space_def)
      show "\<not> is_space (last (dec_int i))"
        using True sp [of "last (dec_nat (nat (- i)))" "nat (- i)"] dec_nat_nonempty [of "nat (- i)"]
        by (simp add: dec_int_def)
    qed
    then show ?thesis using True by (simp add: int_of_text_def dec_int_def int_of_digits_dec_nat)
  next
    case False
    have "strip (dec_nat (nat i)) = dec_nat (nat i)"
      by (rule strip_none [OF dec_nat_nonempty sp [OF hd_in_set [OF dec_nat_nonempty]]
            sp [OF last_in_set [OF dec_nat_nonempty]]])
    then show ?thesis
      using False digit_not_sep(3,4) [OF dig] int_of_digits_dec_nat [of "nat i"] c
      by (simp add: int_of_text_def dec_int_def)
  qed
qed

end
