(* ===== verification/DataPlane.thy ===== *)
theory DataPlane
  imports Config Jsonval
begin

text \<open>
  The Lance wrapper, \<open>src/lcp/data_plane/lance_io.py\<close>.  The \<open>lance\<close> package is a
  record of functions: opening a dataset yields a snapshot handle, mutations run on a
  handle and change the storage, of type \<open>'w\<close>.  Methods some versions of the package
  lack are options.  A computation that may raise and may change the storage is a
  function from the storage to a result and the storage after it; \<open>io_bind\<close> is Python's
  sequencing.
\<close>

section \<open>Computations over the storage\<close>

type_synonym ('w, 'a) io = "'w \<Rightarrow> 'a res \<times> 'w"

definition io_return :: "'a \<Rightarrow> ('w, 'a) io" where
  "io_return x w = (Inr x, w)"

definition io_raise :: "lcp_error \<Rightarrow> ('w, 'a) io" where
  "io_raise e w = (Inl e, w)"

definition io_res :: "'a res \<Rightarrow> ('w, 'a) io" where
  "io_res r w = (r, w)"

definition io_read :: "('w \<Rightarrow> 'a res) \<Rightarrow> ('w, 'a) io" where
  "io_read f w = (f w, w)"

definition io_bind :: "('w, 'a) io \<Rightarrow> ('a \<Rightarrow> ('w, 'b) io) \<Rightarrow> ('w, 'b) io" where
  "io_bind m k w = (case m w of (Inl e, w') \<Rightarrow> (Inl e, w') | (Inr x, w') \<Rightarrow> k x w')"

lemma io_simps [simp]:
  "io_return x w = (Inr x, w)" "io_raise e w = (Inl e, w)" "io_res r w = (r, w)"
  "io_read f w = (f w, w)"
  by (simp_all add: io_return_def io_raise_def io_res_def io_read_def)

lemma io_bind_Inr:
  "io_bind m k w = (Inr y, w2) \<longleftrightarrow> (\<exists>x w1. m w = (Inr x, w1) \<and> k x w1 = (Inr y, w2))"
  by (auto simp: io_bind_def split: prod.splits sum.splits)

lemma io_bind_Inl:
  "io_bind m k w = (Inl e, w2) \<longleftrightarrow> m w = (Inl e, w2) \<or> (\<exists>x w1. m w = (Inr x, w1) \<and> k x w1 = (Inl e, w2))"
  by (auto simp: io_bind_def split: prod.splits sum.splits)

section \<open>The package\<close>

type_synonym storage_options = "(string \<times> string) list"

text \<open>A column UDF: from the projected batch, column by column, to one vector per row.\<close>

record column_udf =
  udf_target :: string
  udf_dim :: nat
  udf_fun :: "(string \<times> json list) list \<Rightarrow> rat list list res"

record lance_query =
  lq_vector :: "rat list"
  lq_column :: string
  lq_limit :: int
  lq_where :: "string option"
  lq_select :: "string list option"
  lq_nprobes :: "int option"
  lq_refine_factor :: "int option"

record ('h, 'w) lance =
  ln_installed :: bool
  ln_dataset :: "string \<Rightarrow> storage_options \<Rightarrow> 'w \<Rightarrow> 'h res"
  ln_delete :: "'h \<Rightarrow> string \<Rightarrow> ('w, unit) io"
  ln_count_rows :: "'h \<Rightarrow> 'w \<Rightarrow> int res"
  ln_compact_files :: "'h \<Rightarrow> params \<Rightarrow> ('w, params) io"
  ln_optimize_indices :: "'h \<Rightarrow> ('w, unit) io"
  ln_latest_version :: "'h \<Rightarrow> int"
  ln_list_indices :: "('h \<Rightarrow> 'w \<Rightarrow> params list res) option"
  ln_index_statistics :: "('h \<Rightarrow> string \<Rightarrow> 'w \<Rightarrow> params option res) option"
  ln_create_index :: "'h \<Rightarrow> string \<Rightarrow> string \<Rightarrow> bool \<Rightarrow> params \<Rightarrow> ('w, unit) io"
  ln_add_columns :: "'h \<Rightarrow> column_udf \<Rightarrow> string list option \<Rightarrow> ('w, unit) io"
  ln_schema :: "'h \<Rightarrow> (string \<times> string) list"
  ln_search :: "'h \<Rightarrow> lance_query \<Rightarrow> 'w \<Rightarrow> params list res"

definition LanceNotInstalledError :: lcp_error where
  "LanceNotInstalledError = OtherError ''LanceNotInstalledError''"

section \<open>Opening a dataset\<close>

definition build_storage_options :: "settings \<Rightarrow> storage_options" where
  "build_storage_options cfg =
     (if lance_storage_endpoint cfg = [] then []
      else [(''endpoint'', lance_storage_endpoint cfg),
            (''aws_access_key_id'', lance_storage_access_key cfg),
            (''aws_secret_access_key'', lance_storage_secret_key cfg),
            (''aws_region'', lance_storage_region cfg),
            (''allow_http'', if lance_storage_allow_http cfg then ''true'' else ''false''),
            (''virtual_hosted_style_request'',
              if lance_storage_path_style cfg then ''false'' else ''true'')])"

definition open_dataset ::
  "('h, 'w) lance \<Rightarrow> settings \<Rightarrow> string \<Rightarrow> storage_options option \<Rightarrow> ('w, 'h) io" where
  "open_dataset L cfg uri opts =
     (if \<not> ln_installed L then io_raise LanceNotInstalledError
      else io_read (ln_dataset L uri
             (case opts of None \<Rightarrow> build_storage_options cfg | Some so \<Rightarrow> so)))"

section \<open>Mutations\<close>

definition delete_rows ::
  "('h, 'w) lance \<Rightarrow> settings \<Rightarrow> string \<Rightarrow> string \<Rightarrow> storage_options option \<Rightarrow> ('w, int) io" where
  "delete_rows L cfg uri predicate opts =
     io_bind (open_dataset L cfg uri opts) (\<lambda>ds.
     io_bind (ln_delete L ds predicate) (\<lambda>_.
     io_bind (open_dataset L cfg uri opts) (\<lambda>ds_after.
     io_read (ln_count_rows L ds_after))))"

record compaction_stats =
  cs_fragments_removed :: int
  cs_fragments_added :: int
  cs_files_removed :: int
  cs_files_added :: int

text \<open>\<open>int(getattr(metrics, name, 0) or 0)\<close>.\<close>

definition metric :: "params \<Rightarrow> string \<Rightarrow> int res" where
  "metric metrics name = int_of_json (py_or (get_or metrics name (JInt 0)) (JInt 0))"

definition from_lance_metrics :: "params \<Rightarrow> compaction_stats res" where
  "from_lance_metrics m =
     (case (metric m ''fragments_removed'', metric m ''fragments_added'',
            metric m ''files_removed'', metric m ''files_added'') of
        (Inl e, _) \<Rightarrow> Inl e
      | (Inr a, Inl e, _) \<Rightarrow> Inl e
      | (Inr a, Inr b, Inl e, _) \<Rightarrow> Inl e
      | (Inr a, Inr b, Inr c, Inl e) \<Rightarrow> Inl e
      | (Inr a, Inr b, Inr c, Inr d) \<Rightarrow>
          Inr \<lparr>cs_fragments_removed = a, cs_fragments_added = b,
               cs_files_removed = c, cs_files_added = d\<rparr>)"

text \<open>The two optional keywords; \<open>JNull\<close> is Python's \<open>None\<close>, an argument nobody set.\<close>

definition compact_files ::
  "('h, 'w) lance \<Rightarrow> settings \<Rightarrow> string \<Rightarrow> storage_options option \<Rightarrow> json \<Rightarrow> json
     \<Rightarrow> ('w, compaction_stats) io" where
  "compact_files L cfg uri opts target_rows materialize =
     io_bind (open_dataset L cfg uri opts) (\<lambda>ds.
     io_bind (ln_compact_files L ds
       ((if target_rows \<noteq> JNull then [(''target_rows_per_fragment'', target_rows)] else [])
        @ (if materialize \<noteq> JNull then [(''materialize_deletions'', materialize)] else []))) (\<lambda>metrics.
     io_res (from_lance_metrics metrics)))"

definition safe_count_indices :: "('h, 'w) lance \<Rightarrow> 'h \<Rightarrow> 'w \<Rightarrow> nat" where
  "safe_count_indices L ds w =
     (case ln_list_indices L of
        None \<Rightarrow> 0
      | Some f \<Rightarrow> (case f ds w of Inl _ \<Rightarrow> 0 | Inr xs \<Rightarrow> length xs))"

definition optimize_indices ::
  "('h, 'w) lance \<Rightarrow> settings \<Rightarrow> string \<Rightarrow> storage_options option \<Rightarrow> ('w, nat \<times> int) io" where
  "optimize_indices L cfg uri opts =
     io_bind (open_dataset L cfg uri opts) (\<lambda>ds.
     io_bind (ln_optimize_indices L ds) (\<lambda>_.
     io_bind (open_dataset L cfg uri opts) (\<lambda>ds_after.
     io_read (\<lambda>w. Inr (safe_count_indices L ds_after w, ln_latest_version L ds_after)))))"

text \<open>
  \<open>create_index\<close> with \<open>**index_params\<close>: a key that names one of the call's own
  parameters is a \<open>TypeError\<close>.
\<close>

definition own_create_index_args :: "string list" where
  "own_create_index_args = [''uri'', ''column'', ''index_type'', ''storage_options'', ''replace'']"

definition lance_create_index ::
  "('h, 'w) lance \<Rightarrow> settings \<Rightarrow> string \<Rightarrow> string \<Rightarrow> string \<Rightarrow> storage_options option \<Rightarrow> bool
     \<Rightarrow> params \<Rightarrow> ('w, params) io" where
  "lance_create_index L cfg uri column index_type opts replace index_params =
     (if list_ex (\<lambda>kv. List.member own_create_index_args (fst kv)) index_params then io_raise TypeError
      else
        io_bind (open_dataset L cfg uri opts) (\<lambda>ds.
        io_bind (ln_create_index L ds column index_type replace index_params) (\<lambda>_.
        io_return [(''uri'', JStr uri), (''column'', JStr column), (''index_type'', JStr index_type),
                   (''replace'', JBool replace), (''params'', JObj index_params)])))"

definition add_columns_from_func ::
  "('h, 'w) lance \<Rightarrow> settings \<Rightarrow> string \<Rightarrow> column_udf \<Rightarrow> string list option \<Rightarrow> storage_options option
     \<Rightarrow> ('w, int) io" where
  "add_columns_from_func L cfg uri transforms read_columns opts =
     io_bind (open_dataset L cfg uri opts) (\<lambda>ds.
     io_bind (ln_add_columns L ds transforms read_columns) (\<lambda>_.
     io_bind (open_dataset L cfg uri opts) (\<lambda>ds_after.
     io_read (ln_count_rows L ds_after))))"

section \<open>Reads\<close>

definition read_dataset_schema ::
  "('h, 'w) lance \<Rightarrow> settings \<Rightarrow> string \<Rightarrow> storage_options option \<Rightarrow> ('w, (string \<times> string) list) io" where
  "read_dataset_schema L cfg uri opts =
     io_bind (open_dataset L cfg uri opts) (\<lambda>ds. io_return (ln_schema L ds))"

definition count_rows ::
  "('h, 'w) lance \<Rightarrow> settings \<Rightarrow> string \<Rightarrow> storage_options option \<Rightarrow> ('w, int) io" where
  "count_rows L cfg uri opts =
     io_bind (open_dataset L cfg uri opts) (\<lambda>ds. io_read (ln_count_rows L ds))"

record index_live_stats =
  is_latest_version :: int
  is_num_indexed_rows :: "int option"
  is_num_unindexed_rows :: "int option"
  is_num_indexed_fragments :: "int option"
  is_num_unindexed_fragments :: "int option"
  is_updated_at_timestamp_ms :: "int option"

definition maybe_int :: "json \<Rightarrow> int option" where
  "maybe_int v =
     (if v = JNull then None
      else case int_of_json v of Inl _ \<Rightarrow> None | Inr i \<Rightarrow> Some i)"

definition stat :: "params \<Rightarrow> string \<Rightarrow> int option" where
  "stat raw k = maybe_int (get_or raw k JNull)"

text \<open>The raw statistics: absent method, raising method and \<open>None\<close> answer alike.\<close>

definition raw_statistics :: "('h, 'w) lance \<Rightarrow> 'h \<Rightarrow> string \<Rightarrow> 'w \<Rightarrow> params option" where
  "raw_statistics L ds name w =
     (case ln_index_statistics L of
        None \<Rightarrow> None
      | Some f \<Rightarrow> (case f ds name w of Inl _ \<Rightarrow> None | Inr raw \<Rightarrow> raw))"

definition read_index_stats ::
  "('h, 'w) lance \<Rightarrow> settings \<Rightarrow> string \<Rightarrow> string \<Rightarrow> storage_options option
     \<Rightarrow> ('w, index_live_stats option) io" where
  "read_index_stats L cfg uri name opts =
     io_bind (open_dataset L cfg uri opts) (\<lambda>ds. io_read (\<lambda>w.
       let latest = ln_latest_version L ds in
       case raw_statistics L ds name w of
         Some raw \<Rightarrow>
           Inr (Some \<lparr>is_latest_version = latest,
             is_num_indexed_rows = stat raw ''num_indexed_rows'',
             is_num_unindexed_rows = stat raw ''num_unindexed_rows'',
             is_num_indexed_fragments = stat raw ''num_indexed_fragments'',
             is_num_unindexed_fragments = stat raw ''num_unindexed_fragments'',
             is_updated_at_timestamp_ms = stat raw ''updated_at_timestamp_ms''\<rparr>)
       | None \<Rightarrow>
           (case ln_list_indices L of
              None \<Rightarrow> Inl (OtherError ''AttributeError'')
            | Some f \<Rightarrow>
                (case f ds w of
                   Inl e \<Rightarrow> Inl e
                 | Inr idxs \<Rightarrow>
                     if \<not> List.member (map (\<lambda>i. get_or i ''name'' JNull) idxs) (JStr name)
                     then Inr None
                     else Inr (Some \<lparr>is_latest_version = latest, is_num_indexed_rows = None,
                            is_num_unindexed_rows = None, is_num_indexed_fragments = None,
                            is_num_unindexed_fragments = None, is_updated_at_timestamp_ms = None\<rparr>)))))"

definition column_message :: "string \<Rightarrow> string list \<Rightarrow> string" where
  "column_message column names =
     ''Vector column '' @ py_repr column @ '' not found in dataset schema; available=''
     @ py_repr_list (sort_key (\<lambda>s. map (of_char :: char \<Rightarrow> nat) s) names)"

definition vector_search ::
  "('h, 'w) lance \<Rightarrow> settings \<Rightarrow> string \<Rightarrow> lance_query \<Rightarrow> storage_options option
     \<Rightarrow> ('w, params list) io" where
  "vector_search L cfg uri q opts =
     io_bind (open_dataset L cfg uri opts) (\<lambda>ds.
       if \<not> List.member (map fst (ln_schema L ds)) (lq_column q)
       then io_raise (ValueErrorText (column_message (lq_column q) (map fst (ln_schema L ds))))
       else io_read (ln_search L ds q))"

section \<open>Lemmas\<close>

text \<open>Opening never changes the storage, and in stub mode carries no credentials.\<close>

lemma open_dataset_Inr:
  "open_dataset L cfg uri opts w = (Inr ds, w') \<longleftrightarrow>
     ln_installed L \<and> w' = w
     \<and> ln_dataset L uri (case opts of None \<Rightarrow> build_storage_options cfg | Some so \<Rightarrow> so) w = Inr ds"
  by (auto simp: open_dataset_def)

lemma build_storage_options_empty: "build_storage_options cfg = [] \<longleftrightarrow> lance_storage_endpoint cfg = []"
  by (simp add: build_storage_options_def)

text \<open>The counts and versions reported after a mutation are read from a handle opened after it.\<close>

lemma delete_rows_after:
  assumes "delete_rows L cfg uri p opts w = (Inr n, w')"
  obtains ds ds' where "open_dataset L cfg uri opts w = (Inr ds, w)" "ln_delete L ds p w = (Inr (), w')"
    "open_dataset L cfg uri opts w' = (Inr ds', w')" "ln_count_rows L ds' w' = Inr n"
  using assms by (auto simp: delete_rows_def io_bind_Inr open_dataset_Inr)

lemma optimize_indices_after:
  assumes "optimize_indices L cfg uri opts w = (Inr (n, v), w')"
  obtains ds ds' where "open_dataset L cfg uri opts w = (Inr ds, w)"
    "ln_optimize_indices L ds w = (Inr (), w')"
    "open_dataset L cfg uri opts w' = (Inr ds', w')" "v = ln_latest_version L ds'"
  using assms by (auto simp: optimize_indices_def io_bind_Inr open_dataset_Inr)

lemma read_index_stats_pure: "snd (read_index_stats L cfg uri name opts w) = w"
  by (simp add: read_index_stats_def io_bind_def open_dataset_def split: sum.split)

lemma read_index_stats_version:
  assumes "read_index_stats L cfg uri name opts w = (Inr (Some st), w')"
    and "open_dataset L cfg uri opts w = (Inr ds, w)"
  shows "is_latest_version st = ln_latest_version L ds"
  using assms
  by (auto simp: read_index_stats_def io_bind_Inr Let_def split: option.splits sum.splits if_splits)

section \<open>A storage for the witnesses\<close>

definition lance0 :: "(unit, unit) lance" where
  "lance0 = \<lparr>ln_installed = True, ln_dataset = (\<lambda>_ _ _. Inr ()), ln_delete = (\<lambda>_ _ w. (Inr (), w)),
     ln_count_rows = (\<lambda>_ _. Inr 5), ln_compact_files = (\<lambda>_ _ w. (Inr [], w)),
     ln_optimize_indices = (\<lambda>_ w. (Inr (), w)), ln_latest_version = (\<lambda>_. 7), ln_list_indices = None,
     ln_index_statistics = None, ln_create_index = (\<lambda>_ _ _ _ _ w. (Inr (), w)),
     ln_add_columns = (\<lambda>_ _ _ w. (Inr (), w)), ln_schema = (\<lambda>_. []), ln_search = (\<lambda>_ _ _. Inr [])\<rparr>"

end
