(* ===== verification/Store.thy ===== *)
theory Store
  imports Schema
begin

text \<open>
  What the ORM layer gives the services: rows built with the column defaults of
  \<open>models.py\<close>, INSERTs that fail on a UNIQUE key, and the well-formed database.
  The locale \<open>unique_table\<close> is the contract of a table with one UNIQUE key (a key
  that is \<open>None\<close> is SQL NULL and never clashes); it is interpreted once per key of
  the schema, and its lemmas are what the services' invariant proofs use.
\<close>

section \<open>UNIQUE keys\<close>

definition unique_on :: "('r \<Rightarrow> 'k option) \<Rightarrow> 'r list \<Rightarrow> bool" where
  "unique_on k rs \<longleftrightarrow> distinct (List.map_filter k rs)"

definition clash :: "('r \<Rightarrow> 'k option) \<Rightarrow> 'r \<Rightarrow> 'r list \<Rightarrow> bool" where
  "clash k r rs \<longleftrightarrow> (case k r of None \<Rightarrow> False | Some v \<Rightarrow> list_ex (\<lambda>x. k x = Some v) rs)"

lemma set_map_filter: "set (List.map_filter k rs) = {v. \<exists>r\<in>set rs. k r = Some v}"
  by (induction rs) (auto simp: List.map_filter_simps split: option.splits)

lemma map_filter_append': "List.map_filter k (rs @ ss) = List.map_filter k rs @ List.map_filter k ss"
  by (induction rs) (auto simp: List.map_filter_simps split: option.splits)

lemma unique_on_Nil [simp]: "unique_on k []"
  by (simp add: unique_on_def List.map_filter_simps)

lemma clash_iff: "clash k r rs \<longleftrightarrow> (\<exists>v. k r = Some v \<and> (\<exists>x\<in>set rs. k x = Some v))"
  by (auto simp: clash_def list_ex_iff split: option.splits)

lemma unique_on_append1:
  "unique_on k (rs @ [r]) \<longleftrightarrow> unique_on k rs \<and> \<not> clash k r rs"
  by (auto simp: unique_on_def map_filter_append' set_map_filter clash_iff
      List.map_filter_simps split: option.splits)

lemma unique_on_Cons:
  "unique_on k (r # rs) \<longleftrightarrow> \<not> clash k r rs \<and> unique_on k rs"
  by (auto simp: unique_on_def set_map_filter clash_iff List.map_filter_simps
      split: option.splits)

lemma unique_on_upd:
  assumes "\<And>r. P r \<Longrightarrow> k (f r) = k r"
  shows "unique_on k (upd_where P f rs) = unique_on k rs"
  using filter_map_option_upd [of P k f rs] assms by (simp add: unique_on_def)

lemma unique_on_filter: "unique_on k rs \<Longrightarrow> unique_on k (filter P rs)"
  by (induction rs) (auto simp: unique_on_Cons clash_iff)

lemma unique_on_select:
  assumes "unique_on k rs" and "r \<in> set rs" and "k r = Some v"
  shows "filter (\<lambda>x. k x = Some v) rs = [r]"
  using assms
proof (induction rs)
  case Nil
  then show ?case by simp
next
  case (Cons a rs)
  show ?case
  proof (cases "a = r")
    case True
    then have "\<forall>x\<in>set rs. k x \<noteq> Some v" using Cons.prems by (auto simp: unique_on_Cons clash_iff)
    then show ?thesis using True Cons.prems(3) by simp
  next
    case False
    then have "r \<in> set rs" and "k a \<noteq> Some v"
      using Cons.prems by (auto simp: unique_on_Cons clash_iff)
    then show ?thesis using Cons by (simp add: unique_on_Cons)
  qed
qed

lemma unique_on_eqI:
  "unique_on k rs \<Longrightarrow> r \<in> set rs \<Longrightarrow> s \<in> set rs \<Longrightarrow> k r = Some v \<Longrightarrow> k s = Some v \<Longrightarrow> r = s"
  using unique_on_select [of k rs r v] unique_on_select [of k rs s v] by simp

lemma unique_on_one_or_none:
  assumes "unique_on k rs"
  shows "\<exists>x. one_or_none (filter Q (filter (\<lambda>r. k r = Some v) rs)) = Inr x"
proof (cases "\<exists>r\<in>set rs. k r = Some v")
  case True
  then obtain r where "r \<in> set rs" "k r = Some v" by blast
  then show ?thesis by (simp add: unique_on_select [OF assms])
next
  case False
  then have "filter (\<lambda>r. k r = Some v) rs = []" by (simp add: filter_empty_conv)
  then show ?thesis by simp
qed

section \<open>Rows with their column defaults\<close>

definition new_dataset ::
  "string \<Rightarrow> string \<Rightarrow> string \<Rightarrow> string \<Rightarrow> string \<Rightarrow> string \<Rightarrow> string option
    \<Rightarrow> string option \<Rightarrow> datetime \<Rightarrow> dataset_row" where
  "new_dataset uuid catalog schema table uri tenant owner descr now =
     \<lparr>ds_uuid = uuid, ds_catalog = catalog, ds_schema = schema, ds_table = table,
      ds_storage_uri = uri, ds_tenant = tenant, ds_owner = owner, ds_description = descr,
      ds_status = ACTIVE, ds_row_count = 0, ds_fragment_count = 0, ds_index_coverage = 0,
      ds_latest_version = 0, ds_extra = None, ds_created_at = now\<rparr>"

definition new_task ::
  "string \<Rightarrow> task_type \<Rightarrow> string \<Rightarrow> string \<Rightarrow> int \<Rightarrow> params option \<Rightarrow> string option
    \<Rightarrow> int \<Rightarrow> datetime \<Rightarrow> task_row" where
  "new_task uuid typ dataset tenant priority pars key max_attempts now =
     \<lparr>tk_uuid = uuid, tk_type = typ, tk_dataset = dataset, tk_tenant = tenant,
      tk_status = PENDING, tk_priority = priority, tk_progress = 0, tk_attempt = 0,
      tk_max_attempts = max_attempts, tk_worker = None, tk_key = key, tk_params = pars,
      tk_result = None, tk_error_code = None, tk_error_message = None,
      tk_scheduled_at = None, tk_started_at = None, tk_finished_at = None,
      tk_created_at = now\<rparr>"

definition new_index ::
  "string \<Rightarrow> string \<Rightarrow> string \<Rightarrow> string \<Rightarrow> params option \<Rightarrow> datetime \<Rightarrow> index_row" where
  "new_index dataset name col typ pars now =
     \<lparr>ix_id = 0, ix_dataset = dataset, ix_name = name, ix_column = col, ix_type = typ,
      ix_params = pars, ix_status = IX_BUILDING, ix_coverage = 0, ix_fragment_count = 0,
      ix_delta_count = 0, ix_last_optimized_at = None, ix_last_merged_at = None,
      ix_last_seen_version = None, ix_error_message = None, ix_created_at = now\<rparr>"

definition new_worker ::
  "string \<Rightarrow> string \<Rightarrow> string option \<Rightarrow> string \<Rightarrow> int \<Rightarrow> params option \<Rightarrow> datetime \<Rightarrow> worker_row" where
  "new_worker wid typ host lease capacity labels now =
     \<lparr>wk_id = wid, wk_type = typ, wk_host = host, wk_lease = lease, wk_capacity = capacity,
      wk_in_flight = 0, wk_labels = labels, wk_status = ALIVE, wk_last_heartbeat_at = now\<rparr>"

section \<open>INSERT\<close>

definition uk_dataset_uuid :: "dataset_row \<Rightarrow> string option" where
  "uk_dataset_uuid r = Some (ds_uuid r)"
definition uk_catalog_schema_table :: "dataset_row \<Rightarrow> (string \<times> string \<times> string) option" where
  "uk_catalog_schema_table r = Some (ds_catalog r, ds_schema r, ds_table r)"
definition uk_task_uuid :: "task_row \<Rightarrow> string option" where
  "uk_task_uuid r = Some (tk_uuid r)"
definition uk_idempotency_key :: "task_row \<Rightarrow> string option" where
  "uk_idempotency_key r = tk_key r"
definition uk_dataset_index_name :: "index_row \<Rightarrow> (string \<times> string) option" where
  "uk_dataset_index_name r = Some (ix_dataset r, ix_name r)"
definition uk_dataset_policy :: "policy_row \<Rightarrow> (string \<times> string) option" where
  "uk_dataset_policy r = Some (lp_dataset r, lp_name r)"
definition uk_dataset_target :: "rule_row \<Rightarrow> (string \<times> string) option" where
  "uk_dataset_target r = Some (vr_dataset r, vr_target_column r)"
definition uk_worker_id :: "worker_row \<Rightarrow> string option" where
  "uk_worker_id r = Some (wk_id r)"

lemmas uk_defs [row_simps] =
  uk_dataset_uuid_def uk_catalog_schema_table_def uk_task_uuid_def uk_idempotency_key_def
  uk_dataset_index_name_def uk_dataset_policy_def uk_dataset_target_def uk_worker_id_def

definition insert_dataset :: "dataset_row \<Rightarrow> db \<Rightarrow> db res" where
  "insert_dataset r d =
     (if clash uk_dataset_uuid r (datasets d) \<or> clash uk_catalog_schema_table r (datasets d)
      then Inl IntegrityError else Inr (d\<lparr>datasets := datasets d @ [r]\<rparr>))"

definition insert_task :: "task_row \<Rightarrow> db \<Rightarrow> db res" where
  "insert_task r d =
     (if clash uk_task_uuid r (tasks d) \<or> clash uk_idempotency_key r (tasks d)
      then Inl IntegrityError else Inr (d\<lparr>tasks := tasks d @ [r]\<rparr>))"

definition insert_index :: "index_row \<Rightarrow> db \<Rightarrow> db res" where
  "insert_index r d =
     (if clash uk_dataset_index_name r (indexes d) then Inl IntegrityError
      else Inr (d\<lparr>indexes := indexes d @ [r\<lparr>ix_id := next_index_id d\<rparr>],
                  next_index_id := Suc (next_index_id d)\<rparr>))"

definition insert_policy :: "policy_row \<Rightarrow> db \<Rightarrow> db res" where
  "insert_policy r d =
     (if clash uk_dataset_policy r (policies d) then Inl IntegrityError
      else Inr (d\<lparr>policies := policies d @ [r\<lparr>lp_id := next_policy_id d\<rparr>],
                  next_policy_id := Suc (next_policy_id d)\<rparr>))"

definition insert_rule :: "rule_row \<Rightarrow> db \<Rightarrow> db res" where
  "insert_rule r d =
     (if clash uk_dataset_target r (rules d) then Inl IntegrityError
      else Inr (d\<lparr>rules := rules d @ [r\<lparr>vr_id := next_rule_id d\<rparr>],
                  next_rule_id := Suc (next_rule_id d)\<rparr>))"

definition insert_worker :: "worker_row \<Rightarrow> db \<Rightarrow> db res" where
  "insert_worker r d =
     (if clash uk_worker_id r (workers d) then Inl IntegrityError
      else Inr (d\<lparr>workers := workers d @ [r]\<rparr>))"

lemmas insert_defs =
  insert_dataset_def insert_task_def insert_index_def insert_policy_def insert_rule_def
  insert_worker_def

section \<open>The contract of a table with a UNIQUE key\<close>

locale unique_table =
  fixes rows :: "db \<Rightarrow> 'r list"
    and ins :: "'r \<Rightarrow> db \<Rightarrow> db res"
    and key :: "'r \<Rightarrow> 'k option"
  assumes ins_ok: "ins r d = Inr d' \<Longrightarrow>
      \<exists>r'. rows d' = rows d @ [r'] \<and> key r' = key r \<and> \<not> clash key r (rows d)"
    and ins_err: "ins r d = Inl e \<Longrightarrow> e = IntegrityError"
    and ins_clash: "clash key r (rows d) \<Longrightarrow> ins r d = Inl IntegrityError"
begin

lemma ins_unique: "ins r d = Inr d' \<Longrightarrow> unique_on key (rows d) \<Longrightarrow> unique_on key (rows d')"
  by (drule ins_ok) (auto simp: unique_on_append1 clash_iff)

lemma ins_keeps: "ins r d = Inr d' \<Longrightarrow> x \<in> set (rows d) \<Longrightarrow> x \<in> set (rows d')"
  by (drule ins_ok) auto

lemma ins_found:
  assumes "ins r d = Inr d'" and "key r = Some v"
  shows "\<exists>r'\<in>set (rows d'). key r' = Some v"
  using ins_ok [OF assms(1)] assms(2) by auto

lemma ins_other:
  assumes "ins r d = Inr d'" and "key r \<noteq> Some v"
  shows "filter (\<lambda>x. key x = Some v) (rows d') = filter (\<lambda>x. key x = Some v) (rows d)"
  using ins_ok [OF assms(1)] assms(2) by auto

lemma ins_twice:
  assumes "ins r d = Inr d'" and "key r = Some v" and "key s = Some v"
  shows "ins s d' = Inl IntegrityError"
proof -
  from ins_found [OF assms(1,2)] assms(3) have "clash key s (rows d')" by (auto simp: clash_iff)
  then show ?thesis by (rule ins_clash)
qed

lemma select_total:
  assumes "unique_on key (rows d)"
  shows "\<exists>x. one_or_none (filter (\<lambda>r. key r = Some v) (rows d)) = Inr x"
  using unique_on_one_or_none [OF assms, of "\<lambda>_. True"] by simp

lemma select_hit:
  assumes "unique_on key (rows d)" and "r \<in> set (rows d)" and "key r = Some v"
  shows "one_or_none (filter (\<lambda>x. key x = Some v) (rows d)) = Inr (Some r)"
  by (simp add: unique_on_select [OF assms])

end

interpretation ds_uuid_key: unique_table datasets insert_dataset uk_dataset_uuid
  by unfold_locales (auto simp: insert_dataset_def split: if_splits)

interpretation ds_name_key: unique_table datasets insert_dataset uk_catalog_schema_table
  by unfold_locales (auto simp: insert_dataset_def split: if_splits)

interpretation tk_uuid_key: unique_table tasks insert_task uk_task_uuid
  by unfold_locales (auto simp: insert_task_def split: if_splits)

interpretation tk_idem_key: unique_table tasks insert_task uk_idempotency_key
  by unfold_locales (auto simp: insert_task_def split: if_splits)

interpretation ix_name_key: unique_table indexes insert_index uk_dataset_index_name
  by unfold_locales (auto simp: insert_index_def uk_dataset_index_name_def split: if_splits)

interpretation lp_name_key: unique_table policies insert_policy uk_dataset_policy
  by unfold_locales (auto simp: insert_policy_def uk_dataset_policy_def split: if_splits)

interpretation vr_target_key: unique_table rules insert_rule uk_dataset_target
  by unfold_locales (auto simp: insert_rule_def uk_dataset_target_def split: if_splits)

interpretation wk_id_key: unique_table workers insert_worker uk_worker_id
  by unfold_locales (auto simp: insert_worker_def split: if_splits)

section \<open>Well-formed databases\<close>

definition wf_db :: "db \<Rightarrow> bool" where
  "wf_db d \<longleftrightarrow>
     unique_on uk_dataset_uuid (datasets d) \<and> unique_on uk_catalog_schema_table (datasets d)
   \<and> unique_on uk_task_uuid (tasks d) \<and> unique_on uk_idempotency_key (tasks d)
   \<and> unique_on uk_dataset_index_name (indexes d) \<and> unique_on uk_dataset_policy (policies d)
   \<and> unique_on uk_dataset_target (rules d) \<and> unique_on uk_worker_id (workers d)"

lemma wf_empty_db: "wf_db empty_db"
  by (simp add: wf_db_def empty_db_def)

lemma wf_insert_dataset: "wf_db d \<Longrightarrow> insert_dataset r d = Inr d' \<Longrightarrow> wf_db d'"
  by (auto simp: wf_db_def insert_dataset_def unique_on_append1 split: if_splits)

lemma wf_insert_task: "wf_db d \<Longrightarrow> insert_task r d = Inr d' \<Longrightarrow> wf_db d'"
  by (auto simp: wf_db_def insert_task_def unique_on_append1 split: if_splits)

lemma wf_insert_index: "wf_db d \<Longrightarrow> insert_index r d = Inr d' \<Longrightarrow> wf_db d'"
  using ix_name_key.ins_unique [of r d d']
  by (auto simp: wf_db_def insert_index_def split: if_splits)

lemma wf_insert_policy: "wf_db d \<Longrightarrow> insert_policy r d = Inr d' \<Longrightarrow> wf_db d'"
  using lp_name_key.ins_unique [of r d d']
  by (auto simp: wf_db_def insert_policy_def split: if_splits)

lemma wf_insert_rule: "wf_db d \<Longrightarrow> insert_rule r d = Inr d' \<Longrightarrow> wf_db d'"
  using vr_target_key.ins_unique [of r d d']
  by (auto simp: wf_db_def insert_rule_def split: if_splits)

lemma wf_insert_worker: "wf_db d \<Longrightarrow> insert_worker r d = Inr d' \<Longrightarrow> wf_db d'"
  by (auto simp: wf_db_def insert_worker_def unique_on_append1 split: if_splits)

lemmas wf_inserts =
  wf_insert_dataset wf_insert_task wf_insert_index wf_insert_policy wf_insert_rule
  wf_insert_worker

text \<open>An UPDATE that leaves the UNIQUE columns of its table alone.\<close>

lemma wf_upd_datasets:
  assumes "wf_db d"
    and "\<And>r. P r \<Longrightarrow> uk_dataset_uuid (f r) = uk_dataset_uuid r
           \<and> uk_catalog_schema_table (f r) = uk_catalog_schema_table r"
  shows "wf_db (d\<lparr>datasets := upd_where P f (datasets d)\<rparr>)"
  using assms by (simp add: wf_db_def unique_on_upd)

lemma wf_upd_tasks:
  assumes "wf_db d"
    and "\<And>r. P r \<Longrightarrow> uk_task_uuid (f r) = uk_task_uuid r
           \<and> uk_idempotency_key (f r) = uk_idempotency_key r"
  shows "wf_db (d\<lparr>tasks := upd_where P f (tasks d)\<rparr>)"
  using assms by (simp add: wf_db_def unique_on_upd)

lemma wf_upd_indexes:
  assumes "wf_db d" and "\<And>r. P r \<Longrightarrow> uk_dataset_index_name (f r) = uk_dataset_index_name r"
  shows "wf_db (d\<lparr>indexes := upd_where P f (indexes d)\<rparr>)"
  using assms by (simp add: wf_db_def unique_on_upd)

lemma wf_upd_policies:
  assumes "wf_db d" and "\<And>r. P r \<Longrightarrow> uk_dataset_policy (f r) = uk_dataset_policy r"
  shows "wf_db (d\<lparr>policies := upd_where P f (policies d)\<rparr>)"
  using assms by (simp add: wf_db_def unique_on_upd)

lemma wf_upd_rules:
  assumes "wf_db d" and "\<And>r. P r \<Longrightarrow> uk_dataset_target (f r) = uk_dataset_target r"
  shows "wf_db (d\<lparr>rules := upd_where P f (rules d)\<rparr>)"
  using assms by (simp add: wf_db_def unique_on_upd)

lemma wf_upd_workers:
  assumes "wf_db d" and "\<And>r. P r \<Longrightarrow> uk_worker_id (f r) = uk_worker_id r"
  shows "wf_db (d\<lparr>workers := upd_where P f (workers d)\<rparr>)"
  using assms by (simp add: wf_db_def unique_on_upd)

lemmas wf_upds =
  wf_upd_datasets wf_upd_tasks wf_upd_indexes wf_upd_policies wf_upd_rules wf_upd_workers

end
