(* ===== verification/Tenancy.thy ===== *)
theory Tenancy
  imports Store
begin

text \<open>
  Tenant principals and row-level security: \<open>src/lcp/core/tenant.py\<close> (the
  context variable that carries the principal of a request, the system principal and
  its guard) and \<open>src/lcp/db/rls.py\<close> (the \<open>before_execute\<close> hook that adds
  \<open>tenant_id = :current\<close> to every statement on a protected table).  A statement is
  its FROM forest of joins plus the tenant predicates the hook has added; a joined row
  is the map from the identity of each table to the tenant of its row.
  \<open>rls_rows\<close> is what a SELECT on one table sees, computed through the hook; every
  service reads tenant tables through it.
\<close>

section \<open>Principals\<close>

datatype auth_method = Oidc | Mtls | System

record principal =
  p_tenant_id :: string
  p_subject :: string
  p_auth_method :: auth_method
  p_is_system :: bool

text \<open>The value of the context variable; the token of a \<open>set\<close> is the value it replaced.\<close>

type_synonym ctxvar = "principal option"

definition set_current_tenant :: "principal \<Rightarrow> ctxvar \<Rightarrow> ctxvar \<times> ctxvar" where
  "set_current_tenant p cv = (cv, Some p)"

definition reset_current_tenant :: "ctxvar \<Rightarrow> ctxvar \<Rightarrow> ctxvar" where
  "reset_current_tenant token cv = token"

definition get_current_tenant :: "ctxvar \<Rightarrow> principal option" where
  "get_current_tenant cv = cv"

definition require_current_tenant :: "ctxvar \<Rightarrow> principal res" where
  "require_current_tenant cv = (case cv of None \<Rightarrow> Inl RuntimeError | Some p \<Rightarrow> Inr p)"

definition SYSTEM_TENANT_ID :: string where
  "SYSTEM_TENANT_ID = ''__system__''"

definition system_principal :: "string \<Rightarrow> principal" where
  "system_principal subject =
     \<lparr>p_tenant_id = SYSTEM_TENANT_ID, p_subject = subject,
      p_auth_method = System, p_is_system = True\<rparr>"

text \<open>\<open>_SystemContext\<close>: \<open>__enter__\<close> remembers the token, \<open>__exit__\<close> resets to it.\<close>

definition system_enter :: "string \<Rightarrow> ctxvar \<Rightarrow> ctxvar option \<times> ctxvar" where
  "system_enter subject cv =
     (let (token, cv') = set_current_tenant (system_principal subject) cv in (Some token, cv'))"

definition system_exit :: "ctxvar option \<Rightarrow> ctxvar \<Rightarrow> ctxvar" where
  "system_exit token cv =
     (case token of None \<Rightarrow> cv | Some t \<Rightarrow> reset_current_tenant t cv)"

definition with_system_context :: "string \<Rightarrow> (ctxvar \<Rightarrow> 'a \<times> ctxvar) \<Rightarrow> ctxvar \<Rightarrow> 'a \<times> ctxvar" where
  "with_system_context subject body cv =
     (let (token, cv1) = system_enter subject cv;
          (x, cv2) = body cv1
      in (x, system_exit token cv2))"

definition require_system_context :: "ctxvar \<Rightarrow> unit res" where
  "require_system_context cv =
     (case cv of
        None \<Rightarrow> Inl NotSystemPrincipalError
      | Some p \<Rightarrow> if p_is_system p then Inr () else Inl NotSystemPrincipalError)"

section \<open>Row-level security\<close>

record rls_ctx =
  cx_principal :: ctxvar
  cx_enforce :: bool

datatype from_item = Tbl nat string bool | Join from_item from_item

text \<open>A table has an identity, a name and the flag "has a column collection \<open>c\<close>".\<close>

datatype stmt =
    Select "from_item list" "(nat \<times> string) list"
  | Update "from_item option" "(nat \<times> string) list"
  | Delete "from_item option" "(nat \<times> string) list"
  | OtherStmt

definition RLS_PROTECTED_TABLES :: "string list" where
  "RLS_PROTECTED_TABLES = [''dataset'', ''task'']"

fun iter_leaf_tables :: "from_item \<Rightarrow> (nat \<times> string \<times> bool) list" where
  "iter_leaf_tables (Join l r) = iter_leaf_tables l @ iter_leaf_tables r"
| "iter_leaf_tables (Tbl i n c) = [(i, n, c)]"

definition stmt_roots :: "stmt \<Rightarrow> from_item list" where
  "stmt_roots s =
     (case s of
        Select froms _ \<Rightarrow> froms
      | Update t _ \<Rightarrow> (case t of None \<Rightarrow> [] | Some x \<Rightarrow> [x])
      | Delete t _ \<Rightarrow> (case t of None \<Rightarrow> [] | Some x \<Rightarrow> [x])
      | OtherStmt \<Rightarrow> [])"

fun dedup_targets :: "nat list \<Rightarrow> (nat \<times> string \<times> bool) list \<Rightarrow> nat list" where
  "dedup_targets seen [] = []"
| "dedup_targets seen ((i, n, c) # ls) =
     (if List.member RLS_PROTECTED_TABLES n \<and> c
      then (if List.member seen i then dedup_targets seen ls
            else i # dedup_targets (i # seen) ls)
      else dedup_targets seen ls)"

definition find_rls_targets :: "stmt \<Rightarrow> nat list" where
  "find_rls_targets s = dedup_targets [] (concat (map iter_leaf_tables (stmt_roots s)))"

fun add_where :: "(nat \<times> string) \<Rightarrow> stmt \<Rightarrow> stmt" where
  "add_where p (Select fs ws) = Select fs (ws @ [p])"
| "add_where p (Update t ws) = Update t (ws @ [p])"
| "add_where p (Delete t ws) = Delete t (ws @ [p])"
| "add_where p OtherStmt = OtherStmt"

definition inject_tenant_filter :: "stmt \<Rightarrow> nat list \<Rightarrow> string \<Rightarrow> stmt" where
  "inject_tenant_filter s targets tenant = foldl (\<lambda>st i. add_where (i, tenant) st) s targets"

definition before_execute :: "rls_ctx \<Rightarrow> stmt \<Rightarrow> stmt res" where
  "before_execute cx s =
     (if \<not> cx_enforce cx then Inr s
      else if s = OtherStmt then Inr s
      else let targets = find_rls_targets s in
        if targets = [] then Inr s
        else case get_current_tenant (cx_principal cx) of
               None \<Rightarrow> Inl PermissionError
             | Some p \<Rightarrow>
                 if p_is_system p then Inr s
                 else Inr (inject_tenant_filter s targets (p_tenant_id p)))"

fun stmt_where :: "stmt \<Rightarrow> (nat \<times> string) list" where
  "stmt_where (Select _ ws) = ws"
| "stmt_where (Update _ ws) = ws"
| "stmt_where (Delete _ ws) = ws"
| "stmt_where OtherStmt = []"

text \<open>The tenant predicates a joined row has to satisfy.\<close>

definition admits :: "stmt \<Rightarrow> (nat \<Rightarrow> string) \<Rightarrow> bool" where
  "admits s row \<longleftrightarrow> list_all (\<lambda>(i, t). row i = t) (stmt_where s)"

definition rls_rows :: "rls_ctx \<Rightarrow> string \<Rightarrow> ('r \<Rightarrow> string) \<Rightarrow> 'r list \<Rightarrow> 'r list res" where
  "rls_rows cx table tenant_of rs =
     (case before_execute cx (Select [Tbl 0 table True] []) of
        Inl e \<Rightarrow> Inl e
      | Inr s \<Rightarrow> Inr (filter (\<lambda>r. admits s (\<lambda>_. tenant_of r)) rs))"

section \<open>Lemmas\<close>

lemma with_system_context_restores: "snd (with_system_context subject body cv) = cv"
  by (simp add: with_system_context_def system_enter_def system_exit_def set_current_tenant_def
      reset_current_tenant_def split: prod.splits)

lemma with_system_context_body:
  "fst (with_system_context subject body cv) = fst (body (Some (system_principal subject)))"
  by (simp add: with_system_context_def system_enter_def set_current_tenant_def
      split: prod.splits)

lemma require_system_ok [guard_simps]:
  "require_system_context cv = Inr u \<longleftrightarrow> (\<exists>p. cv = Some p \<and> p_is_system p)"
  by (auto simp: require_system_context_def split: option.splits)

lemma require_system_system [simp]:
  "require_system_context (Some (system_principal subject)) = Inr ()"
  by (simp add: require_system_context_def system_principal_def)

lemma set_dedup: "set (dedup_targets seen ls) =
    {i. \<exists>n c. (i, n, c) \<in> set ls \<and> n \<in> set RLS_PROTECTED_TABLES \<and> c} - set seen"
  by (induction seen ls rule: dedup_targets.induct) (auto split: if_splits)

lemma distinct_dedup: "distinct (dedup_targets seen ls)"
  by (induction seen ls rule: dedup_targets.induct) (auto simp: set_dedup)

text \<open>The tables of a statement that the hook protects.\<close>

definition protected_in :: "stmt \<Rightarrow> nat set" where
  "protected_in s = {i. \<exists>n c. (i, n, c) \<in> set (concat (map iter_leaf_tables (stmt_roots s)))
     \<and> n \<in> set RLS_PROTECTED_TABLES \<and> c}"

lemma set_find_rls_targets: "set (find_rls_targets s) = protected_in s"
  by (simp add: find_rls_targets_def protected_in_def set_dedup)

lemma where_inject:
  "s \<noteq> OtherStmt \<Longrightarrow>
     stmt_where (inject_tenant_filter s ts tenant) = stmt_where s @ map (\<lambda>i. (i, tenant)) ts"
proof (induction ts arbitrary: s)
  case Nil
  then show ?case by (simp add: inject_tenant_filter_def)
next
  case (Cons i ts)
  have step: "inject_tenant_filter s (i # ts) tenant
      = inject_tenant_filter (add_where (i, tenant) s) ts tenant"
    by (simp add: inject_tenant_filter_def)
  have "add_where (i, tenant) s \<noteq> OtherStmt" using Cons.prems by (cases s) simp_all
  moreover have "stmt_where (add_where (i, tenant) s) = stmt_where s @ [(i, tenant)]"
    using Cons.prems by (cases s) simp_all
  ultimately show ?case using Cons.IH by (simp add: step)
qed

lemma admits_inject:
  "s \<noteq> OtherStmt \<Longrightarrow>
     admits (inject_tenant_filter s ts tenant) row \<longleftrightarrow> admits s row \<and> (\<forall>i\<in>set ts. row i = tenant)"
  by (simp add: admits_def where_inject list_all_iff ball_Un)

text \<open>What a request bound to \<open>p\<close> may see of a protected table.\<close>

definition sees :: "rls_ctx \<Rightarrow> string \<Rightarrow> bool" where
  "sees cx tenant \<longleftrightarrow>
     \<not> cx_enforce cx \<or>
     (case cx_principal cx of None \<Rightarrow> False | Some p \<Rightarrow> p_is_system p \<or> p_tenant_id p = tenant)"

definition authenticated :: "rls_ctx \<Rightarrow> bool" where
  "authenticated cx \<longleftrightarrow> cx_enforce cx \<longrightarrow> cx_principal cx \<noteq> None"

lemma rls_rows_protected [guard_simps]:
  assumes "table \<in> set RLS_PROTECTED_TABLES"
  shows "rls_rows cx table ten rs =
     (if authenticated cx then Inr (filter (\<lambda>r. sees cx (ten r)) rs) else Inl PermissionError)"
  using assms
  by (auto simp: rls_rows_def before_execute_def find_rls_targets_def stmt_roots_def
      get_current_tenant_def inject_tenant_filter_def admits_def authenticated_def sees_def
      RLS_PROTECTED_TABLES_def split: option.splits intro!: filter_cong)

lemma protected_tables [simp]:
  "''dataset'' \<in> set RLS_PROTECTED_TABLES" "''task'' \<in> set RLS_PROTECTED_TABLES"
  by (simp_all add: RLS_PROTECTED_TABLES_def)

lemmas rls_dataset = rls_rows_protected [OF protected_tables(1)]
lemmas rls_task = rls_rows_protected [OF protected_tables(2)]

section \<open>Concrete contexts\<close>

text \<open>Two requests the witnesses of the development evaluate.\<close>

definition acme :: principal where
  "acme = \<lparr>p_tenant_id = ''acme'', p_subject = ''alice'', p_auth_method = Oidc, p_is_system = False\<rparr>"

definition acme_cx :: rls_ctx where
  "acme_cx = \<lparr>cx_principal = Some acme, cx_enforce = True\<rparr>"

definition system_cx :: rls_ctx where
  "system_cx = \<lparr>cx_principal = Some (system_principal ''worker''), cx_enforce = True\<rparr>"

lemma contexts [simp]:
  "authenticated acme_cx" "authenticated system_cx" "sees system_cx t"
  "cx_principal acme_cx = Some acme" "p_tenant_id acme = ''acme''"
  "sees acme_cx t = (t = ''acme'')"
  by (auto simp: authenticated_def sees_def acme_cx_def acme_def system_cx_def system_principal_def)

section \<open>Properties\<close>



text \<open>Row-level security fails closed.  With enforcement on and no principal bound, a
  statement that touches a protected table anywhere in its joins raises
  \<open>PermissionError\<close>; a system principal's statement is passed on unchanged.\<close>

theorem rls_fails_closed:
  assumes "cx_enforce cx" and "protected_in s \<noteq> {}"
  shows "before_execute cx s =
    (case cx_principal cx of
       None \<Rightarrow> Inl PermissionError
     | Some p \<Rightarrow> if p_is_system p then Inr s
                 else Inr (inject_tenant_filter s (find_rls_targets s) (p_tenant_id p)))"
proof -
  have "find_rls_targets s \<noteq> []" using assms(2) set_find_rls_targets [of s] by auto
  moreover from this have "s \<noteq> OtherStmt" by (auto simp: find_rls_targets_def stmt_roots_def)
  ultimately show ?thesis
    using assms(1) by (auto simp: before_execute_def get_current_tenant_def Let_def split: option.split)
qed

theorem rls_fails_closed_witness:
  "before_execute \<lparr>cx_principal = None, cx_enforce = True\<rparr> (Delete (Some (Tbl 0 ''task'' True)) [])
     = Inl PermissionError"
proof -
  have "0 \<in> protected_in (Delete (Some (Tbl 0 ''task'' True)) [])"
    by (auto simp: protected_in_def stmt_roots_def)
  then have "protected_in (Delete (Some (Tbl 0 ''task'' True)) []) \<noteq> {}" by blast
  from rls_fails_closed [OF _ this, of "\<lparr>cx_principal = None, cx_enforce = True\<rparr>"]
  show ?thesis by simp
qed

text \<open>Leaving \<open>with_system_context\<close> restores the principal that was bound before,
  whatever the body did to the context variable, while the body itself runs as the system
  principal.\<close>

theorem system_context_bracket:
  "with_system_context subject body cv
     = (fst (body (Some (system_principal subject))), cv)"
  by (simp add: prod_eq_iff with_system_context_restores with_system_context_body)

end
