(* ===== verification/Datasets.thy ===== *)
theory Datasets
  imports Tenancy
begin

text \<open>
  The dataset service, \<open>src/lcp/services/dataset_service.py\<close>, with the request
  schema it takes.  Every read goes through \<open>rls_rows\<close>; an operation returns its
  result or exception together with the database that is committed.  The locale
  \<open>guarded_child\<close> is the tenancy contract of the tables that have no
  \<open>tenant_id\<close> of their own (indexes, policies, rules): their \<open>get\<close> resolves the
  parent dataset first.
\<close>

section \<open>Requests\<close>

record dataset_register_request =
  drr_catalog :: string
  drr_schema :: string
  drr_table :: string
  drr_storage_uri :: string
  drr_owner :: "string option"
  drr_description :: "string option"

definition str_between :: "nat \<Rightarrow> nat \<Rightarrow> string \<Rightarrow> bool" where
  "str_between lo hi s \<longleftrightarrow> lo \<le> length s \<and> length s \<le> hi"

definition opt_max :: "nat \<Rightarrow> string option \<Rightarrow> bool" where
  "opt_max hi s = (case s of None \<Rightarrow> True | Some x \<Rightarrow> length x \<le> hi)"

definition valid_dataset_request :: "dataset_register_request \<Rightarrow> bool" where
  "valid_dataset_request q \<longleftrightarrow>
     str_between 1 128 (drr_catalog q) \<and> str_between 1 128 (drr_schema q)
   \<and> str_between 1 128 (drr_table q) \<and> str_between 1 1024 (drr_storage_uri q)
   \<and> opt_max 128 (drr_owner q) \<and> opt_max 1024 (drr_description q)"

section \<open>Operations\<close>

definition create_dataset ::
  "rls_ctx \<Rightarrow> dataset_register_request \<Rightarrow> string \<Rightarrow> datetime \<Rightarrow> db \<Rightarrow> dataset_row res \<times> db" where
  "create_dataset cx q uuid now d =
     (case require_current_tenant (cx_principal cx) of
        Inl e \<Rightarrow> (Inl e, d)
      | Inr p \<Rightarrow>
          let obj = new_dataset uuid (drr_catalog q) (drr_schema q) (drr_table q)
                      (drr_storage_uri q) (p_tenant_id p) (drr_owner q) (drr_description q) now
          in case insert_dataset obj d of
               Inl _ \<Rightarrow> (Inl DatasetAlreadyExistsError, d)
             | Inr d' \<Rightarrow> (Inr obj, d'))"

definition get_dataset :: "rls_ctx \<Rightarrow> string \<Rightarrow> db \<Rightarrow> dataset_row res" where
  "get_dataset cx uuid d =
     (case rls_rows cx ''dataset'' ds_tenant (filter (\<lambda>r. ds_uuid r = uuid) (datasets d)) of
        Inl e \<Rightarrow> Inl e
      | Inr rs \<Rightarrow>
          (case one_or_none rs of
             Inl e \<Rightarrow> Inl e
           | Inr None \<Rightarrow> Inl (DatasetNotFoundError uuid)
           | Inr (Some obj) \<Rightarrow>
               if ds_status obj = DELETED then Inl (DatasetNotFoundError uuid) else Inr obj))"

definition clamp_page :: "int \<Rightarrow> int" where
  "clamp_page page = (if page < 1 then 1 else page)"

definition clamp_page_size :: "int \<Rightarrow> int" where
  "clamp_page_size n =
     (let n1 = (if n < 1 then 20 else n) in if n1 > 200 then 200 else n1)"

definition opt_eq :: "string option \<Rightarrow> string \<Rightarrow> bool" where
  "opt_eq flt v = (case flt of None \<Rightarrow> True | Some x \<Rightarrow> v = x)"

definition apply_dataset_filters ::
  "string option \<Rightarrow> string option \<Rightarrow> dataset_row \<Rightarrow> bool" where
  "apply_dataset_filters catalog schema r \<longleftrightarrow>
     opt_eq catalog (ds_catalog r) \<and> opt_eq schema (ds_schema r)"

text \<open>\<open>ORDER BY created_at DESC OFFSET (page-1)*size LIMIT size\<close>.\<close>

definition newest_first :: "('r \<Rightarrow> datetime) \<Rightarrow> 'r list \<Rightarrow> 'r list" where
  "newest_first created rs = sort_key (\<lambda>r. - dt_us (created r)) rs"

definition list_datasets ::
  "rls_ctx \<Rightarrow> string option \<Rightarrow> string option \<Rightarrow> int \<Rightarrow> int \<Rightarrow> db
     \<Rightarrow> (dataset_row list \<times> nat) res" where
  "list_datasets cx catalog schema page page_size d =
     (let p = clamp_page page; n = clamp_page_size page_size;
          matching = filter (apply_dataset_filters catalog schema) (datasets d)
      in case rls_rows cx ''dataset'' ds_tenant matching of
           Inl e \<Rightarrow> Inl e
         | Inr rs \<Rightarrow> Inr (page_of (nat ((p - 1) * n)) (nat n) (newest_first ds_created_at rs),
                         length rs))"

definition set_dataset_status :: "dataset_status \<Rightarrow> string \<Rightarrow> db \<Rightarrow> db" where
  "set_dataset_status st uuid d =
     d\<lparr>datasets := upd_where (\<lambda>r. ds_uuid r = uuid) (\<lambda>r. r\<lparr>ds_status := st\<rparr>) (datasets d)\<rparr>"

definition delete_dataset :: "rls_ctx \<Rightarrow> string \<Rightarrow> db \<Rightarrow> unit res \<times> db" where
  "delete_dataset cx uuid d =
     (case get_dataset cx uuid d of
        Inl e \<Rightarrow> (Inl e, d)
      | Inr obj \<Rightarrow> (Inr (), set_dataset_status DELETED (ds_uuid obj) d))"

section \<open>Lemmas\<close>

lemma get_dataset_Inr:
  assumes "get_dataset cx uuid d = Inr obj"
  shows "obj \<in> set (datasets d)" and "ds_uuid obj = uuid" and "ds_status obj \<noteq> DELETED"
    and "sees cx (ds_tenant obj)" and "authenticated cx"
proof -
  from assms obtain rs where
      rs: "rls_rows cx ''dataset'' ds_tenant (filter (\<lambda>r. ds_uuid r = uuid) (datasets d)) = Inr rs"
    and one: "one_or_none rs = Inr (Some obj)" and st: "ds_status obj \<noteq> DELETED"
    by (auto simp: get_dataset_def split: sum.splits option.splits if_splits)
  from rs have auth: "authenticated cx"
    and rs': "rs = filter (\<lambda>r. ds_uuid r = uuid \<and> sees cx (ds_tenant r)) (datasets d)"
    by (simp_all add: rls_dataset conj_commute split: if_splits)
  from one_or_none_Some(1,2) [OF one [unfolded rs']] auth st show
    "obj \<in> set (datasets d)" "ds_uuid obj = uuid" "ds_status obj \<noteq> DELETED"
    "sees cx (ds_tenant obj)" "authenticated cx" by auto
qed

lemma get_dataset_iff:
  assumes "wf_db d" and "authenticated cx"
  shows "get_dataset cx uuid d = Inr obj \<longleftrightarrow>
     obj \<in> set (datasets d) \<and> ds_uuid obj = uuid \<and> ds_status obj \<noteq> DELETED
       \<and> sees cx (ds_tenant obj)"
proof
  assume "get_dataset cx uuid d = Inr obj"
  from get_dataset_Inr [OF this] show "obj \<in> set (datasets d) \<and> ds_uuid obj = uuid
      \<and> ds_status obj \<noteq> DELETED \<and> sees cx (ds_tenant obj)" by blast
next
  assume obj: "obj \<in> set (datasets d) \<and> ds_uuid obj = uuid \<and> ds_status obj \<noteq> DELETED
      \<and> sees cx (ds_tenant obj)"
  have "unique_on uk_dataset_uuid (datasets d)" using assms(1) by (simp add: wf_db_def)
  from unique_on_select [OF this, of obj uuid] obj
  have "filter (\<lambda>r. ds_uuid r = uuid) (datasets d) = [obj]" by (simp add: uk_dataset_uuid_def)
  then show "get_dataset cx uuid d = Inr obj"
    using obj assms(2) by (simp add: get_dataset_def rls_dataset)
qed

lemma get_dataset_not_found:
  assumes "wf_db d" and "authenticated cx"
    and "\<And>obj. \<lbrakk>obj \<in> set (datasets d); ds_uuid obj = uuid; sees cx (ds_tenant obj)\<rbrakk>
           \<Longrightarrow> ds_status obj = DELETED"
  shows "get_dataset cx uuid d = Inl (DatasetNotFoundError uuid)"
proof -
  have u: "unique_on uk_dataset_uuid (datasets d)" using assms(1) by (simp add: wf_db_def)
  from unique_on_one_or_none [OF u, of "\<lambda>r. sees cx (ds_tenant r)" uuid]
  obtain x where x: "one_or_none (filter (\<lambda>r. sees cx (ds_tenant r))
      (filter (\<lambda>r. ds_uuid r = uuid) (datasets d))) = Inr x"
    by (auto simp: uk_dataset_uuid_def)
  show ?thesis
  proof (cases x)
    case None
    with x assms(2) show ?thesis by (simp add: get_dataset_def rls_dataset)
  next
    case (Some obj)
    from one_or_none_Some(1,2) [OF x [unfolded Some]] assms(3) have "ds_status obj = DELETED" by auto
    with x Some assms(2) show ?thesis by (simp add: get_dataset_def rls_dataset)
  qed
qed

lemma get_dataset_unauthenticated:
  "\<not> authenticated cx \<Longrightarrow> get_dataset cx uuid d = Inl PermissionError"
  by (simp add: get_dataset_def rls_dataset)

lemma wf_set_dataset_status: "wf_db d \<Longrightarrow> wf_db (set_dataset_status st uuid d)"
  unfolding set_dataset_status_def by (rule wf_upd_datasets) (simp_all add: uk_defs)

lemma wf_create_dataset: "wf_db d \<Longrightarrow> create_dataset cx q uuid now d = (r, d') \<Longrightarrow> wf_db d'"
  by (auto simp: create_dataset_def Let_def dest: wf_insert_dataset split: sum.splits)

lemma wf_delete_dataset: "wf_db d \<Longrightarrow> delete_dataset cx uuid d = (r, d') \<Longrightarrow> wf_db d'"
  by (auto simp: delete_dataset_def wf_set_dataset_status split: sum.splits)

lemma set_newest_first [simp]: "set (newest_first c rs) = set rs"
  by (simp add: newest_first_def)

lemma length_newest_first [simp]: "length (newest_first c rs) = length rs"
  by (simp add: newest_first_def)

lemma clamp_page_size_bounds: "1 \<le> clamp_page_size n" "clamp_page_size n \<le> 200"
  by (simp_all add: clamp_page_size_def Let_def)

lemma clamp_ids: "1 \<le> p \<Longrightarrow> clamp_page p = p" "1 \<le> n \<Longrightarrow> n \<le> 200 \<Longrightarrow> clamp_page_size n = n"
  by (simp_all add: clamp_page_def clamp_page_size_def Let_def)

section \<open>Tables guarded by their parent dataset\<close>

locale guarded_child =
  fixes children :: "db \<Rightarrow> 'c list"
    and key :: "'c \<Rightarrow> (string \<times> string) option"
    and get :: "rls_ctx \<Rightarrow> string \<Rightarrow> string \<Rightarrow> db \<Rightarrow> 'c res"
    and missing :: "string \<Rightarrow> string \<Rightarrow> lcp_error"
  assumes get_guard: "get_dataset cx u d = Inl e \<Longrightarrow> get cx u n d = Inl e"
    and get_child: "get_dataset cx u d = Inr ds \<Longrightarrow> get cx u n d =
      (case one_or_none (filter (\<lambda>c. key c = Some (u, n)) (children d)) of
         Inl e \<Rightarrow> Inl e | Inr None \<Rightarrow> Inl (missing u n) | Inr (Some c) \<Rightarrow> Inr c)"
    and wf_key: "wf_db d \<Longrightarrow> unique_on key (children d)"
begin

lemma get_Inr:
  assumes "get cx u n d = Inr c"
  shows "c \<in> set (children d)" and "key c = Some (u, n)"
    and "\<exists>ds\<in>set (datasets d). ds_uuid ds = u \<and> ds_status ds \<noteq> DELETED \<and> sees cx (ds_tenant ds)"
proof -
  from assms obtain ds where ds: "get_dataset cx u d = Inr ds"
    using get_guard [of cx u d _ n] by (cases "get_dataset cx u d") auto
  with assms have one: "one_or_none (filter (\<lambda>c. key c = Some (u, n)) (children d)) = Inr (Some c)"
    by (simp add: get_child split: sum.splits option.splits)
  from one_or_none_Some(1,2) [OF one] show "c \<in> set (children d)" and "key c = Some (u, n)" by blast+
  from get_dataset_Inr [OF ds]
  show "\<exists>ds\<in>set (datasets d). ds_uuid ds = u \<and> ds_status ds \<noteq> DELETED \<and> sees cx (ds_tenant ds)"
    by blast
qed

lemma get_iff:
  assumes "wf_db d" and "get_dataset cx u d = Inr ds"
  shows "get cx u n d = Inr c \<longleftrightarrow> c \<in> set (children d) \<and> key c = Some (u, n)"
proof
  assume "get cx u n d = Inr c"
  from get_Inr(1,2) [OF this] show "c \<in> set (children d) \<and> key c = Some (u, n)" by blast
next
  assume "c \<in> set (children d) \<and> key c = Some (u, n)"
  with unique_on_select [OF wf_key [OF assms(1)]]
  have "filter (\<lambda>c. key c = Some (u, n)) (children d) = [c]" by blast
  with assms(2) show "get cx u n d = Inr c" by (simp add: get_child)
qed

text \<open>A dataset of another tenant, or one being torn down, hides its children.\<close>

lemma get_hidden:
  assumes "wf_db d" and "authenticated cx"
    and "\<And>obj. \<lbrakk>obj \<in> set (datasets d); ds_uuid obj = u; sees cx (ds_tenant obj)\<rbrakk>
           \<Longrightarrow> ds_status obj = DELETED"
  shows "get cx u n d = Inl (DatasetNotFoundError u)"
  by (rule get_guard [OF get_dataset_not_found [OF assms]])

lemma get_errors:
  assumes "wf_db d" and "authenticated cx" and "get cx u n d = Inl e"
  shows "e = DatasetNotFoundError u \<or> e = missing u n"
proof (cases "get_dataset cx u d")
  case (Inl e')
  then have "e = e'" using get_guard [OF Inl] assms(3) by simp
  moreover have "e' = DatasetNotFoundError u"
    using get_dataset_not_found [OF assms(1,2), of u] get_dataset_iff [OF assms(1,2), of u] Inl
    by (metis Inl_Inr_False sum.inject(1))
  ultimately show ?thesis by simp
next
  case (Inr ds)
  from unique_on_one_or_none [OF wf_key [OF assms(1)], of "\<lambda>_. True" "(u, n)"]
  obtain x where "one_or_none (filter (\<lambda>c. key c = Some (u, n)) (children d)) = Inr x" by auto
  with assms(3) get_child [OF Inr] show ?thesis by (cases x) simp_all
qed

end

section \<open>Properties\<close>

definition t0 :: datetime where
  "t0 = DT 2024 5 6 7 8 9 0"

definition request0 :: dataset_register_request where
  "request0 = \<lparr>drr_catalog = ''c'', drr_schema = ''s'', drr_table = ''t'', drr_storage_uri = ''s3://b'',
     drr_owner = None, drr_description = None\<rparr>"

definition dataset0 :: dataset_row where
  "dataset0 = new_dataset ''u1'' ''c'' ''s'' ''t'' ''s3://b'' ''acme'' None None t0"

definition db0 :: db where
  "db0 = empty_db\<lparr>datasets := [dataset0]\<rparr>"

lemma db0 [simp]: "wf_db db0" "datasets db0 = [dataset0]" "tasks db0 = []" "workers db0 = []"
  "indexes db0 = []" "policies db0 = []" "rules db0 = []"
  "ds_uuid dataset0 = ''u1''" "ds_tenant dataset0 = ''acme''" "ds_status dataset0 = ACTIVE"
  by (simp_all add: db0_def wf_db_def empty_db_def unique_on_Cons clash_iff dataset0_def new_dataset_def)

text \<open>\<open>get_dataset\<close> returns a row exactly when it exists under that UUID, belongs to
  the caller's tenant (or the caller is the system) and is not soft-deleted; in every
  other case an authenticated caller gets \<open>DatasetNotFoundError\<close>, so a foreign dataset
  cannot be told from a missing one.\<close>

theorem get_dataset_exact:
  assumes "wf_db d" and "authenticated cx"
  shows "get_dataset cx uuid d =
    (case find (\<lambda>r. ds_uuid r = uuid \<and> sees cx (ds_tenant r) \<and> ds_status r \<noteq> DELETED) (datasets d) of
       None \<Rightarrow> Inl (DatasetNotFoundError uuid) | Some r \<Rightarrow> Inr r)"
proof (cases "find (\<lambda>r. ds_uuid r = uuid \<and> sees cx (ds_tenant r) \<and> ds_status r \<noteq> DELETED) (datasets d)")
  case None
  then have "ds_status obj = DELETED"
    if "obj \<in> set (datasets d)" "ds_uuid obj = uuid" "sees cx (ds_tenant obj)" for obj
    using that by (auto simp: find_None_iff)
  then show ?thesis using get_dataset_not_found [OF assms] None by simp
next
  case (Some r)
  from find_in [OF Some] have "get_dataset cx uuid d = Inr r" by (simp add: get_dataset_iff [OF assms])
  then show ?thesis using Some by simp
qed

theorem get_dataset_exact_witness:
  "get_dataset acme_cx ''u1'' db0 = Inr dataset0"
  using get_dataset_exact [of db0 acme_cx "''u1''"] by simp



text \<open>A deleted dataset keeps its name.  \<open>delete_dataset\<close> only flips the status, so
  although the dataset is gone for every reader, registering the same catalog, schema and
  table again fails with \<open>DatasetAlreadyExistsError\<close>, for the same tenant and for any
  other one.\<close>

theorem deleted_name_stays_taken:
  assumes "wf_db d" and "get_dataset cx uuid d = Inr obj" and "delete_dataset cx uuid d = (r, d')"
    and "cx_principal cx' = Some p" and "authenticated cx'"
    and "drr_catalog q = ds_catalog obj" and "drr_schema q = ds_schema obj" and "drr_table q = ds_table obj"
  shows "get_dataset cx' uuid d' = Inl (DatasetNotFoundError uuid)
       \<and> create_dataset cx' q uuid' now d' = (Inl DatasetAlreadyExistsError, d')"
proof -
  note obj = get_dataset_Inr [OF assms(2)]
  have d': "d' = set_dataset_status DELETED uuid d"
    using assms(2,3) obj(2) by (simp add: delete_dataset_def)
  have wf: "wf_db d'" unfolding d' by (rule wf_set_dataset_status [OF assms(1)])
  have gone: "ds_status r = DELETED" if "r \<in> set (datasets d')" "ds_uuid r = uuid" for r
  proof -
    have "datasets d' = upd_where (\<lambda>r. ds_uuid r = uuid) (\<lambda>r. r\<lparr>ds_status := DELETED\<rparr>) (datasets d)"
      by (simp add: d' set_dataset_status_def)
    with that(1) obtain r0 where "r = (if ds_uuid r0 = uuid then r0\<lparr>ds_status := DELETED\<rparr> else r0)"
      by (auto simp only: upd_where_in)
    then show ?thesis using that(2) by (cases "ds_uuid r0 = uuid") simp_all
  qed
  have hidden: "get_dataset cx' uuid d' = Inl (DatasetNotFoundError uuid)"
    by (rule get_dataset_not_found [OF wf assms(5)]) (rule gone)
  have "obj\<lparr>ds_status := DELETED\<rparr> \<in> set (datasets d')"
    unfolding d' set_dataset_status_def using obj(1,2)
    by (simp add: upd_where_in) (rule bexI [of _ obj], simp_all)
  then have "\<exists>r\<in>set (datasets d'). uk_catalog_schema_table r = Some (ds_catalog obj, ds_schema obj, ds_table obj)"
    by (rule rev_bexI) (simp add: uk_defs)
  moreover have "uk_catalog_schema_table (new_dataset uuid' (drr_catalog q) (drr_schema q) (drr_table q)
      (drr_storage_uri q) (p_tenant_id p) (drr_owner q) (drr_description q) now)
      = Some (ds_catalog obj, ds_schema obj, ds_table obj)"
    using assms(6-8) by (simp add: uk_defs new_dataset_def)
  ultimately have "clash uk_catalog_schema_table (new_dataset uuid' (drr_catalog q) (drr_schema q) (drr_table q)
      (drr_storage_uri q) (p_tenant_id p) (drr_owner q) (drr_description q) now) (datasets d')"
    by (simp add: clash_iff)
  from ds_name_key.ins_clash [OF this] hidden show ?thesis
    using assms(4) by (simp add: create_dataset_def require_current_tenant_def Let_def)
qed

definition globex_cx :: rls_ctx where
  "globex_cx = \<lparr>cx_principal = Some \<lparr>p_tenant_id = ''globex'', p_subject = ''bob'',
     p_auth_method = Oidc, p_is_system = False\<rparr>, cx_enforce = True\<rparr>"

theorem deleted_name_stays_taken_witness:
  "get_dataset globex_cx ''u1'' (snd (delete_dataset acme_cx ''u1'' db0)) = Inl (DatasetNotFoundError ''u1'')
 \<and> create_dataset globex_cx request0 ''u2'' t0 (snd (delete_dataset acme_cx ''u1'' db0))
     = (Inl DatasetAlreadyExistsError, snd (delete_dataset acme_cx ''u1'' db0))"
proof (rule deleted_name_stays_taken)
  show "get_dataset acme_cx ''u1'' db0 = Inr dataset0" by (simp add: get_dataset_iff)
  show "delete_dataset acme_cx ''u1'' db0
      = (fst (delete_dataset acme_cx ''u1'' db0), snd (delete_dataset acme_cx ''u1'' db0))" by simp
  show "cx_principal globex_cx = Some \<lparr>p_tenant_id = ''globex'', p_subject = ''bob'',
     p_auth_method = Oidc, p_is_system = False\<rparr>" by (simp add: globex_cx_def)
qed (simp_all add: globex_cx_def authenticated_def request0_def dataset0_def new_dataset_def)

text \<open>Paging neither loses nor repeats a dataset.  The first \<open>k\<close> pages of
  \<open>list_datasets\<close>, concatenated, are the first \<open>k * n\<close> rows of the whole answer: the
  caller's visible rows that pass the filters, newest first.  \<open>total\<close> is their number.\<close>

theorem list_datasets_pages:
  assumes "authenticated cx" and "1 \<le> n" and "n \<le> 200"
  shows "concat (map (\<lambda>i. fst (projr (list_datasets cx c s (int i + 1) n d))) [0..<k])
           = take (k * nat n) (newest_first ds_created_at
               (filter (\<lambda>r. apply_dataset_filters c s r \<and> sees cx (ds_tenant r)) (datasets d)))
       \<and> snd (projr (list_datasets cx c s page n d)) =
           length (filter (\<lambda>r. apply_dataset_filters c s r \<and> sees cx (ds_tenant r)) (datasets d))"
proof -
  define visible where
    "visible = filter (\<lambda>r. apply_dataset_filters c s r \<and> sees cx (ds_tenant r)) (datasets d)"
  have vis: "filter (\<lambda>r. sees cx (ds_tenant r)) (filter (apply_dataset_filters c s) (datasets d)) = visible"
    by (simp add: visible_def conj_commute)
  have page: "list_datasets cx c s p n d = Inr (page_of (nat ((clamp_page p - 1) * n)) (nat n)
      (newest_first ds_created_at visible), length visible)" for p
    using assms(1-3) vis by (simp add: list_datasets_def Let_def rls_dataset clamp_ids)
  have "fst (projr (list_datasets cx c s (int i + 1) n d))
      = page_of (i * nat n) (nat n) (newest_first ds_created_at visible)" for i
    by (simp add: page clamp_ids nat_mult_distrib)
  then show ?thesis using concat_pages [of "nat n" _ k] by (simp add: page visible_def [symmetric])
qed

theorem list_datasets_pages_witness:
  "concat (map (\<lambda>i. fst (projr (list_datasets acme_cx None None (int i + 1) 20 db0))) [0..<2])
     = take (2 * nat 20) (newest_first ds_created_at
         (filter (\<lambda>r. apply_dataset_filters None None r \<and> sees acme_cx (ds_tenant r)) (datasets db0)))
   \<and> snd (projr (list_datasets acme_cx None None 1 20 db0)) =
       length (filter (\<lambda>r. apply_dataset_filters None None r \<and> sees acme_cx (ds_tenant r)) (datasets db0))"
  by (rule list_datasets_pages) simp_all

end
