(* ===== verification/Search.thy ===== *)
theory Search
  imports DataPlane Datasets
begin

text \<open>
  The search service, \<open>src/lcp/services/search_service.py\<close>: resolve the dataset through
  row-level security, run the Lance search on its storage, and tell a missing column and a
  dimension mismatch apart from other errors by the text of the \<open>ValueError\<close>.  A
  \<open>ValueErrorText\<close> is a \<open>ValueError\<close> with the text the service reads.
\<close>

section \<open>Operations\<close>

text \<open>\<open>VectorSearchRequest\<close> carries the fields of a query with their limits.\<close>

definition valid_search_request :: "lance_query \<Rightarrow> bool" where
  "valid_search_request q \<longleftrightarrow>
     lq_vector q \<noteq> [] \<and> str_between 1 128 (lq_column q) \<and> 1 \<le> lq_limit q \<and> lq_limit q \<le> 1000
   \<and> opt_max 4096 (lq_where q)
   \<and> (case lq_nprobes q of None \<Rightarrow> True | Some n \<Rightarrow> 1 \<le> n)
   \<and> (case lq_refine_factor q of None \<Rightarrow> True | Some n \<Rightarrow> 1 \<le> n)"

fun search_error :: "lcp_error \<Rightarrow> lcp_error" where
  "search_error (ValueErrorText msg) =
     (if contains msg ''not found in dataset schema'' then ColumnNotFoundError msg
      else if contains (lower msg) ''dimension'' then DimensionMismatchError msg
      else ValueErrorText msg)"
| "search_error e = e"

definition search ::
  "('h, 'w) lance \<Rightarrow> settings \<Rightarrow> rls_ctx \<Rightarrow> string \<Rightarrow> lance_query \<Rightarrow> db \<Rightarrow> ('w, params list) io" where
  "search L cfg cx uuid q d w =
     (case get_dataset cx uuid d of
        Inl e \<Rightarrow> (Inl e, w)
      | Inr ds \<Rightarrow>
          (case vector_search L cfg (ds_storage_uri ds) q (Some (build_storage_options cfg)) w of
             (Inl e, w') \<Rightarrow> (Inl (search_error e), w')
           | (Inr rows, w') \<Rightarrow> (Inr rows, w')))"

section \<open>Lemmas\<close>

lemma column_error:
  "search_error (ValueErrorText (column_message c ns)) = ColumnNotFoundError (column_message c ns)"
proof -
  have "\<exists>a b. column_message c ns = a @ ''not found in dataset schema'' @ b"
    unfolding column_message_def
    by (intro exI [of _ "''Vector column '' @ py_repr c @ '' ''"] exI [of _ "''; available='' @ _"]) simp
  then show ?thesis by (simp add: contains_iff)
qed

lemma search_pure: "snd (search L cfg cx uuid q d w) = w"
  by (auto simp: search_def vector_search_def io_bind_def open_dataset_def Let_def split: sum.splits prod.splits)

lemma search_hidden:
  assumes "get_dataset cx uuid d = Inl e"
  shows "search L cfg cx uuid q d w = (Inl e, w)"
  using assms by (simp add: search_def)

lemma search_visible:
  assumes "get_dataset cx uuid d = Inr ds"
    and "open_dataset L cfg (ds_storage_uri ds) (Some (build_storage_options cfg)) w = (Inr h, w)"
  shows "lq_column q \<in> fst ` set (ln_schema L h) \<Longrightarrow>
      search L cfg cx uuid q d w
        = (case ln_search L h q w of Inl e \<Rightarrow> Inl (search_error e) | Inr rows \<Rightarrow> Inr rows, w)"
    and "lq_column q \<notin> fst ` set (ln_schema L h) \<Longrightarrow>
      \<exists>msg. search L cfg cx uuid q d w = (Inl (ColumnNotFoundError msg), w)"
proof -
  show "search L cfg cx uuid q d w
      = (case ln_search L h q w of Inl e \<Rightarrow> Inl (search_error e) | Inr rows \<Rightarrow> Inr rows, w)"
    if "lq_column q \<in> fst ` set (ln_schema L h)"
    using assms that by (simp add: search_def vector_search_def io_bind_def split: sum.split)
  show "\<exists>msg. search L cfg cx uuid q d w = (Inl (ColumnNotFoundError msg), w)"
    if "lq_column q \<notin> fst ` set (ln_schema L h)"
    using assms that by (simp add: search_def vector_search_def io_bind_def column_error del: search_error.simps)
qed

section \<open>Properties\<close>

text \<open>C27: a search reads the caller's own dataset.  For a live dataset of another tenant the answer is
  "not found" and the storage is not opened; for a visible one the dataset at its storage URI is
  searched with the query as given, a column outside its schema is reported as such, and what
  Lance raises is passed on with the two recognised texts classified.\<close>

theorem search_own_dataset:
  assumes "wf_db d" and "authenticated cx" and "ds \<in> set (datasets d)" and "ds_uuid ds = uuid"
    and "ds_status ds \<noteq> DELETED"
  shows "(\<not> sees cx (ds_tenant ds) \<longrightarrow> search L cfg cx uuid q d w = (Inl (DatasetNotFoundError uuid), w))
    \<and> (\<forall>h. sees cx (ds_tenant ds)
          \<and> open_dataset L cfg (ds_storage_uri ds) (Some (build_storage_options cfg)) w = (Inr h, w) \<longrightarrow>
        (if lq_column q \<in> fst ` set (ln_schema L h)
         then search L cfg cx uuid q d w
           = (case ln_search L h q w of Inl e \<Rightarrow> Inl (search_error e) | Inr rows \<Rightarrow> Inr rows, w)
         else \<exists>msg. search L cfg cx uuid q d w = (Inl (ColumnNotFoundError msg), w)))"
proof (intro conjI impI allI)
  assume hidden: "\<not> sees cx (ds_tenant ds)"
  have "unique_on uk_dataset_uuid (datasets d)" using assms(1) by (simp add: wf_db_def)
  from unique_on_eqI [OF this assms(3)] have "obj = ds" if "obj \<in> set (datasets d)" "ds_uuid obj = uuid" for obj
    using that assms(4) by (auto simp: uk_dataset_uuid_def)
  then have "get_dataset cx uuid d = Inl (DatasetNotFoundError uuid)"
    using hidden by (intro get_dataset_not_found [OF assms(1,2)]) blast
  then show "search L cfg cx uuid q d w = (Inl (DatasetNotFoundError uuid), w)" by (rule search_hidden)
next
  fix h
  assume h: "sees cx (ds_tenant ds)
    \<and> open_dataset L cfg (ds_storage_uri ds) (Some (build_storage_options cfg)) w = (Inr h, w)"
  then have "get_dataset cx uuid d = Inr ds" using get_dataset_iff [OF assms(1,2)] assms(3-5) by blast
  from search_visible [OF this conjunct2 [OF h]]
  show "if lq_column q \<in> fst ` set (ln_schema L h)
     then search L cfg cx uuid q d w
       = (case ln_search L h q w of Inl e \<Rightarrow> Inl (search_error e) | Inr rows \<Rightarrow> Inr rows, w)
     else \<exists>msg. search L cfg cx uuid q d w = (Inl (ColumnNotFoundError msg), w)" by simp
qed

lemma globex_cx [simp]: "authenticated globex_cx" "sees globex_cx t = (t = ''globex'')"
  by (auto simp: globex_cx_def authenticated_def sees_def)

definition vec_lance :: "(unit, unit) lance" where
  "vec_lance = lance0\<lparr>ln_schema := (\<lambda>_. [(''vec'', ''fixed_size_list'')]),
                       ln_search := (\<lambda>_ _ _. Inr [[(''id'', JInt 1)]])\<rparr>"

definition query0 :: "string \<Rightarrow> lance_query" where
  "query0 c = \<lparr>lq_vector = [1], lq_column = c, lq_limit = 10, lq_where = None, lq_select = None,
               lq_nprobes = None, lq_refine_factor = None\<rparr>"

theorem search_own_dataset_witness:
  "search vec_lance default_settings acme_cx ''u1'' (query0 ''vec'') db0 () = (Inr [[(''id'', JInt 1)]], ())
 \<and> (\<exists>msg. search vec_lance default_settings acme_cx ''u1'' (query0 ''v'') db0 () = (Inl (ColumnNotFoundError msg), ()))
 \<and> search vec_lance default_settings globex_cx ''u1'' (query0 ''vec'') db0 () = (Inl (DatasetNotFoundError ''u1''), ())"
proof -
  have ds: "dataset0 \<in> set (datasets db0)" "ds_uuid dataset0 = ''u1''" "ds_status dataset0 \<noteq> DELETED" by simp_all
  have h: "open_dataset vec_lance default_settings (ds_storage_uri dataset0)
      (Some (build_storage_options default_settings)) () = (Inr (), ())"
    by (simp add: open_dataset_def vec_lance_def lance0_def)
  note own = search_own_dataset [OF db0(1) _ ds, of acme_cx vec_lance default_settings _ "()"]
  show ?thesis
    using own [of "query0 ''vec''"] own [of "query0 ''v''"] h
      search_own_dataset [OF db0(1) _ ds, of globex_cx vec_lance default_settings "query0 ''vec''" "()"]
    by (simp add: vec_lance_def lance0_def query0_def)
qed

end
