(* ===== verification/Tasks.thy ===== *)
theory Tasks
  imports Datasets
begin

text \<open>
  The task service, \<open>src/lcp/services/task_service.py\<close>: submission with a tenant
  scoped idempotency key, lookup, paged listing, cancel and retry.  The parameter
  \<open>other\<close> of \<open>submit_task\<close> is what other transactions commit between its SELECT
  and its INSERT (the identity when nothing interferes); the branch taken on
  \<open>IntegrityError\<close> is about that race.  The second half is the abstract task
  machine: the allowed status edges, the row invariant \<open>wf_task\<close> and the relation
  \<open>tasks_evolve\<close> that every operation of the system is shown to refine.
\<close>

section \<open>Operations\<close>

record submit_args =
  sa_type :: task_type
  sa_dataset :: string
  sa_priority :: int
  sa_params :: "params option"
  sa_key :: "string option"
  sa_max_attempts :: int

text \<open>\<open>TaskSubmitRequest\<close> carries the same fields with their limits.\<close>

definition valid_submit_request :: "submit_args \<Rightarrow> bool" where
  "valid_submit_request q \<longleftrightarrow>
     str_between 1 64 (sa_dataset q) \<and> 0 \<le> sa_priority q \<and> sa_priority q \<le> 9
   \<and> opt_max 128 (sa_key q) \<and> 1 \<le> sa_max_attempts q \<and> sa_max_attempts q \<le> 20"

definition TERMINAL_STATES :: "task_status list" where
  "TERMINAL_STATES = [SUCCEEDED, CANCELLED]"

definition CANCELLABLE_STATES :: "task_status list" where
  "CANCELLABLE_STATES = [PENDING, QUEUED, RUNNING]"

definition scoped_key :: "string \<Rightarrow> string option \<Rightarrow> string option" where
  "scoped_key tenant key = map_option (\<lambda>k. tenant @ '':'' @ k) key"

definition select_by_key :: "rls_ctx \<Rightarrow> string \<Rightarrow> db \<Rightarrow> task_row option res" where
  "select_by_key cx key d =
     (case rls_rows cx ''task'' tk_tenant (filter (\<lambda>t. tk_key t = Some key) (tasks d)) of
        Inl e \<Rightarrow> Inl e | Inr rs \<Rightarrow> one_or_none rs)"

definition submit_task ::
  "rls_ctx \<Rightarrow> submit_args \<Rightarrow> string \<Rightarrow> datetime \<Rightarrow> (db \<Rightarrow> db) \<Rightarrow> db
     \<Rightarrow> (task_row \<times> bool) res \<times> db" where
  "submit_task cx q uuid now other d =
     (case require_current_tenant (cx_principal cx) of
        Inl e \<Rightarrow> (Inl e, d)
      | Inr p \<Rightarrow>
          let key = scoped_key (p_tenant_id p) (sa_key q);
              obj = new_task uuid (sa_type q) (sa_dataset q) (p_tenant_id p) (sa_priority q)
                      (sa_params q) key (sa_max_attempts q) now
          in case (case key of None \<Rightarrow> Inr None | Some k \<Rightarrow> select_by_key cx k d) of
               Inl e \<Rightarrow> (Inl e, d)
             | Inr (Some existing) \<Rightarrow> (Inr (existing, False), d)
             | Inr None \<Rightarrow>
                 let d1 = other d in
                 case insert_task obj d1 of
                   Inr d2 \<Rightarrow> (Inr (obj, True), d2)
                 | Inl e \<Rightarrow>
                     (case key of
                        None \<Rightarrow> (Inl e, d1)
                      | Some k \<Rightarrow>
                          (case select_by_key cx k d1 of
                             Inl e' \<Rightarrow> (Inl e', d1)
                           | Inr (Some winner) \<Rightarrow> (Inr (winner, False), d1)
                           | Inr None \<Rightarrow> (Inl e, d1))))"

definition get_task :: "rls_ctx \<Rightarrow> string \<Rightarrow> db \<Rightarrow> task_row res" where
  "get_task cx uuid d =
     (case rls_rows cx ''task'' tk_tenant (filter (\<lambda>t. tk_uuid t = uuid) (tasks d)) of
        Inl e \<Rightarrow> Inl e
      | Inr rs \<Rightarrow>
          (case one_or_none rs of
             Inl e \<Rightarrow> Inl e
           | Inr None \<Rightarrow> Inl (TaskNotFoundError uuid)
           | Inr (Some obj) \<Rightarrow> Inr obj))"

definition apply_task_filters ::
  "string option \<Rightarrow> string option \<Rightarrow> string option \<Rightarrow> task_row \<Rightarrow> bool" where
  "apply_task_filters dataset typ status t \<longleftrightarrow>
     opt_eq dataset (tk_dataset t) \<and> opt_eq typ (task_type_str (tk_type t))
   \<and> opt_eq status (task_status_str (tk_status t))"

definition list_tasks ::
  "rls_ctx \<Rightarrow> string option \<Rightarrow> string option \<Rightarrow> string option \<Rightarrow> int \<Rightarrow> int \<Rightarrow> db
     \<Rightarrow> (task_row list \<times> nat) res" where
  "list_tasks cx dataset typ status page page_size d =
     (let p = clamp_page page; n = clamp_page_size page_size;
          matching = filter (apply_task_filters dataset typ status) (tasks d)
      in case rls_rows cx ''task'' tk_tenant matching of
           Inl e \<Rightarrow> Inl e
         | Inr rs \<Rightarrow> Inr (page_of (nat ((p - 1) * n)) (nat n) (newest_first tk_created_at rs),
                         length rs))"

text \<open>Mutating a loaded ORM object updates the row with its primary key.\<close>

definition upd_task :: "string \<Rightarrow> (task_row \<Rightarrow> task_row) \<Rightarrow> db \<Rightarrow> db" where
  "upd_task uuid f d = d\<lparr>tasks := upd_where (\<lambda>t. tk_uuid t = uuid) f (tasks d)\<rparr>"

definition upd_worker :: "string \<Rightarrow> (worker_row \<Rightarrow> worker_row) \<Rightarrow> db \<Rightarrow> db" where
  "upd_worker wid f d = d\<lparr>workers := upd_where (\<lambda>w. wk_id w = wid) f (workers d)\<rparr>"

text \<open>\<open>scheduler_service._decrement_in_flight\<close>, which \<open>cancel_task\<close> imports locally.\<close>

definition decrement_in_flight :: "string \<Rightarrow> db \<Rightarrow> db" where
  "decrement_in_flight wid d =
     upd_worker wid
       (\<lambda>w. w\<lparr>wk_in_flight := (if wk_in_flight w > 0 then wk_in_flight w - 1 else 0)\<rparr>) d"

definition truthy :: "string option \<Rightarrow> bool" where
  "truthy s = (case s of None \<Rightarrow> False | Some x \<Rightarrow> x \<noteq> [])"

definition set_cancelled :: "datetime \<Rightarrow> task_row \<Rightarrow> task_row" where
  "set_cancelled now t = t\<lparr>tk_status := CANCELLED, tk_finished_at := Some now\<rparr>"

definition cancel_task :: "rls_ctx \<Rightarrow> string \<Rightarrow> datetime \<Rightarrow> db \<Rightarrow> task_row res \<times> db" where
  "cancel_task cx uuid now d =
     (case get_task cx uuid d of
        Inl e \<Rightarrow> (Inl e, d)
      | Inr obj \<Rightarrow>
          if tk_status obj = CANCELLED then (Inr obj, d)
          else if \<not> List.member CANCELLABLE_STATES (tk_status obj)
          then (Inl (TaskTransitionError uuid), d)
          else
            let d1 = (if tk_status obj = RUNNING \<and> truthy (tk_worker obj)
                      then decrement_in_flight (the (tk_worker obj)) d else d)
            in (Inr (set_cancelled now obj), upd_task uuid (set_cancelled now) d1))"

definition set_retried :: "task_row \<Rightarrow> task_row" where
  "set_retried t =
     t\<lparr>tk_status := PENDING, tk_attempt := tk_attempt t + 1, tk_error_code := None,
       tk_error_message := None, tk_started_at := None, tk_finished_at := None\<rparr>"

definition retry_task :: "rls_ctx \<Rightarrow> string \<Rightarrow> db \<Rightarrow> task_row res \<times> db" where
  "retry_task cx uuid d =
     (case get_task cx uuid d of
        Inl e \<Rightarrow> (Inl e, d)
      | Inr obj \<Rightarrow>
          if tk_status obj \<noteq> FAILED then (Inl (TaskTransitionError uuid), d)
          else if tk_attempt obj \<ge> tk_max_attempts obj then (Inl (TaskTransitionError uuid), d)
          else (Inr (set_retried obj), upd_task uuid set_retried d))"

section \<open>The abstract task machine\<close>

inductive task_edge :: "task_status \<Rightarrow> task_status \<Rightarrow> bool" where
  claim_pending: "task_edge PENDING RUNNING"
| claim_queued: "task_edge QUEUED RUNNING"
| complete: "task_edge RUNNING SUCCEEDED"
| fail: "task_edge RUNNING FAILED"
| requeue: "task_edge RUNNING PENDING"
| retry: "task_edge FAILED PENDING"
| cancel_pending: "task_edge PENDING CANCELLED"
| cancel_queued: "task_edge QUEUED CANCELLED"
| cancel_running: "task_edge RUNNING CANCELLED"

code_pred task_edge .

inductive_simps task_edge_from [simp]:
  "task_edge PENDING s" "task_edge QUEUED s" "task_edge RUNNING s"
  "task_edge SUCCEEDED s" "task_edge FAILED s" "task_edge CANCELLED s"

text \<open>What no operation may change of a task, and how its status may move.\<close>

definition same_identity :: "task_row \<Rightarrow> task_row \<Rightarrow> bool" where
  "same_identity t t' \<longleftrightarrow>
     tk_uuid t' = tk_uuid t \<and> tk_type t' = tk_type t \<and> tk_dataset t' = tk_dataset t
   \<and> tk_tenant t' = tk_tenant t \<and> tk_key t' = tk_key t \<and> tk_params t' = tk_params t
   \<and> tk_priority t' = tk_priority t \<and> tk_max_attempts t' = tk_max_attempts t
   \<and> tk_created_at t' = tk_created_at t"

definition task_step :: "task_row \<Rightarrow> task_row \<Rightarrow> bool" where
  "task_step t t' \<longleftrightarrow> same_identity t t' \<and> tk_attempt t \<le> tk_attempt t'
     \<and> (t' = t \<or> task_edge (tk_status t) (tk_status t')
           \<and> (tk_status t' = RUNNING \<longrightarrow> tk_attempt t < tk_max_attempts t))"

definition fresh_task :: "task_row \<Rightarrow> bool" where
  "fresh_task t \<longleftrightarrow> tk_status t = PENDING \<and> tk_attempt t = 0 \<and> tk_worker t = None
     \<and> tk_started_at t = None \<and> tk_finished_at t = None \<and> tk_error_code t = None"

definition tasks_evolve :: "db \<Rightarrow> db \<Rightarrow> bool" where
  "tasks_evolve d d' \<longleftrightarrow>
     (\<exists>us news. tasks d' = us @ news \<and> list_all2 task_step (tasks d) us
        \<and> (\<forall>t\<in>set news. fresh_task t))"

definition wf_task :: "task_row \<Rightarrow> bool" where
  "wf_task t \<longleftrightarrow>
     0 \<le> tk_attempt t \<and> tk_attempt t \<le> max 0 (tk_max_attempts t)
   \<and> (case tk_status t of
        PENDING \<Rightarrow> tk_finished_at t = None \<and> tk_started_at t = None \<and> tk_error_code t = None
      | QUEUED \<Rightarrow> tk_finished_at t = None \<and> tk_error_code t = None
      | RUNNING \<Rightarrow> tk_finished_at t = None \<and> tk_started_at t \<noteq> None \<and> tk_worker t \<noteq> None
                   \<and> 1 \<le> tk_attempt t \<and> tk_error_code t = None
      | SUCCEEDED \<Rightarrow> tk_finished_at t \<noteq> None \<and> tk_error_code t = None
      | FAILED \<Rightarrow> tk_finished_at t \<noteq> None \<and> tk_error_code t \<noteq> None
      | CANCELLED \<Rightarrow> tk_finished_at t \<noteq> None)"

definition wf_tasks :: "db \<Rightarrow> bool" where
  "wf_tasks d \<longleftrightarrow> (\<forall>t\<in>set (tasks d). wf_task t)"

section \<open>Lemmas\<close>

lemma task_step_refl [simp]: "task_step t t"
  by (simp add: task_step_def same_identity_def)

lemma tasks_evolve_refl [simp]: "tasks_evolve d d"
  unfolding tasks_evolve_def by (rule exI [of _ "tasks d"]) (simp add: list_all2_same)

lemma tasks_evolve_same: "tasks d' = tasks d \<Longrightarrow> tasks_evolve d d'"
  unfolding tasks_evolve_def by (rule exI [of _ "tasks d"]) (simp add: list_all2_same)

lemma tasks_evolve_insert:
  assumes "insert_task r d = Inr d'" and "fresh_task r"
  shows "tasks_evolve d d'"
proof -
  have "tasks d' = tasks d @ [r]" using assms(1) by (auto simp: insert_task_def split: if_splits)
  then show ?thesis
    unfolding tasks_evolve_def using assms(2)
    by (intro exI [of _ "tasks d"] exI [of _ "[r]"]) (simp add: list_all2_same)
qed

lemma list_all2_upd:
  "(\<And>t. t \<in> set ts \<Longrightarrow> P t \<Longrightarrow> task_step t (f t)) \<Longrightarrow> list_all2 task_step ts (upd_where P f ts)"
  by (induction ts) auto

lemma tasks_evolve_upd:
  assumes "tasks d' = upd_where P f (tasks d)"
    and "\<And>t. t \<in> set (tasks d) \<Longrightarrow> P t \<Longrightarrow> task_step t (f t)"
  shows "tasks_evolve d d'"
  unfolding tasks_evolve_def
  using list_all2_upd [OF assms(2)] assms(1)
  by (intro exI [of _ "tasks d'"] exI [of _ "[]"]) simp

lemma fresh_new_task [simp]: "fresh_task (new_task u ty ds te pr pa k m now)"
  by (simp add: fresh_task_def new_task_def)

lemma wf_fresh: "fresh_task t \<Longrightarrow> wf_task t"
  by (simp add: fresh_task_def wf_task_def)

lemma wf_tasks_insert:
  "wf_tasks d \<Longrightarrow> insert_task r d = Inr d' \<Longrightarrow> fresh_task r \<Longrightarrow> wf_tasks d'"
  by (auto simp: wf_tasks_def insert_task_def wf_fresh split: if_splits)

lemma wf_tasks_upd:
  assumes "wf_tasks d" and "tasks d' = upd_where P f (tasks d)"
    and "\<And>t. t \<in> set (tasks d) \<Longrightarrow> P t \<Longrightarrow> wf_task (f t)"
  shows "wf_tasks d'"
  using assms by (auto simp: wf_tasks_def upd_where_in)

lemma tasks_decrement [simp]:
  "tasks (decrement_in_flight w d) = tasks d" "datasets (decrement_in_flight w d) = datasets d"
  by (simp_all add: decrement_in_flight_def upd_worker_def)

lemma wf_decrement: "wf_db d \<Longrightarrow> wf_db (decrement_in_flight w d)"
  unfolding decrement_in_flight_def upd_worker_def
  by (rule wf_upd_workers) (simp_all add: uk_defs)

lemma upd_task_sel [simp]:
  "tasks (upd_task u f d) = upd_where (\<lambda>t. tk_uuid t = u) f (tasks d)"
  "workers (upd_task u f d) = workers d" "datasets (upd_task u f d) = datasets d"
  "indexes (upd_task u f d) = indexes d"
  by (simp_all add: upd_task_def)

lemma upd_worker_sel [simp]:
  "tasks (upd_worker u f d) = tasks d" "datasets (upd_worker u f d) = datasets d"
  "workers (upd_worker u g d) = upd_where (\<lambda>w. wk_id w = u) g (workers d)"
  by (simp_all add: upd_worker_def)

lemma wf_upd_task:
  assumes "wf_db d" and "\<And>t. tk_uuid (f t) = tk_uuid t \<and> tk_key (f t) = tk_key t"
  shows "wf_db (upd_task u f d)"
  unfolding upd_task_def using assms by (intro wf_upd_tasks) (simp_all add: uk_defs)

lemma get_task_Inr:
  assumes "get_task cx uuid d = Inr t"
  shows "t \<in> set (tasks d)" and "tk_uuid t = uuid" and "sees cx (tk_tenant t)"
proof -
  from assms obtain rs where
      rs: "rls_rows cx ''task'' tk_tenant (filter (\<lambda>t. tk_uuid t = uuid) (tasks d)) = Inr rs"
    and one: "one_or_none rs = Inr (Some t)"
    by (auto simp: get_task_def split: sum.splits option.splits)
  from rs have "rs = filter (\<lambda>t. tk_uuid t = uuid \<and> sees cx (tk_tenant t)) (tasks d)"
    by (simp add: rls_task conj_commute split: if_splits)
  from one_or_none_Some(1,2) [OF one [unfolded this]] show
    "t \<in> set (tasks d)" "tk_uuid t = uuid" "sees cx (tk_tenant t)" by auto
qed

lemma task_by_uuid:
  "wf_db d \<Longrightarrow> s \<in> set (tasks d) \<Longrightarrow> t \<in> set (tasks d) \<Longrightarrow> tk_uuid s = tk_uuid t \<Longrightarrow> s = t"
  using unique_on_eqI [of uk_task_uuid "tasks d" s t "tk_uuid t"]
  by (simp add: wf_db_def uk_task_uuid_def)

text \<open>Updating one loaded row: the shape of every transition of a single task.\<close>

lemma one_task_evolves:
  assumes "wf_db d" and "t \<in> set (tasks d)" and "tk_uuid t = uuid" and "task_step t (f t)"
    and "tasks d' = upd_where (\<lambda>t. tk_uuid t = uuid) f (tasks d)"
  shows "tasks_evolve d d'"
  using task_by_uuid [OF assms(1) _ assms(2)] assms(3,4)
  by (intro tasks_evolve_upd [OF assms(5)]) metis

lemma one_task_wf:
  assumes "wf_db d" and "wf_tasks d" and "t \<in> set (tasks d)" and "tk_uuid t = uuid"
    and "wf_task (f t)" and "tasks d' = upd_where (\<lambda>t. tk_uuid t = uuid) f (tasks d)"
  shows "wf_tasks d'"
  using task_by_uuid [OF assms(1) _ assms(3)] assms(4,5)
  by (intro wf_tasks_upd [OF assms(2,6)]) metis

lemma one_task_filter:
  assumes "wf_db d" and "t \<in> set (tasks d)" and "tk_uuid t = uuid"
  shows "filter (\<lambda>t. tk_uuid t = uuid) (tasks d) = [t]"
proof -
  have "unique_on uk_task_uuid (tasks d)" using assms(1) by (simp add: wf_db_def)
  from unique_on_select [OF this assms(2), of uuid] assms(3)
  show ?thesis by (simp add: uk_task_uuid_def)
qed

lemma get_task_iff:
  assumes "wf_db d" and "authenticated cx"
  shows "get_task cx uuid d = Inr t \<longleftrightarrow>
     t \<in> set (tasks d) \<and> tk_uuid t = uuid \<and> sees cx (tk_tenant t)"
proof
  assume "get_task cx uuid d = Inr t"
  from get_task_Inr [OF this]
  show "t \<in> set (tasks d) \<and> tk_uuid t = uuid \<and> sees cx (tk_tenant t)" by blast
next
  assume t: "t \<in> set (tasks d) \<and> tk_uuid t = uuid \<and> sees cx (tk_tenant t)"
  have "unique_on uk_task_uuid (tasks d)" using assms(1) by (simp add: wf_db_def)
  from unique_on_select [OF this, of t uuid] t
  have "filter (\<lambda>r. tk_uuid r = uuid) (tasks d) = [t]" by (simp add: uk_task_uuid_def)
  then show "get_task cx uuid d = Inr t"
    using t assms(2) by (simp add: get_task_def rls_task)
qed

lemma select_by_key_Some:
  assumes "select_by_key cx k d = Inr (Some t)"
  shows "t \<in> set (tasks d)" and "tk_key t = Some k" and "sees cx (tk_tenant t)"
proof -
  from assms have one: "one_or_none (filter (\<lambda>t. tk_key t = Some k \<and> sees cx (tk_tenant t)) (tasks d))
      = Inr (Some t)"
    by (simp add: select_by_key_def rls_task conj_commute split: if_splits)
  from one_or_none_Some(1,2) [OF one]
  show "t \<in> set (tasks d)" "tk_key t = Some k" "sees cx (tk_tenant t)" by auto
qed

lemma select_by_key_total:
  assumes "wf_db d" and "authenticated cx"
  shows "\<exists>x. select_by_key cx k d = Inr x"
proof -
  have "unique_on uk_idempotency_key (tasks d)" using assms(1) by (simp add: wf_db_def)
  from unique_on_one_or_none [OF this, of "\<lambda>t. sees cx (tk_tenant t)" k] assms(2)
  show ?thesis by (simp add: select_by_key_def rls_task uk_idempotency_key_def)
qed

lemma select_by_key_hit:
  assumes "wf_db d" and "authenticated cx" and "t \<in> set (tasks d)"
    and "tk_key t = Some k" and "sees cx (tk_tenant t)"
  shows "select_by_key cx k d = Inr (Some t)"
proof -
  have "unique_on uk_idempotency_key (tasks d)" using assms(1) by (simp add: wf_db_def)
  from unique_on_select [OF this, of t k] assms
  show ?thesis by (simp add: select_by_key_def rls_task uk_idempotency_key_def)
qed

subsection \<open>The operations refine the machine and keep the invariants\<close>

lemma submit_task_cases:
  assumes "submit_task cx q uuid now other d = (r, d')"
  shows "d' = d \<or> d' = other d \<or> (\<exists>t. fresh_task t \<and> insert_task t (other d) = Inr d')"
  using assms
  by (auto simp: submit_task_def Let_def split: sum.splits option.splits
      intro: exI [of _ "new_task _ _ _ _ _ _ _ _ _"])

lemma wf_submit_task:
  assumes "wf_db d" and "wf_db (other d)" and "submit_task cx q uuid now other d = (r, d')"
  shows "wf_db d'"
  using submit_task_cases [OF assms(3)] assms(1,2) by (auto intro: wf_insert_task)

lemma task_step_cancel:
  "tk_status t \<in> set CANCELLABLE_STATES \<Longrightarrow> task_step t (set_cancelled now t)"
  by (auto simp: CANCELLABLE_STATES_def task_step_def same_identity_def set_cancelled_def)

lemma task_step_retry: "tk_status t = FAILED \<Longrightarrow> task_step t (set_retried t)"
  by (simp add: task_step_def same_identity_def set_retried_def)

lemma cancel_task_cases:
  assumes "cancel_task cx uuid now d = (r, d')"
  shows "d' = d \<or> (\<exists>obj d1. get_task cx uuid d = Inr obj \<and> tk_status obj \<in> set CANCELLABLE_STATES
      \<and> (d1 = d \<or> d1 = decrement_in_flight (the (tk_worker obj)) d)
      \<and> d' = upd_task uuid (set_cancelled now) d1)"
  using assms by (auto simp: cancel_task_def Let_def split: sum.splits if_splits)

lemma retry_task_cases:
  assumes "retry_task cx uuid d = (r, d')"
  shows "d' = d \<or> (\<exists>obj. get_task cx uuid d = Inr obj \<and> tk_status obj = FAILED
      \<and> tk_attempt obj < tk_max_attempts obj \<and> d' = upd_task uuid set_retried d)"
  using assms by (auto simp: retry_task_def split: sum.splits if_splits)

lemma wf_cancel_task:
  assumes "wf_db d" and "cancel_task cx uuid now d = (r, d')"
  shows "wf_db d'"
  using cancel_task_cases [OF assms(2)] assms(1)
  by (auto intro!: wf_upd_task wf_decrement simp: set_cancelled_def)

lemma wf_retry_task:
  assumes "wf_db d" and "retry_task cx uuid d = (r, d')"
  shows "wf_db d'"
  using retry_task_cases [OF assms(2)] assms(1)
  by (auto intro!: wf_upd_task simp: set_retried_def)

lemma cancel_task_evolves:
  assumes "wf_db d" and "cancel_task cx uuid now d = (r, d')"
  shows "tasks_evolve d d'"
proof -
  from cancel_task_cases [OF assms(2)] consider "d' = d"
    | obj where "get_task cx uuid d = Inr obj" "tk_status obj \<in> set CANCELLABLE_STATES"
        "tasks d' = upd_where (\<lambda>t. tk_uuid t = uuid) (set_cancelled now) (tasks d)"
    by auto
  then show ?thesis
  proof cases
    case 1
    then show ?thesis by simp
  next
    case (2 obj)
    show ?thesis
      by (rule one_task_evolves [OF assms(1) get_task_Inr(1,2) [OF 2(1)] _ 2(3)])
        (rule task_step_cancel [OF 2(2)])
  qed
qed

lemma retry_task_evolves:
  assumes "wf_db d" and "retry_task cx uuid d = (r, d')"
  shows "tasks_evolve d d'"
proof -
  from retry_task_cases [OF assms(2)] consider "d' = d"
    | obj where "get_task cx uuid d = Inr obj" "tk_status obj = FAILED"
        "tasks d' = upd_where (\<lambda>t. tk_uuid t = uuid) set_retried (tasks d)"
    by auto
  then show ?thesis
  proof cases
    case (2 obj)
    show ?thesis
      by (rule one_task_evolves [OF assms(1) get_task_Inr(1,2) [OF 2(1)] _ 2(3)])
        (rule task_step_retry [OF 2(2)])
  qed simp
qed

lemma wf_task_cancel: "wf_task t \<Longrightarrow> wf_task (set_cancelled now t)"
  by (auto simp: wf_task_def set_cancelled_def)

lemma wf_task_retry:
  "wf_task t \<Longrightarrow> tk_attempt t < tk_max_attempts t \<Longrightarrow> wf_task (set_retried t)"
  by (auto simp: wf_task_def set_retried_def)

lemma wf_tasks_cancel:
  assumes "wf_tasks d" and "cancel_task cx uuid now d = (r, d')"
  shows "wf_tasks d'"
proof -
  from cancel_task_cases [OF assms(2)] consider "d' = d"
    | "tasks d' = upd_where (\<lambda>t. tk_uuid t = uuid) (set_cancelled now) (tasks d)"
    by auto
  then show ?thesis
  proof cases
    case 1
    then show ?thesis using assms(1) by simp
  next
    case 2
    show ?thesis
      using assms(1) by (intro wf_tasks_upd [OF assms(1) 2]) (simp add: wf_tasks_def wf_task_cancel)
  qed
qed

lemma wf_tasks_retry:
  assumes "wf_db d" and "wf_tasks d" and "retry_task cx uuid d = (r, d')"
  shows "wf_tasks d'"
proof -
  from retry_task_cases [OF assms(3)] consider "d' = d"
    | obj where "get_task cx uuid d = Inr obj" "tk_attempt obj < tk_max_attempts obj"
        "tasks d' = upd_where (\<lambda>t. tk_uuid t = uuid) set_retried (tasks d)"
    by auto
  then show ?thesis
  proof cases
    case (2 obj)
    have "wf_task (set_retried obj)"
      using assms(2) get_task_Inr(1) [OF 2(1)] 2(2) by (simp add: wf_tasks_def wf_task_retry)
    from one_task_wf [where f = set_retried, OF assms(1,2) get_task_Inr(1,2) [OF 2(1)] this 2(3)]
    show ?thesis .
  qed (simp add: assms(2))
qed

subsection \<open>Steps that keep the database well formed\<close>

text \<open>The database a service leaves behind, whatever it returned.\<close>

definition keeps_db :: "(db \<Rightarrow> db) \<Rightarrow> bool" where
  "keeps_db other \<longleftrightarrow> (\<forall>d. wf_db d \<and> wf_tasks d \<longrightarrow>
     wf_db (other d) \<and> wf_tasks (other d) \<and> tasks_evolve\<^sup>*\<^sup>* d (other d))"

lemma keeps_db_id [simp]: "keeps_db (\<lambda>d. d)"
  by (simp add: keeps_db_def)

definition good_step :: "db \<Rightarrow> db \<Rightarrow> bool" where
  "good_step d d' \<longleftrightarrow> (wf_db d \<and> wf_tasks d \<longrightarrow> wf_db d' \<and> wf_tasks d' \<and> tasks_evolve\<^sup>*\<^sup>* d d')"

lemma good_step_refl [simp]: "good_step d d"
  by (simp add: good_step_def)

lemma good_step_trans: "good_step a b \<Longrightarrow> good_step b c \<Longrightarrow> good_step a c"
  by (auto simp: good_step_def)

lemma good_step_other: "keeps_db other \<Longrightarrow> good_step d (other d)"
  by (simp add: good_step_def keeps_db_def)

lemma good_step_same_tasks:
  "(wf_db d \<Longrightarrow> wf_db d') \<Longrightarrow> tasks d' = tasks d \<Longrightarrow> good_step d d'"
  by (auto simp: good_step_def wf_tasks_def intro: tasks_evolve_same)

lemma submit_task_good:
  assumes "keeps_db other"
  shows "good_step d (snd (submit_task cx q uuid now other d))"
proof -
  obtain r d' where run: "submit_task cx q uuid now other d = (r, d')" by fastforce
  consider "d' = d" | "d' = other d" | t where "fresh_task t" "insert_task t (other d) = Inr d'"
    using submit_task_cases [OF run] by blast
  then have "good_step d d'"
  proof cases
    case (3 t)
    then have "good_step (other d) d'"
      by (auto simp: good_step_def wf_insert_task wf_tasks_insert intro: tasks_evolve_insert)
    then show ?thesis by (rule good_step_trans [OF good_step_other [OF assms]])
  qed (simp_all add: good_step_other [OF assms])
  then show ?thesis using run by simp
qed

subsection \<open>Following one task through a run\<close>

lemma evolve_image:
  assumes "tasks_evolve d d'" and "t \<in> set (tasks d)"
  shows "\<exists>t'\<in>set (tasks d'). task_step t t'"
proof -
  obtain us news where us: "tasks d' = us @ news" "list_all2 task_step (tasks d) us"
    using assms(1) by (auto simp: tasks_evolve_def)
  from assms(2) obtain i where i: "i < length (tasks d)" "tasks d ! i = t"
    by (auto simp: in_set_conv_nth)
  then have "us ! i \<in> set us" "task_step t (us ! i)"
    using us(2) by (auto simp: list_all2_conv_all_nth)
  then show ?thesis using us(1) by auto
qed

lemma evolves_follow:
  assumes "tasks_evolve\<^sup>*\<^sup>* d d'" and "t \<in> set (tasks d)" and "P t"
    and "\<And>a b. P a \<Longrightarrow> task_step a b \<Longrightarrow> P b"
  shows "\<exists>t'\<in>set (tasks d'). P t'"
  using assms(1)
proof (induction rule: rtranclp_induct)
  case base
  then show ?case using assms(2,3) by blast
next
  case (step e e')
  then obtain a where "a \<in> set (tasks e)" "P a" by blast
  then show ?case using evolve_image [OF step(2)] assms(4) by blast
qed

lemma same_identity_trans: "same_identity a b \<Longrightarrow> same_identity b c \<Longrightarrow> same_identity a c"
  by (simp add: same_identity_def)

lemma same_identity_refl [simp]: "same_identity t t"
  by (simp add: same_identity_def)

lemma evolves_identity:
  assumes "tasks_evolve\<^sup>*\<^sup>* d d'" and "t \<in> set (tasks d)"
  shows "\<exists>t'\<in>set (tasks d'). same_identity t t'"
  by (rule evolves_follow [OF assms]) (auto simp: task_step_def intro: same_identity_trans)

lemma submit_replay:
  assumes "wf_db d" and "submit_task cx q uuid now (\<lambda>x. x) d = (Inr (t, True), d1)"
    and "sa_key q = Some k" and "tasks_evolve\<^sup>*\<^sup>* d1 d2" and "wf_db d2"
    and "cx_principal cx' = cx_principal cx" and "sa_key q' = Some k"
  shows "\<exists>t'. submit_task cx' q' uuid' now' other d2 = (Inr (t', False), d2) \<and> same_identity t t'"
proof -
  obtain p where p: "cx_principal cx = Some p"
    using assms(2) by (auto simp: submit_task_def require_current_tenant_def split: option.splits)
  have t: "tk_key t = Some (p_tenant_id p @ '':'' @ k)" "tk_tenant t = p_tenant_id p" "t \<in> set (tasks d1)"
    using assms(2,3) p
    by (auto simp: submit_task_def require_current_tenant_def scoped_key_def new_task_def insert_task_def
        Let_def split: sum.splits option.splits if_splits)
  obtain t' where t': "t' \<in> set (tasks d2)" "same_identity t t'"
    using evolves_identity [OF assms(4) t(3)] by blast
  have cx': "authenticated cx'" "sees cx' (tk_tenant t')"
    using assms(6) p t(2) t'(2) by (auto simp: authenticated_def sees_def same_identity_def)
  have "tk_key t' = Some (p_tenant_id p @ '':'' @ k)" using t(1) t'(2) by (simp add: same_identity_def)
  from select_by_key_hit [OF assms(5) cx'(1) t'(1) this cx'(2)]
  have "submit_task cx' q' uuid' now' other d2 = (Inr (t', False), d2)"
    using assms(6,7) p by (simp add: submit_task_def require_current_tenant_def scoped_key_def Let_def)
  then show ?thesis using t'(2) by blast
qed

section \<open>Properties\<close>

text \<open>C32: replaying a submission.  Once \<open>submit_task\<close> has created a task for an
  idempotency key, the same tenant submitting the same key again, at any later time and
  whatever happened to the task in between, gets that task back with
  \<open>created = False\<close>, and the database is left as it is.\<close>

theorem submit_task_replay:
  assumes "wf_db d" and "submit_task cx q uuid now (\<lambda>x. x) d = (Inr (t, True), d1)"
    and "sa_key q = Some k" and "tasks_evolve\<^sup>*\<^sup>* d1 d2" and "wf_db d2"
    and "cx_principal cx' = cx_principal cx" and "sa_key q' = Some k"
  shows "\<exists>t'. submit_task cx' q' uuid' now' other d2 = (Inr (t', False), d2) \<and> same_identity t t'"
  by (rule submit_replay [OF assms])

text \<open>Values for the witnesses.\<close>

definition args0 :: submit_args where
  "args0 = \<lparr>sa_type = COMPACTION, sa_dataset = ''u1'', sa_priority = 5, sa_params = None,
     sa_key = Some ''k'', sa_max_attempts = 3\<rparr>"

definition task0 :: task_row where
  "task0 = new_task ''a'' COMPACTION ''u1'' ''acme'' 5 None (Some ''acme:k'') 3 t0"

definition with_task :: "task_row \<Rightarrow> db" where
  "with_task t = db0\<lparr>tasks := [t]\<rparr>"

definition db1 :: db where
  "db1 = with_task task0"

lemma task0 [simp]: "tk_uuid task0 = ''a''" "tk_tenant task0 = ''acme''" "tk_key task0 = Some ''acme:k''"
  "tk_status task0 = PENDING" "tk_attempt task0 = 0" "tk_max_attempts task0 = 3"
  "tk_worker task0 = None" "fresh_task task0" "tk_dataset task0 = ''u1''" "tk_type task0 = COMPACTION"
  by (simp_all add: task0_def new_task_def fresh_task_def)

lemma with_task [simp]: "tasks (with_task t) = [t]" "datasets (with_task t) = [dataset0]"
  "workers (with_task t) = []" "wf_db (with_task t)" "db1 = with_task task0"
  by (simp_all add: with_task_def db1_def wf_db_def unique_on_Cons clash_iff)

lemma submit0: "submit_task acme_cx args0 ''a'' t0 (\<lambda>x. x) db0 = (Inr (task0, True), db1)"
  by (simp add: submit_task_def require_current_tenant_def scoped_key_def args0_def select_by_key_def
      rls_task insert_task_def clash_iff task0_def with_task_def Let_def)

theorem submit_task_replay_witness:
  "\<exists>t'. submit_task acme_cx args0 ''b'' t0 (\<lambda>x. x) (snd (cancel_task acme_cx ''a'' t0 db1))
     = (Inr (t', False), snd (cancel_task acme_cx ''a'' t0 db1)) \<and> same_identity task0 t'"
proof (rule submit_task_replay [OF _ submit0])
  have run: "cancel_task acme_cx ''a'' t0 db1
      = (fst (cancel_task acme_cx ''a'' t0 db1), snd (cancel_task acme_cx ''a'' t0 db1))" by simp
  show "tasks_evolve\<^sup>*\<^sup>* db1 (snd (cancel_task acme_cx ''a'' t0 db1))"
    using cancel_task_evolves [OF _ run] by (intro r_into_rtranclp) simp
  show "wf_db (snd (cancel_task acme_cx ''a'' t0 db1))" using wf_cancel_task [OF _ run] by simp
qed (simp_all add: args0_def)

text \<open>Two submissions racing on one key.  When another transaction commits a task with the
  same scoped key between the SELECT and the INSERT, \<open>submit_task\<close> recovers from the
  \<open>IntegrityError\<close> and returns the winner with \<open>created = False\<close>; it inserts nothing.\<close>

theorem submit_task_race:
  assumes "wf_db d" and "wf_db (other d)" and "cx_principal cx = Some p" and "sa_key q = Some k"
    and "\<And>t. t \<in> set (tasks d) \<Longrightarrow> tk_key t \<noteq> Some (p_tenant_id p @ '':'' @ k)"
    and "w \<in> set (tasks (other d))" and "tk_key w = Some (p_tenant_id p @ '':'' @ k)"
    and "tk_tenant w = p_tenant_id p"
  shows "submit_task cx q uuid now other d = (Inr (w, False), other d)"
proof -
  let ?k = "p_tenant_id p @ '':'' @ k"
  have cx: "authenticated cx" "sees cx (tk_tenant w)"
    using assms(3,8) by (auto simp: authenticated_def sees_def)
  have "filter (\<lambda>t. tk_key t = Some ?k) (tasks d) = []" using assms(5) by (auto simp: filter_empty_conv)
  then have miss: "select_by_key cx ?k d = Inr None"
    using cx(1) by (simp add: select_by_key_def rls_task)
  have "clash uk_idempotency_key (new_task uuid (sa_type q) (sa_dataset q) (p_tenant_id p) (sa_priority q)
      (sa_params q) (Some ?k) (sa_max_attempts q) now) (tasks (other d))"
    using assms(6,7) by (auto simp: clash_iff uk_defs new_task_def)
  from tk_idem_key.ins_clash [OF this] miss select_by_key_hit [OF assms(2) cx(1) assms(6,7) cx(2)]
  show ?thesis using assms(3,4) by (simp add: submit_task_def require_current_tenant_def scoped_key_def Let_def)
qed

theorem submit_task_race_witness:
  "submit_task acme_cx args0 ''b'' t0 (\<lambda>_. db1) db0 = (Inr (task0, False), db1)"
  by (rule submit_task_race [where p = acme and k = "''k''"]) (simp_all add: args0_def)

text \<open>\<open>cancel_task\<close> by current status.  A PENDING, QUEUED or RUNNING task becomes
  CANCELLED with its finish time, a RUNNING one also gives its worker's slot back; cancelling
  a CANCELLED task returns it unchanged; SUCCEEDED and FAILED tasks raise
  \<open>TaskTransitionError\<close>.  Only the first case changes the database.\<close>

theorem cancel_task_by_status:
  assumes "get_task cx uuid d = Inr t"
  shows "cancel_task cx uuid now d =
    (case tk_status t of
       CANCELLED \<Rightarrow> (Inr t, d)
     | SUCCEEDED \<Rightarrow> (Inl (TaskTransitionError uuid), d)
     | FAILED \<Rightarrow> (Inl (TaskTransitionError uuid), d)
     | RUNNING \<Rightarrow> (Inr (t\<lparr>tk_status := CANCELLED, tk_finished_at := Some now\<rparr>),
                  upd_task uuid (set_cancelled now)
                    (if truthy (tk_worker t) then decrement_in_flight (the (tk_worker t)) d else d))
     | _ \<Rightarrow> (Inr (t\<lparr>tk_status := CANCELLED, tk_finished_at := Some now\<rparr>),
            upd_task uuid (set_cancelled now) d))"
  using assms
  by (cases "tk_status t") (simp_all add: cancel_task_def CANCELLABLE_STATES_def set_cancelled_def Let_def)

lemma get_with_task: "tk_uuid t = ''a'' \<Longrightarrow> tk_tenant t = ''acme'' \<Longrightarrow> get_task acme_cx ''a'' (with_task t) = Inr t"
  by (simp add: get_task_iff)

theorem cancel_task_by_status_witness:
  "cancel_task acme_cx ''a'' t0 (with_task (task0\<lparr>tk_status := SUCCEEDED\<rparr>))
     = (Inl (TaskTransitionError ''a''), with_task (task0\<lparr>tk_status := SUCCEEDED\<rparr>))"
  using cancel_task_by_status [OF get_with_task [of "task0\<lparr>tk_status := SUCCEEDED\<rparr>"], of t0] by simp



text \<open>Terminal states absorb.  Along any run of operations that refine the task machine, a
  task that is SUCCEEDED or CANCELLED is later found with the same status, attempt count and
  identity.\<close>

theorem terminal_states_absorb:
  assumes "tasks_evolve\<^sup>*\<^sup>* d d'" and "t \<in> set (tasks d)" and "List.member TERMINAL_STATES (tk_status t)"
  shows "t \<in> set (tasks d')"
proof -
  have step: "a = t \<Longrightarrow> task_step a b \<Longrightarrow> b = t" for a b
    using assms(3) by (auto simp: task_step_def TERMINAL_STATES_def)
  have "\<exists>t'\<in>set (tasks d'). t' = t"
    by (rule evolves_follow [OF assms(1,2), of "\<lambda>a. a = t", OF refl step])
  then show ?thesis by simp
qed

theorem terminal_states_absorb_witness:
  "task0\<lparr>tk_status := CANCELLED\<rparr> \<in> set (tasks (with_task (task0\<lparr>tk_status := CANCELLED\<rparr>)))"
  by (rule terminal_states_absorb [OF rtranclp.rtrancl_refl]) (simp_all add: TERMINAL_STATES_def)



end
