(* ===== verification/Indexes.thy ===== *)
theory Indexes
  imports Tasks
begin

text \<open>
  The index service, \<open>src/lcp/services/index_service.py\<close>: the index status machine
  (BUILDING, READY, OPTIMIZING, MERGING, FAILED, DROPPED), creation and optimisation
  with the task each submits and the safety net when the submission fails.
  \<open>get_index\<close> is an instance of the locale \<open>guarded_child\<close>.  \<open>str_exc\<close> is
  Python's \<open>str\<close> of an exception, \<open>other\<close> what other transactions commit while
  \<open>submit_task\<close> runs.
\<close>

section \<open>Operations\<close>

definition OPTIMIZABLE_STATES :: "index_status list" where
  "OPTIMIZABLE_STATES = [IX_READY]"

definition MERGEABLE_STATES :: "index_status list" where
  "MERGEABLE_STATES = [IX_READY]"

definition IX_TERMINAL_STATES :: "index_status list" where
  "IX_TERMINAL_STATES = [IX_DROPPED]"

definition maybe_get_index :: "string \<Rightarrow> string \<Rightarrow> db \<Rightarrow> index_row option res" where
  "maybe_get_index ds name d =
     one_or_none (filter (\<lambda>i. ix_dataset i = ds \<and> ix_name i = name) (indexes d))"

definition get_index :: "rls_ctx \<Rightarrow> string \<Rightarrow> string \<Rightarrow> db \<Rightarrow> index_row res" where
  "get_index cx ds name d =
     (case get_dataset cx ds d of
        Inl e \<Rightarrow> Inl e
      | Inr _ \<Rightarrow>
          (case maybe_get_index ds name d of
             Inl e \<Rightarrow> Inl e
           | Inr None \<Rightarrow> Inl (IndexNotFoundError ds name)
           | Inr (Some obj) \<Rightarrow> Inr obj))"

definition upd_index :: "string \<times> string \<Rightarrow> (index_row \<Rightarrow> index_row) \<Rightarrow> db \<Rightarrow> db" where
  "upd_index k f d = d\<lparr>indexes := upd_where (\<lambda>i. (ix_dataset i, ix_name i) = k) f (indexes d)\<rparr>"

definition delete_index_row :: "string \<times> string \<Rightarrow> db \<Rightarrow> db" where
  "delete_index_row k d = d\<lparr>indexes := filter (\<lambda>i. (ix_dataset i, ix_name i) \<noteq> k) (indexes d)\<rparr>"

record index_create_request =
  icr_name :: string
  icr_column :: string
  icr_type :: string
  icr_params :: "params option"
  icr_replace :: bool

definition INDEX_TYPES :: "string list" where
  "INDEX_TYPES = [''HNSW'', ''IVF_PQ'', ''IVF_FLAT'', ''BTREE'', ''BITMAP'', ''FTS'']"

definition valid_index_request :: "index_create_request \<Rightarrow> bool" where
  "valid_index_request q \<longleftrightarrow>
     str_between 1 128 (icr_name q) \<and> str_between 1 128 (icr_column q)
   \<and> List.member INDEX_TYPES (icr_type q)"

definition build_key :: "string \<Rightarrow> string \<Rightarrow> nat \<Rightarrow> string" where
  "build_key ds name i = ''build:'' @ ds @ ''/'' @ name @ '':'' @ dec_nat i"

definition build_args :: "string \<Rightarrow> index_create_request \<Rightarrow> nat \<Rightarrow> submit_args" where
  "build_args ds q i =
     \<lparr>sa_type = INDEX_BUILD, sa_dataset = ds, sa_priority = 5,
      sa_params = Some [(''index_name'', JStr (icr_name q)), (''column_name'', JStr (icr_column q)),
        (''index_type'', JStr (icr_type q)),
        (''params'', JObj (case icr_params q of None \<Rightarrow> [] | Some p \<Rightarrow> p))],
      sa_key = Some (build_key ds (icr_name q) i), sa_max_attempts = 3\<rparr>"

definition set_ix_error :: "index_status \<Rightarrow> string \<Rightarrow> index_row \<Rightarrow> index_row" where
  "set_ix_error st txt i =
     i\<lparr>ix_status := st, ix_error_message := Some (''task submission failed: '' @ txt)\<rparr>"

definition create_index ::
  "rls_ctx \<Rightarrow> (lcp_error \<Rightarrow> string) \<Rightarrow> string \<Rightarrow> index_create_request \<Rightarrow> string \<Rightarrow> datetime
     \<Rightarrow> (db \<Rightarrow> db) \<Rightarrow> db \<Rightarrow> index_row res \<times> db" where
  "create_index cx str_exc ds q uuid now other d =
     (case get_dataset cx ds d of
        Inl e \<Rightarrow> (Inl e, d)
      | Inr _ \<Rightarrow>
         (case (if icr_replace q then maybe_get_index ds (icr_name q) d else Inr None) of
            Inl e \<Rightarrow> (Inl e, d)
          | Inr existing \<Rightarrow>
              let d1 = (case existing of None \<Rightarrow> d
                        | Some _ \<Rightarrow> delete_index_row (ds, icr_name q) d);
                  row = new_index ds (icr_name q) (icr_column q) (icr_type q) (icr_params q) now
              in case insert_index row d1 of
                   Inl _ \<Rightarrow> (Inl (IndexAlreadyExistsError ds (icr_name q)), d)
                 | Inr d2 \<Rightarrow>
                     let obj = row\<lparr>ix_id := next_index_id d1\<rparr> in
                     case submit_task cx (build_args ds q (ix_id obj)) uuid now other d2 of
                       (Inr _, d3) \<Rightarrow> (Inr obj, d3)
                     | (Inl e, d3) \<Rightarrow>
                         (Inl e, upd_index (ds, icr_name q) (set_ix_error IX_FAILED (str_exc e)) d3)))"

definition list_indexes :: "rls_ctx \<Rightarrow> string \<Rightarrow> db \<Rightarrow> (index_row list \<times> nat) res" where
  "list_indexes cx ds d =
     (case get_dataset cx ds d of
        Inl e \<Rightarrow> Inl e
      | Inr _ \<Rightarrow>
          let items = newest_first ix_created_at (filter (\<lambda>i. ix_dataset i = ds) (indexes d))
          in Inr (items, length items))"

definition drop_index :: "rls_ctx \<Rightarrow> string \<Rightarrow> string \<Rightarrow> db \<Rightarrow> unit res \<times> db" where
  "drop_index cx ds name d =
     (case get_index cx ds name d of
        Inl e \<Rightarrow> (Inl e, d)
      | Inr obj \<Rightarrow>
          if List.member IX_TERMINAL_STATES (ix_status obj) then (Inr (), d)
          else (Inr (), upd_index (ds, name) (\<lambda>i. i\<lparr>ix_status := IX_DROPPED\<rparr>) d))"

definition optimize_key :: "string \<Rightarrow> string \<Rightarrow> nat \<Rightarrow> datetime \<Rightarrow> string" where
  "optimize_key ds name i stamp =
     ''optimize:'' @ ds @ ''/'' @ name @ '':'' @ dec_nat i @ '':'' @ isoformat stamp"

definition optimize_args :: "string \<Rightarrow> string \<Rightarrow> nat \<Rightarrow> datetime \<Rightarrow> submit_args" where
  "optimize_args ds name i stamp =
     \<lparr>sa_type = INDEX_OPTIMIZE, sa_dataset = ds, sa_priority = 5,
      sa_params = Some [(''index_name'', JStr name)],
      sa_key = Some (optimize_key ds name i stamp), sa_max_attempts = 3\<rparr>"

definition set_optimizing :: "datetime \<Rightarrow> index_row \<Rightarrow> index_row" where
  "set_optimizing now i = i\<lparr>ix_status := IX_OPTIMIZING, ix_last_optimized_at := Some now\<rparr>"

definition optimize_index ::
  "rls_ctx \<Rightarrow> (lcp_error \<Rightarrow> string) \<Rightarrow> string \<Rightarrow> string \<Rightarrow> string \<Rightarrow> datetime \<Rightarrow> (db \<Rightarrow> db) \<Rightarrow> db
     \<Rightarrow> index_row res \<times> db" where
  "optimize_index cx str_exc ds name uuid now other d =
     (case get_index cx ds name d of
        Inl e \<Rightarrow> (Inl e, d)
      | Inr obj \<Rightarrow>
          if \<not> List.member OPTIMIZABLE_STATES (ix_status obj) then (Inl (IndexTransitionError name), d)
          else
            let d1 = upd_index (ds, name) (set_optimizing now) d;
                obj1 = set_optimizing now obj
            in case submit_task cx (optimize_args ds name (ix_id obj) now) uuid now other d1 of
                 (Inr _, d2) \<Rightarrow> (Inr obj1, d2)
               | (Inl e, d2) \<Rightarrow>
                   (Inl e, upd_index (ds, name) (set_ix_error IX_READY (str_exc e)) d2))"

definition set_merging :: "datetime \<Rightarrow> index_row \<Rightarrow> index_row" where
  "set_merging now i = i\<lparr>ix_status := IX_MERGING, ix_last_merged_at := Some now\<rparr>"

definition merge_index :: "rls_ctx \<Rightarrow> string \<Rightarrow> string \<Rightarrow> datetime \<Rightarrow> db \<Rightarrow> index_row res \<times> db" where
  "merge_index cx ds name now d =
     (case get_index cx ds name d of
        Inl e \<Rightarrow> (Inl e, d)
      | Inr obj \<Rightarrow>
          if \<not> List.member MERGEABLE_STATES (ix_status obj) then (Inl (IndexTransitionError name), d)
          else (Inr (set_merging now obj), upd_index (ds, name) (set_merging now) d))"

section \<open>Tenancy of indexes\<close>

interpretation ix_child: guarded_child indexes uk_dataset_index_name get_index IndexNotFoundError
proof
  show "get_index cx u n d = Inl e" if "get_dataset cx u d = Inl e" for cx u d e n
    using that by (simp add: get_index_def)
  show "get_index cx u n d =
      (case one_or_none (filter (\<lambda>c. uk_dataset_index_name c = Some (u, n)) (indexes d)) of
         Inl e \<Rightarrow> Inl e | Inr None \<Rightarrow> Inl (IndexNotFoundError u n) | Inr (Some c) \<Rightarrow> Inr c)"
    if "get_dataset cx u d = Inr ds" for cx u d ds n
    using that by (simp add: get_index_def maybe_get_index_def uk_dataset_index_name_def)
  show "unique_on uk_dataset_index_name (indexes d)" if "wf_db d" for d
    using that by (simp add: wf_db_def)
qed

section \<open>Lemmas\<close>

lemma upd_index_sel [simp]:
  "tasks (upd_index k f d) = tasks d" "datasets (upd_index k f d) = datasets d"
  "workers (upd_index k f d) = workers d" "policies (upd_index k f d) = policies d"
  "rules (upd_index k f d) = rules d"
  "indexes (upd_index k f d) = upd_where (\<lambda>i. (ix_dataset i, ix_name i) = k) f (indexes d)"
  by (simp_all add: upd_index_def)

lemma wf_upd_index:
  assumes "wf_db d" and "\<And>i. ix_dataset (f i) = ix_dataset i \<and> ix_name (f i) = ix_name i"
  shows "wf_db (upd_index k f d)"
  unfolding upd_index_def using assms by (intro wf_upd_indexes) (simp_all add: uk_defs)

lemma wf_delete_index_row: "wf_db d \<Longrightarrow> wf_db (delete_index_row k d)"
  by (simp add: wf_db_def delete_index_row_def unique_on_filter)

lemma ix_status_changes [simp]:
  "ix_dataset (set_ix_error st x i) = ix_dataset i" "ix_name (set_ix_error st x i) = ix_name i"
  "ix_dataset (set_optimizing now i) = ix_dataset i" "ix_name (set_optimizing now i) = ix_name i"
  "ix_dataset (set_merging now i) = ix_dataset i" "ix_name (set_merging now i) = ix_name i"
  by (simp_all add: set_ix_error_def set_optimizing_def set_merging_def)

lemma good_step_upd_index:
  assumes "\<And>i. ix_dataset (f i) = ix_dataset i \<and> ix_name (f i) = ix_name i"
  shows "good_step d (upd_index k f d)"
  by (rule good_step_same_tasks) (simp_all add: wf_upd_index [OF _ assms])

lemma good_step_insert_index:
  assumes "insert_index row d = Inr d'"
  shows "good_step d d'"
proof (rule good_step_same_tasks)
  show "wf_db d \<Longrightarrow> wf_db d'" by (rule wf_insert_index [OF _ assms])
  show "tasks d' = tasks d" using assms by (auto simp: insert_index_def split: if_splits)
qed

lemma good_step_delete_index: "good_step d (delete_index_row k d)"
  by (intro good_step_same_tasks wf_delete_index_row) (simp_all add: delete_index_row_def)

lemma create_index_good:
  assumes "keeps_db other"
  shows "good_step d (snd (create_index cx str_exc ds q uuid now other d))"
proof (cases "get_dataset cx ds d")
  case (Inl e)
  then show ?thesis by (simp add: create_index_def)
next
  case guard: (Inr obj)
  show ?thesis
  proof (cases "if icr_replace q then maybe_get_index ds (icr_name q) d else Inr None")
    case (Inl e)
    then show ?thesis using guard by (simp add: create_index_def)
  next
    case ex: (Inr existing)
    define d1 where "d1 = (case existing of None \<Rightarrow> d | Some _ \<Rightarrow> delete_index_row (ds, icr_name q) d)"
    have g1: "good_step d d1" by (simp add: d1_def good_step_delete_index split: option.split)
    define row where "row = new_index ds (icr_name q) (icr_column q) (icr_type q) (icr_params q) now"
    show ?thesis
    proof (cases "insert_index row d1")
      case (Inl e)
      then show ?thesis using guard ex by (simp add: create_index_def d1_def row_def)
    next
      case ins: (Inr d2)
      define args where "args = build_args ds q (next_index_id d1)"
      obtain r d3 where sub: "submit_task cx args uuid now other d2 = (r, d3)" by fastforce
      have g3: "good_step d d3"
        using submit_task_good [OF assms, of d2 cx args uuid now] sub g1 good_step_insert_index [OF ins]
        by (auto intro: good_step_trans)
      have "snd (create_index cx str_exc ds q uuid now other d) =
          (case r of Inl e \<Rightarrow> upd_index (ds, icr_name q) (set_ix_error IX_FAILED (str_exc e)) d3 | Inr _ \<Rightarrow> d3)"
        using guard ex ins sub
        by (simp add: create_index_def args_def d1_def row_def Let_def split: sum.split)
      then show ?thesis
        using g3 good_step_upd_index [of "set_ix_error IX_FAILED _"]
        by (auto split: sum.split intro: good_step_trans)
    qed
  qed
qed

lemma optimize_index_good:
  assumes "keeps_db other"
  shows "good_step d (snd (optimize_index cx str_exc ds name uuid now other d))"
proof (cases "get_index cx ds name d")
  case (Inl e)
  then show ?thesis by (simp add: optimize_index_def)
next
  case (Inr obj)
  define d1 where "d1 = upd_index (ds, name) (set_optimizing now) d"
  obtain r d2 where sub: "submit_task cx (optimize_args ds name (ix_id obj) now) uuid now other d1 = (r, d2)"
    by fastforce
  have g2: "good_step d d2"
    using submit_task_good [OF assms, of d1 cx "optimize_args ds name (ix_id obj) now" uuid now] sub
      good_step_upd_index [of "set_optimizing now" d "(ds, name)"]
    by (auto simp: d1_def intro: good_step_trans)
  have "snd (optimize_index cx str_exc ds name uuid now other d) \<in>
      {d, d2} \<union> {upd_index (ds, name) (set_ix_error IX_READY (str_exc e)) d2 | e. True}"
    using Inr sub by (auto simp: optimize_index_def d1_def Let_def split: sum.split)
  then show ?thesis
    using g2 good_step_upd_index [of "set_ix_error IX_READY _"] by (auto intro: good_step_trans)
qed

lemma drop_index_good: "good_step d (snd (drop_index cx ds name d))"
  by (auto simp: drop_index_def split: sum.split intro: good_step_upd_index)

lemma merge_index_good: "good_step d (snd (merge_index cx ds name now d))"
  by (auto simp: merge_index_def split: sum.split intro: good_step_upd_index)

section \<open>Properties\<close>

lemma index_by_key:
  assumes "wf_db d" and "get_index cx ds name d = Inr obj" and "i \<in> set (indexes d)"
    and "(ix_dataset i, ix_name i) = (ds, name)"
  shows "i = obj"
proof -
  have "unique_on uk_dataset_index_name (indexes d)" using assms(1) by (simp add: wf_db_def)
  from unique_on_eqI [OF this assms(3) ix_child.get_Inr(1) [OF assms(2)]] assms(4)
    ix_child.get_Inr(2) [OF assms(2)]
  show ?thesis by (simp add: uk_dataset_index_name_def)
qed

lemma get_index_upd:
  assumes "wf_db d" and "get_index cx ds name d = Inr obj"
    and "\<And>i. ix_dataset (f i) = ix_dataset i \<and> ix_name (f i) = ix_name i"
    and "indexes d' = upd_where (\<lambda>i. (ix_dataset i, ix_name i) = (ds, name)) f (indexes d)"
    and "datasets d' = datasets d"
  shows "get_index cx ds name d' = Inr (f obj)"
proof -
  have key: "obj \<in> set (indexes d)" "(ix_dataset obj, ix_name obj) = (ds, name)"
    using ix_child.get_Inr(1,2) [OF assms(2)] by (simp_all add: uk_dataset_index_name_def)
  have "unique_on uk_dataset_index_name (indexes d)" using assms(1) by (simp add: wf_db_def)
  then have "unique_on uk_dataset_index_name (indexes d')"
    unfolding assms(4) by (subst unique_on_upd) (simp_all add: uk_defs assms(3))
  moreover have "f obj \<in> set (indexes d')" unfolding assms(4) by (rule upd_where_hit) (fact key)+
  ultimately have "filter (\<lambda>i. uk_dataset_index_name i = Some (ds, name)) (indexes d') = [f obj]"
    by (rule unique_on_select) (use key assms(3) in \<open>simp add: uk_defs\<close>)
  moreover have "get_dataset cx ds d' = get_dataset cx ds d"
    by (simp add: get_dataset_def assms(5))
  ultimately show ?thesis using assms(2)
    by (auto simp: get_index_def maybe_get_index_def uk_dataset_index_name_def split: sum.splits)
qed

text \<open>C37: one maintenance operation at a time.  Once \<open>optimize_index\<close> or \<open>merge_index\<close> has
  succeeded, every further optimize or merge of that index raises \<open>IndexTransitionError\<close> and
  changes nothing, for as long as no worker has put it back to READY.\<close>

theorem index_maintenance_exclusive:
  assumes "wf_db d" and "wf_tasks d"
    and "optimize_index cx str_exc ds name uuid now (\<lambda>x. x) d = (Inr obj, d')
       \<or> merge_index cx ds name now d = (Inr obj, d')"
  shows "optimize_index cx str_exc' ds name uuid' now' other d' = (Inl (IndexTransitionError name), d')
       \<and> merge_index cx ds name now' d' = (Inl (IndexTransitionError name), d')"
proof -
  obtain i where i: "get_index cx ds name d = Inr i"
    using assms(3) by (auto simp: optimize_index_def merge_index_def split: sum.splits)
  have sub: "indexes (snd (submit_task cx q u n (\<lambda>x. x) x)) = indexes x
      \<and> datasets (snd (submit_task cx q u n (\<lambda>x. x) x)) = datasets x" for q u n x
    by (auto simp: submit_task_def Let_def insert_task_def split: sum.splits option.splits)
  have "\<exists>f. (f = set_optimizing now \<or> f = set_merging now)
      \<and> indexes d' = upd_where (\<lambda>i. (ix_dataset i, ix_name i) = (ds, name)) f (indexes d)
      \<and> datasets d' = datasets d"
    using assms(3) i sub [of "optimize_args ds name (ix_id i) now" uuid now
        "upd_index (ds, name) (set_optimizing now) d"]
    by (auto simp: optimize_index_def merge_index_def Let_def split: if_splits sum.splits prod.splits)
  then obtain f where f: "f = set_optimizing now \<or> f = set_merging now"
      "indexes d' = upd_where (\<lambda>i. (ix_dataset i, ix_name i) = (ds, name)) f (indexes d)"
      "datasets d' = datasets d" by blast
  have "get_index cx ds name d' = Inr (f i)"
    by (rule get_index_upd [OF assms(1) i _ f(2,3)]) (use f(1) in auto)
  moreover have "ix_status (f i) \<noteq> IX_READY"
    using f(1) by (elim disjE) (simp_all add: set_optimizing_def set_merging_def)
  ultimately show ?thesis
    by (simp add: optimize_index_def merge_index_def OPTIMIZABLE_STATES_def MERGEABLE_STATES_def)
qed

definition index0 :: index_row where
  "index0 = (new_index ''u1'' ''ix'' ''vec'' ''HNSW'' None t0)\<lparr>ix_id := 1, ix_status := IX_READY\<rparr>"

definition indexes0 :: db where
  "indexes0 = db0\<lparr>indexes := [index0], next_index_id := 2\<rparr>"

lemma indexes0 [simp]: "indexes indexes0 = [index0]" "datasets indexes0 = [dataset0]" "tasks indexes0 = []"
  "wf_db indexes0" "wf_tasks indexes0" "ix_dataset index0 = ''u1''" "ix_name index0 = ''ix''"
  "ix_status index0 = IX_READY" "ix_id index0 = 1" "get_index acme_cx ''u1'' ''ix'' indexes0 = Inr index0"
proof -
  show wf: "wf_db indexes0" by (simp add: indexes0_def wf_db_def unique_on_Cons clash_iff)
  show ix: "ix_dataset index0 = ''u1''" "ix_name index0 = ''ix''" "ix_status index0 = IX_READY" "ix_id index0 = 1"
    by (simp_all add: index0_def new_index_def)
  show rows: "indexes indexes0 = [index0]" "datasets indexes0 = [dataset0]" "tasks indexes0 = []" "wf_tasks indexes0"
    by (simp_all add: indexes0_def wf_tasks_def)
  have "get_dataset acme_cx ''u1'' indexes0 = Inr dataset0" by (simp add: get_dataset_iff [OF wf] rows)
  then show "get_index acme_cx ''u1'' ''ix'' indexes0 = Inr index0"
    by (simp add: get_index_def maybe_get_index_def rows ix)
qed

theorem index_maintenance_exclusive_witness:
  "optimize_index acme_cx (\<lambda>_. []) ''u1'' ''ix'' ''a'' t0 (\<lambda>x. x) (snd (merge_index acme_cx ''u1'' ''ix'' t0 indexes0))
     = (Inl (IndexTransitionError ''ix''), snd (merge_index acme_cx ''u1'' ''ix'' t0 indexes0))"
proof -
  have "merge_index acme_cx ''u1'' ''ix'' t0 indexes0
      = (Inr (set_merging t0 index0), snd (merge_index acme_cx ''u1'' ''ix'' t0 indexes0))"
    by (simp add: merge_index_def MERGEABLE_STATES_def)
  from index_maintenance_exclusive [OF indexes0(4,5) disjI2, OF this] show ?thesis by blast
qed


definition index_request0 :: index_create_request where
  "index_request0 = \<lparr>icr_name = ''ix'', icr_column = ''vec'', icr_type = ''HNSW'', icr_params = None,
     icr_replace = False\<rparr>"


end
