(* ===== verification/Policies.thy ===== *)
theory Policies
  imports Tasks
begin

text \<open>
  Lifecycle policies: \<open>src/lcp/services/lifecycle_service.py\<close> and the requests of
  \<open>src/lcp/schemas/lifecycle.py\<close>.  A PATCH body keeps the difference between an
  omitted field and an explicit null: a field of \<open>policy_patch\<close> is \<open>None\<close> when
  omitted, \<open>Some v\<close> when supplied, so a nullable column has type \<open>option option\<close>.
\<close>

record policy_create_request =
  pcr_name :: string
  pcr_tier_rules :: "params option"
  pcr_ttl_days :: "int option"
  pcr_compaction_threshold :: "params option"
  pcr_index_optimize_cron :: "string option"
  pcr_watch_enabled :: bool
  pcr_min_unindexed_rows :: "int option"
  pcr_min_version_drift :: "int option"
  pcr_stale_minutes :: "int option"
  pcr_enabled :: bool

record policy_patch =
  pp_tier_rules :: "params option option"
  pp_ttl_days :: "int option option"
  pp_compaction_threshold :: "params option option"
  pp_index_optimize_cron :: "string option option"
  pp_watch_enabled :: "bool option option"
  pp_min_unindexed_rows :: "int option option"
  pp_min_version_drift :: "int option option"
  pp_stale_minutes :: "int option option"

definition opt_ge1 :: "int option \<Rightarrow> bool" where
  "opt_ge1 x = (case x of None \<Rightarrow> True | Some n \<Rightarrow> 1 \<le> n)"

definition valid_policy_request :: "policy_create_request \<Rightarrow> bool" where
  "valid_policy_request q \<longleftrightarrow>
     str_between 1 128 (pcr_name q) \<and> opt_ge1 (pcr_ttl_days q)
   \<and> opt_max 64 (pcr_index_optimize_cron q) \<and> opt_ge1 (pcr_min_unindexed_rows q)
   \<and> opt_ge1 (pcr_min_version_drift q) \<and> opt_ge1 (pcr_stale_minutes q)"

text \<open>A supplied field satisfies its constraint; an omitted one is not looked at.\<close>

definition supplied :: "('a \<Rightarrow> bool) \<Rightarrow> 'a option \<Rightarrow> bool" where
  "supplied P x = (case x of None \<Rightarrow> True | Some v \<Rightarrow> P v)"

definition valid_policy_patch :: "policy_patch \<Rightarrow> bool" where
  "valid_policy_patch q \<longleftrightarrow>
     supplied opt_ge1 (pp_ttl_days q) \<and> supplied (opt_max 64) (pp_index_optimize_cron q)
   \<and> supplied opt_ge1 (pp_min_unindexed_rows q) \<and> supplied opt_ge1 (pp_min_version_drift q)
   \<and> supplied opt_ge1 (pp_stale_minutes q)"

section \<open>Operations\<close>

definition maybe_get_policy :: "string \<Rightarrow> string \<Rightarrow> db \<Rightarrow> policy_row option res" where
  "maybe_get_policy ds name d =
     one_or_none (filter (\<lambda>p. lp_dataset p = ds \<and> lp_name p = name) (policies d))"

definition get_policy :: "rls_ctx \<Rightarrow> string \<Rightarrow> string \<Rightarrow> db \<Rightarrow> policy_row res" where
  "get_policy cx ds name d =
     (case get_dataset cx ds d of
        Inl e \<Rightarrow> Inl e
      | Inr _ \<Rightarrow>
          (case maybe_get_policy ds name d of
             Inl e \<Rightarrow> Inl e
           | Inr None \<Rightarrow> Inl (PolicyNotFoundError ds name)
           | Inr (Some obj) \<Rightarrow> Inr obj))"

definition new_policy :: "string \<Rightarrow> policy_create_request \<Rightarrow> datetime \<Rightarrow> policy_row" where
  "new_policy ds q now =
     \<lparr>lp_id = 0, lp_dataset = ds, lp_name = pcr_name q, lp_tier_rules = pcr_tier_rules q,
      lp_ttl_days = pcr_ttl_days q, lp_compaction_threshold = pcr_compaction_threshold q,
      lp_index_optimize_cron = pcr_index_optimize_cron q, lp_watch_enabled = pcr_watch_enabled q,
      lp_min_unindexed_rows = pcr_min_unindexed_rows q,
      lp_min_version_drift = pcr_min_version_drift q, lp_stale_minutes = pcr_stale_minutes q,
      lp_enabled = pcr_enabled q, lp_last_run_at = None, lp_created_at = now\<rparr>"

definition create_policy ::
  "rls_ctx \<Rightarrow> string \<Rightarrow> policy_create_request \<Rightarrow> datetime \<Rightarrow> db \<Rightarrow> policy_row res \<times> db" where
  "create_policy cx ds q now d =
     (case get_dataset cx ds d of
        Inl e \<Rightarrow> (Inl e, d)
      | Inr _ \<Rightarrow>
          (case insert_policy (new_policy ds q now) d of
             Inl _ \<Rightarrow> (Inl (PolicyAlreadyExistsError ds (pcr_name q)), d)
           | Inr d' \<Rightarrow> (Inr ((new_policy ds q now)\<lparr>lp_id := next_policy_id d\<rparr>), d')))"

definition list_policies :: "rls_ctx \<Rightarrow> string \<Rightarrow> db \<Rightarrow> (policy_row list \<times> nat) res" where
  "list_policies cx ds d =
     (case get_dataset cx ds d of
        Inl e \<Rightarrow> Inl e
      | Inr _ \<Rightarrow>
          let items = newest_first lp_created_at (filter (\<lambda>p. lp_dataset p = ds) (policies d))
          in Inr (items, length items))"

definition upd_policy :: "string \<times> string \<Rightarrow> (policy_row \<Rightarrow> policy_row) \<Rightarrow> db \<Rightarrow> db" where
  "upd_policy k f d = d\<lparr>policies := upd_where (\<lambda>p. (lp_dataset p, lp_name p) = k) f (policies d)\<rparr>"

definition delete_policy_row :: "string \<times> string \<Rightarrow> db \<Rightarrow> db" where
  "delete_policy_row k d = d\<lparr>policies := filter (\<lambda>p. (lp_dataset p, lp_name p) \<noteq> k) (policies d)\<rparr>"

definition patched :: "'a \<Rightarrow> 'a option \<Rightarrow> 'a" where
  "patched old x = (case x of None \<Rightarrow> old | Some v \<Rightarrow> v)"

definition patch_policy :: "policy_patch \<Rightarrow> bool \<Rightarrow> policy_row \<Rightarrow> policy_row" where
  "patch_policy q watch p =
     p\<lparr>lp_tier_rules := patched (lp_tier_rules p) (pp_tier_rules q),
       lp_ttl_days := patched (lp_ttl_days p) (pp_ttl_days q),
       lp_compaction_threshold := patched (lp_compaction_threshold p) (pp_compaction_threshold q),
       lp_index_optimize_cron := patched (lp_index_optimize_cron p) (pp_index_optimize_cron q),
       lp_watch_enabled := watch,
       lp_min_unindexed_rows := patched (lp_min_unindexed_rows p) (pp_min_unindexed_rows q),
       lp_min_version_drift := patched (lp_min_version_drift p) (pp_min_version_drift q),
       lp_stale_minutes := patched (lp_stale_minutes p) (pp_stale_minutes q)\<rparr>"

text \<open>\<open>index_watch_enabled\<close> is NOT NULL: an explicit null fails the UPDATE.\<close>

definition update_policy ::
  "rls_ctx \<Rightarrow> string \<Rightarrow> string \<Rightarrow> policy_patch \<Rightarrow> db \<Rightarrow> policy_row res \<times> db" where
  "update_policy cx ds name q d =
     (case get_policy cx ds name d of
        Inl e \<Rightarrow> (Inl e, d)
      | Inr obj \<Rightarrow>
          (case pp_watch_enabled q of
             Some None \<Rightarrow> (Inl IntegrityError, d)
           | Some (Some w) \<Rightarrow> (Inr (patch_policy q w obj), upd_policy (ds, name) (patch_policy q w) d)
           | None \<Rightarrow> (Inr (patch_policy q (lp_watch_enabled obj) obj),
                     upd_policy (ds, name) (patch_policy q (lp_watch_enabled obj)) d)))"

definition delete_policy :: "rls_ctx \<Rightarrow> string \<Rightarrow> string \<Rightarrow> db \<Rightarrow> unit res \<times> db" where
  "delete_policy cx ds name d =
     (case get_policy cx ds name d of
        Inl e \<Rightarrow> (Inl e, d)
      | Inr _ \<Rightarrow> (Inr (), delete_policy_row (ds, name) d))"

definition set_policy_enabled ::
  "rls_ctx \<Rightarrow> string \<Rightarrow> string \<Rightarrow> bool \<Rightarrow> db \<Rightarrow> policy_row res \<times> db" where
  "set_policy_enabled cx ds name en d =
     (case get_policy cx ds name d of
        Inl e \<Rightarrow> (Inl e, d)
      | Inr obj \<Rightarrow>
          if lp_enabled obj \<noteq> en
          then (Inr (obj\<lparr>lp_enabled := en\<rparr>), upd_policy (ds, name) (\<lambda>p. p\<lparr>lp_enabled := en\<rparr>) d)
          else (Inr obj, d))"

interpretation lp_child: guarded_child policies uk_dataset_policy get_policy PolicyNotFoundError
proof
  show "get_policy cx u n d = Inl e" if "get_dataset cx u d = Inl e" for cx u d e n
    using that by (simp add: get_policy_def)
  show "get_policy cx u n d =
      (case one_or_none (filter (\<lambda>c. uk_dataset_policy c = Some (u, n)) (policies d)) of
         Inl e \<Rightarrow> Inl e | Inr None \<Rightarrow> Inl (PolicyNotFoundError u n) | Inr (Some c) \<Rightarrow> Inr c)"
    if "get_dataset cx u d = Inr ds" for cx u d ds n
    using that by (simp add: get_policy_def maybe_get_policy_def uk_dataset_policy_def)
  show "unique_on uk_dataset_policy (policies d)" if "wf_db d" for d
    using that by (simp add: wf_db_def)
qed

section \<open>Lemmas\<close>

text \<open>Limits every stored policy respects.\<close>

definition wf_policy :: "policy_row \<Rightarrow> bool" where
  "wf_policy p \<longleftrightarrow>
     opt_ge1 (lp_ttl_days p) \<and> opt_max 64 (lp_index_optimize_cron p)
   \<and> opt_ge1 (lp_min_unindexed_rows p) \<and> opt_ge1 (lp_min_version_drift p)
   \<and> opt_ge1 (lp_stale_minutes p)"

lemma patched_simps [simp]: "patched old None = old" "patched old (Some v) = v"
  by (simp_all add: patched_def)

lemma patched_keeps: "P old \<Longrightarrow> supplied P x \<Longrightarrow> P (patched old x)"
  by (cases x) (simp_all add: supplied_def)

lemma wf_policy_new: "valid_policy_request q \<Longrightarrow> wf_policy (new_policy ds q now)"
  by (simp add: valid_policy_request_def wf_policy_def new_policy_def)

lemma wf_policy_patch: "wf_policy p \<Longrightarrow> valid_policy_patch q \<Longrightarrow> wf_policy (patch_policy q w p)"
  by (simp add: wf_policy_def valid_policy_patch_def patch_policy_def patched_keeps)

lemma patch_policy_key [simp]:
  "lp_dataset (patch_policy q w p) = lp_dataset p" "lp_name (patch_policy q w p) = lp_name p"
  "lp_id (patch_policy q w p) = lp_id p" "lp_enabled (patch_policy q w p) = lp_enabled p"
  by (simp_all add: patch_policy_def)

lemma good_step_upd_policy:
  assumes "\<And>i. lp_dataset (f i) = lp_dataset i \<and> lp_name (f i) = lp_name i"
  shows "good_step d (upd_policy k f d)"
proof (rule good_step_same_tasks)
  show "wf_db d \<Longrightarrow> wf_db (upd_policy k f d)"
    unfolding upd_policy_def by (rule wf_upd_policies) (simp_all add: uk_defs assms)
qed (simp add: upd_policy_def)

lemma create_policy_good: "good_step d (snd (create_policy cx ds q now d))"
proof (cases "\<exists>d'. insert_policy (new_policy ds q now) d = Inr d'")
  case True
  then obtain d' where ins: "insert_policy (new_policy ds q now) d = Inr d'" by blast
  have "good_step d d'"
  proof (rule good_step_same_tasks)
    show "wf_db d \<Longrightarrow> wf_db d'" by (rule wf_insert_policy [OF _ ins])
    show "tasks d' = tasks d" using ins by (auto simp: insert_policy_def split: if_splits)
  qed
  then show ?thesis using ins by (simp add: create_policy_def split: sum.split)
qed (auto simp: create_policy_def split: sum.splits)

lemma update_policy_good: "good_step d (snd (update_policy cx ds name q d))"
  by (auto simp: update_policy_def split: sum.split option.split intro: good_step_upd_policy)

lemma delete_policy_good: "good_step d (snd (delete_policy cx ds name d))"
proof -
  have "good_step d (delete_policy_row (ds, name) d)"
    by (rule good_step_same_tasks) (simp_all add: wf_db_def delete_policy_row_def unique_on_filter)
  then show ?thesis by (auto simp: delete_policy_def split: sum.split)
qed

lemma set_policy_enabled_good: "good_step d (snd (set_policy_enabled cx ds name en d))"
  by (auto simp: set_policy_enabled_def split: sum.split intro: good_step_upd_policy)

section \<open>Properties\<close>

definition policies_ok :: "db \<Rightarrow> bool" where
  "policies_ok d \<longleftrightarrow> (\<forall>p\<in>set (policies d). wf_policy p)"

lemma policy_by_key:
  assumes "wf_db d" and "get_policy cx ds name d = Inr obj" and "p \<in> set (policies d)"
    and "(lp_dataset p, lp_name p) = (ds, name)"
  shows "p = obj"
proof -
  have "unique_on uk_dataset_policy (policies d)" using assms(1) by (simp add: wf_db_def)
  from unique_on_eqI [OF this assms(3) lp_child.get_Inr(1) [OF assms(2)]] assms(4)
    lp_child.get_Inr(2) [OF assms(2)]
  show ?thesis by (simp add: uk_dataset_policy_def)
qed

text \<open>A PATCH changes what it names and nothing else.  After a successful \<open>update_policy\<close>
  the stored policy has, for every field, the old value when the field was omitted and the
  supplied value (a null included) when it was given; its identity, its \<open>enabled\<close> flag and
  \<open>last_run_at\<close> are as before, every other policy is untouched, and if all policies and the
  PATCH respected the schema's limits then all policies still do.\<close>

theorem patch_policy_exact:
  assumes "wf_db d" and "update_policy cx ds name q d = (Inr p', d')"
  shows "\<exists>p\<in>set (policies d). p' \<in> set (policies d') \<and> (lp_dataset p, lp_name p) = (ds, name)
    \<and> set (policies d') - {p'} \<subseteq> set (policies d)
    \<and> lp_ttl_days p' = (case pp_ttl_days q of None \<Rightarrow> lp_ttl_days p | Some v \<Rightarrow> v)
    \<and> lp_tier_rules p' = (case pp_tier_rules q of None \<Rightarrow> lp_tier_rules p | Some v \<Rightarrow> v)
    \<and> lp_compaction_threshold p' =
        (case pp_compaction_threshold q of None \<Rightarrow> lp_compaction_threshold p | Some v \<Rightarrow> v)
    \<and> lp_index_optimize_cron p' =
        (case pp_index_optimize_cron q of None \<Rightarrow> lp_index_optimize_cron p | Some v \<Rightarrow> v)
    \<and> Some (lp_watch_enabled p') = (case pp_watch_enabled q of None \<Rightarrow> Some (lp_watch_enabled p) | Some v \<Rightarrow> v)
    \<and> lp_id p' = lp_id p \<and> lp_enabled p' = lp_enabled p \<and> lp_last_run_at p' = lp_last_run_at p
    \<and> (policies_ok d \<and> valid_policy_patch q \<longrightarrow> policies_ok d')"
proof -
  obtain p where p: "get_policy cx ds name d = Inr p"
    using assms(2) by (auto simp: update_policy_def split: sum.splits)
  have key: "p \<in> set (policies d)" "(lp_dataset p, lp_name p) = (ds, name)"
    using lp_child.get_Inr(1,2) [OF p] by (simp_all add: uk_dataset_policy_def)
  obtain w where w: "p' = patch_policy q w p" "d' = upd_policy (ds, name) (patch_policy q w) d"
      "Some w = (case pp_watch_enabled q of None \<Rightarrow> Some (lp_watch_enabled p) | Some v \<Rightarrow> v)"
    using assms(2) p by (auto simp: update_policy_def split: option.splits)
  have only: "x = p" if "x \<in> set (policies d)" "(lp_dataset x, lp_name x) = (ds, name)" for x
    by (rule policy_by_key [OF assms(1) p that])
  have rows: "policies d' = upd_where (\<lambda>p. (lp_dataset p, lp_name p) = (ds, name)) (patch_policy q w) (policies d)"
    by (simp add: w(2) upd_policy_def)
  have image: "x \<in> set (policies d) \<or> x = p'" if x: "x \<in> set (policies d')" for x
  proof -
    obtain y where y: "y \<in> set (policies d)"
        "x = (if (lp_dataset y, lp_name y) = (ds, name) then patch_policy q w y else y)"
      using x rows by (auto simp only: upd_where_in)
    then show ?thesis using only [OF y(1)] w(1) by (cases "(lp_dataset y, lp_name y) = (ds, name)") simp_all
  qed
  have "p' \<in> set (policies d')" unfolding rows w(1) by (rule upd_where_hit) (fact key)+
  moreover have "set (policies d') - {p'} \<subseteq> set (policies d)" using image by blast
  moreover have "policies_ok d'" if ok: "policies_ok d" "valid_policy_patch q"
  proof -
    have "wf_policy p'" unfolding w(1) by (rule wf_policy_patch) (use ok key(1) in \<open>simp_all add: policies_ok_def\<close>)
    then show ?thesis using image ok(1) by (auto simp: policies_ok_def)
  qed
  ultimately show ?thesis using key w(3)
    by (intro bexI [of _ p]) (simp_all add: w(1) patch_policy_def patched_def)
qed

definition policy_request0 :: policy_create_request where
  "policy_request0 = \<lparr>pcr_name = ''p'', pcr_tier_rules = None, pcr_ttl_days = Some 7,
     pcr_compaction_threshold = None, pcr_index_optimize_cron = None, pcr_watch_enabled = False,
     pcr_min_unindexed_rows = Some 1000, pcr_min_version_drift = Some 1, pcr_stale_minutes = Some 30,
     pcr_enabled = True\<rparr>"

definition policy0 :: policy_row where
  "policy0 = (new_policy ''u1'' policy_request0 t0)\<lparr>lp_id := 1\<rparr>"

definition clear_ttl :: policy_patch where
  "clear_ttl = \<lparr>pp_tier_rules = None, pp_ttl_days = Some None, pp_compaction_threshold = None,
     pp_index_optimize_cron = None, pp_watch_enabled = None, pp_min_unindexed_rows = None,
     pp_min_version_drift = None, pp_stale_minutes = None\<rparr>"

definition policies0 :: db where
  "policies0 = db0\<lparr>policies := [policy0], next_policy_id := 2\<rparr>"

lemma policies0 [simp]: "policies policies0 = [policy0]" "datasets policies0 = [dataset0]"
  "tasks policies0 = []" "wf_db policies0" "lp_dataset policy0 = ''u1''" "lp_name policy0 = ''p''"
  "lp_enabled policy0" "lp_id policy0 = 1"
  by (simp_all add: policies0_def wf_db_def unique_on_Cons clash_iff policy0_def new_policy_def
      policy_request0_def)

theorem patch_policy_exact_witness:
  "\<exists>p\<in>set (policies policies0). (patch_policy clear_ttl False policy0)
        \<in> set (policies (snd (update_policy acme_cx ''u1'' ''p'' clear_ttl policies0)))
    \<and> lp_ttl_days p = Some 7 \<and> lp_ttl_days (patch_policy clear_ttl False policy0) = None
    \<and> lp_ttl_days (patch_policy clear_ttl False policy0)
        = (case pp_ttl_days clear_ttl of None \<Rightarrow> lp_ttl_days p | Some v \<Rightarrow> v)"
proof -
  have "get_dataset acme_cx ''u1'' policies0 = Inr dataset0" by (simp add: get_dataset_iff)
  then have run: "update_policy acme_cx ''u1'' ''p'' clear_ttl policies0
      = (Inr (patch_policy clear_ttl False policy0), snd (update_policy acme_cx ''u1'' ''p'' clear_ttl policies0))"
    by (simp add: update_policy_def get_policy_def maybe_get_policy_def clear_ttl_def policy0_def
        new_policy_def policy_request0_def)
  have ttl: "lp_ttl_days policy0 = Some 7" "lp_ttl_days (patch_policy clear_ttl False policy0) = None"
    by (simp_all add: policy0_def new_policy_def policy_request0_def patch_policy_def clear_ttl_def)
  from patch_policy_exact [OF policies0(4) run]
  obtain p where p: "p \<in> set (policies policies0)"
      "(patch_policy clear_ttl False policy0) \<in> set (policies (snd (update_policy acme_cx ''u1'' ''p'' clear_ttl policies0)))"
      "lp_ttl_days (patch_policy clear_ttl False policy0)
        = (case pp_ttl_days clear_ttl of None \<Rightarrow> lp_ttl_days p | Some v \<Rightarrow> v)"
    by blast
  from p(1) have "p = policy0" by simp
  with p ttl show ?thesis by blast
qed

end
