(* ===== verification/Rules.thy ===== *)
theory Rules
  imports Policies
begin

text \<open>
  Vectorization rules: \<open>src/lcp/services/vectorization_service.py\<close> with the
  request validators of \<open>src/lcp/schemas/vectorization.py\<close>.  The cross-field rule
  "a SCHEDULED rule has a cron expression" is checked on creation by the schema and
  after the merge by the service.  \<open>source_columns\<close> is a JSON column: an explicit
  null is stored (as JSON null), so the row keeps an option.
\<close>

definition cron_ok :: "trigger_type \<Rightarrow> string option \<Rightarrow> bool" where
  "cron_ok trig cron \<longleftrightarrow> \<not> (trig = SCHEDULED \<and> \<not> truthy cron)"

record rule_create_request =
  rcr_target :: string
  rcr_sources :: "string list"
  rcr_model :: string
  rcr_version :: string
  rcr_endpoint :: "string option"
  rcr_batch :: int
  rcr_trigger :: trigger_type
  rcr_cron :: "string option"
  rcr_enabled :: bool
  rcr_extra :: "params option"

definition valid_rule_request :: "rule_create_request \<Rightarrow> bool" where
  "valid_rule_request q \<longleftrightarrow>
     str_between 1 128 (rcr_target q) \<and> rcr_sources q \<noteq> [] \<and> str_between 1 128 (rcr_model q)
   \<and> str_between 1 64 (rcr_version q) \<and> opt_max 512 (rcr_endpoint q) \<and> 1 \<le> rcr_batch q
   \<and> opt_max 64 (rcr_cron q) \<and> cron_ok (rcr_trigger q) (rcr_cron q)
   \<and> \<not> list_ex (\<lambda>s. strip s = []) (rcr_sources q)"

record rule_patch =
  rp_sources :: "string list option option"
  rp_model :: "string option option"
  rp_version :: "string option option"
  rp_endpoint :: "string option option"
  rp_batch :: "int option option"
  rp_trigger :: "trigger_type option option"
  rp_cron :: "string option option"
  rp_extra :: "params option option"

section \<open>Operations\<close>

definition maybe_get_rule :: "string \<Rightarrow> string \<Rightarrow> db \<Rightarrow> rule_row option res" where
  "maybe_get_rule ds col d =
     one_or_none (filter (\<lambda>r. vr_dataset r = ds \<and> vr_target_column r = col) (rules d))"

definition get_rule :: "rls_ctx \<Rightarrow> string \<Rightarrow> string \<Rightarrow> db \<Rightarrow> rule_row res" where
  "get_rule cx ds col d =
     (case get_dataset cx ds d of
        Inl e \<Rightarrow> Inl e
      | Inr _ \<Rightarrow>
          (case maybe_get_rule ds col d of
             Inl e \<Rightarrow> Inl e
           | Inr None \<Rightarrow> Inl (RuleNotFoundError ds col)
           | Inr (Some obj) \<Rightarrow> Inr obj))"

definition new_rule :: "string \<Rightarrow> rule_create_request \<Rightarrow> datetime \<Rightarrow> rule_row" where
  "new_rule ds q now =
     \<lparr>vr_id = 0, vr_dataset = ds, vr_target_column = rcr_target q,
      vr_source_columns = Some (rcr_sources q), vr_model_name = rcr_model q,
      vr_model_version = rcr_version q, vr_model_endpoint = rcr_endpoint q,
      vr_batch_size = rcr_batch q, vr_trigger_type = rcr_trigger q, vr_cron_expr = rcr_cron q,
      vr_enabled = rcr_enabled q, vr_extra = rcr_extra q, vr_created_at = now\<rparr>"

definition create_rule ::
  "rls_ctx \<Rightarrow> string \<Rightarrow> rule_create_request \<Rightarrow> datetime \<Rightarrow> db \<Rightarrow> rule_row res \<times> db" where
  "create_rule cx ds q now d =
     (case get_dataset cx ds d of
        Inl e \<Rightarrow> (Inl e, d)
      | Inr _ \<Rightarrow>
          (case insert_rule (new_rule ds q now) d of
             Inl _ \<Rightarrow> (Inl (RuleAlreadyExistsError ds (rcr_target q)), d)
           | Inr d' \<Rightarrow> (Inr ((new_rule ds q now)\<lparr>vr_id := next_rule_id d\<rparr>), d')))"

definition list_rules :: "rls_ctx \<Rightarrow> string \<Rightarrow> db \<Rightarrow> (rule_row list \<times> nat) res" where
  "list_rules cx ds d =
     (case get_dataset cx ds d of
        Inl e \<Rightarrow> Inl e
      | Inr _ \<Rightarrow>
          let items = newest_first vr_created_at (filter (\<lambda>r. vr_dataset r = ds) (rules d))
          in Inr (items, length items))"

definition upd_rule :: "string \<times> string \<Rightarrow> (rule_row \<Rightarrow> rule_row) \<Rightarrow> db \<Rightarrow> db" where
  "upd_rule k f d = d\<lparr>rules := upd_where (\<lambda>r. (vr_dataset r, vr_target_column r) = k) f (rules d)\<rparr>"

definition delete_rule_row :: "string \<times> string \<Rightarrow> db \<Rightarrow> db" where
  "delete_rule_row k d = d\<lparr>rules := filter (\<lambda>r. (vr_dataset r, vr_target_column r) \<noteq> k) (rules d)\<rparr>"

text \<open>
  The merge of a PATCH into the loaded row.  \<open>model_name\<close>, \<open>model_version\<close>,
  \<open>batch_size\<close> and \<open>trigger_type\<close> are NOT NULL columns: the row keeps its own
  value here and \<open>null_in_not_null\<close> says whether the UPDATE will fail.
\<close>

definition patched_not_null :: "'a \<Rightarrow> 'a option option \<Rightarrow> 'a" where
  "patched_not_null old x = (case x of Some (Some v) \<Rightarrow> v | _ \<Rightarrow> old)"

definition null_in_not_null :: "rule_patch \<Rightarrow> bool" where
  "null_in_not_null q \<longleftrightarrow> rp_model q = Some None \<or> rp_version q = Some None
     \<or> rp_batch q = Some None \<or> rp_trigger q = Some None"

definition patch_rule :: "rule_patch \<Rightarrow> rule_row \<Rightarrow> rule_row" where
  "patch_rule q r =
     r\<lparr>vr_source_columns := patched (vr_source_columns r) (rp_sources q),
       vr_model_name := patched_not_null (vr_model_name r) (rp_model q),
       vr_model_version := patched_not_null (vr_model_version r) (rp_version q),
       vr_model_endpoint := patched (vr_model_endpoint r) (rp_endpoint q),
       vr_batch_size := patched_not_null (vr_batch_size r) (rp_batch q),
       vr_trigger_type := patched_not_null (vr_trigger_type r) (rp_trigger q),
       vr_cron_expr := patched (vr_cron_expr r) (rp_cron q),
       vr_extra := patched (vr_extra r) (rp_extra q)\<rparr>"

text \<open>A null \<open>trigger_type\<close> is not \<open>"SCHEDULED"\<close>, so it passes the cron check.\<close>

definition update_rule ::
  "rls_ctx \<Rightarrow> string \<Rightarrow> string \<Rightarrow> rule_patch \<Rightarrow> db \<Rightarrow> rule_row res \<times> db" where
  "update_rule cx ds col q d =
     (case get_rule cx ds col d of
        Inl e \<Rightarrow> (Inl e, d)
      | Inr obj \<Rightarrow>
          let merged = patch_rule q obj in
          if rp_trigger q \<noteq> Some None \<and> \<not> cron_ok (vr_trigger_type merged) (vr_cron_expr merged)
          then (Inl RuleValidationError, d)
          else if null_in_not_null q then (Inl IntegrityError, d)
          else (Inr merged, upd_rule (ds, col) (patch_rule q) d))"

definition delete_rule :: "rls_ctx \<Rightarrow> string \<Rightarrow> string \<Rightarrow> db \<Rightarrow> unit res \<times> db" where
  "delete_rule cx ds col d =
     (case get_rule cx ds col d of
        Inl e \<Rightarrow> (Inl e, d)
      | Inr _ \<Rightarrow> (Inr (), delete_rule_row (ds, col) d))"

definition set_rule_enabled ::
  "rls_ctx \<Rightarrow> string \<Rightarrow> string \<Rightarrow> bool \<Rightarrow> db \<Rightarrow> rule_row res \<times> db" where
  "set_rule_enabled cx ds col en d =
     (case get_rule cx ds col d of
        Inl e \<Rightarrow> (Inl e, d)
      | Inr obj \<Rightarrow>
          if vr_enabled obj \<noteq> en
          then (Inr (obj\<lparr>vr_enabled := en\<rparr>), upd_rule (ds, col) (\<lambda>r. r\<lparr>vr_enabled := en\<rparr>) d)
          else (Inr obj, d))"

definition vectorize_key :: "string \<Rightarrow> string \<Rightarrow> nat \<Rightarrow> string" where
  "vectorize_key ds col i = ''vectorize:'' @ ds @ ''/'' @ col @ '':'' @ dec_nat i"

definition submit_vectorize_task ::
  "rls_ctx \<Rightarrow> string \<Rightarrow> string \<Rightarrow> string \<Rightarrow> datetime \<Rightarrow> (db \<Rightarrow> db) \<Rightarrow> db \<Rightarrow> (task_row \<times> bool) res \<times> db" where
  "submit_vectorize_task cx ds col uuid now other d =
     (case get_rule cx ds col d of
        Inl e \<Rightarrow> (Inl e, d)
      | Inr rule \<Rightarrow>
          if \<not> vr_enabled rule then (Inl (RuleDisabledError col), d)
          else submit_task cx
            \<lparr>sa_type = VECTORIZE, sa_dataset = ds, sa_priority = 5,
             sa_params = Some [(''vectorization_rule_id'', JInt (int (vr_id rule)))],
             sa_key = Some (vectorize_key ds col (vr_id rule)), sa_max_attempts = 3\<rparr>
            uuid now other d)"

interpretation vr_child: guarded_child rules uk_dataset_target get_rule RuleNotFoundError
proof
  show "get_rule cx u n d = Inl e" if "get_dataset cx u d = Inl e" for cx u d e n
    using that by (simp add: get_rule_def)
  show "get_rule cx u n d =
      (case one_or_none (filter (\<lambda>c. uk_dataset_target c = Some (u, n)) (rules d)) of
         Inl e \<Rightarrow> Inl e | Inr None \<Rightarrow> Inl (RuleNotFoundError u n) | Inr (Some c) \<Rightarrow> Inr c)"
    if "get_dataset cx u d = Inr ds" for cx u d ds n
    using that by (simp add: get_rule_def maybe_get_rule_def uk_dataset_target_def)
  show "unique_on uk_dataset_target (rules d)" if "wf_db d" for d
    using that by (simp add: wf_db_def)
qed

section \<open>Lemmas\<close>

definition cron_invariant :: "db \<Rightarrow> bool" where
  "cron_invariant d \<longleftrightarrow> (\<forall>r\<in>set (rules d). cron_ok (vr_trigger_type r) (vr_cron_expr r))"

lemma patch_rule_key [simp]:
  "vr_dataset (patch_rule q r) = vr_dataset r"
  "vr_target_column (patch_rule q r) = vr_target_column r" "vr_id (patch_rule q r) = vr_id r"
  by (simp_all add: patch_rule_def)

lemma rule_by_key:
  assumes "wf_db d" and "get_rule cx ds col d = Inr obj" and "r \<in> set (rules d)"
    and "(vr_dataset r, vr_target_column r) = (ds, col)"
  shows "r = obj"
proof -
  have "unique_on uk_dataset_target (rules d)" using assms(1) by (simp add: wf_db_def)
  from unique_on_eqI [OF this assms(3) vr_child.get_Inr(1) [OF assms(2)]] assms(4)
    vr_child.get_Inr(2) [OF assms(2)]
  show ?thesis by (simp add: uk_dataset_target_def)
qed

lemma good_step_upd_rule:
  assumes "\<And>i. vr_dataset (f i) = vr_dataset i \<and> vr_target_column (f i) = vr_target_column i"
  shows "good_step d (upd_rule k f d)"
proof (rule good_step_same_tasks)
  show "wf_db d \<Longrightarrow> wf_db (upd_rule k f d)"
    unfolding upd_rule_def by (rule wf_upd_rules) (simp_all add: uk_defs assms)
qed (simp add: upd_rule_def)

lemma create_rule_good: "good_step d (snd (create_rule cx ds q now d))"
proof (cases "\<exists>d'. insert_rule (new_rule ds q now) d = Inr d'")
  case True
  then obtain d' where ins: "insert_rule (new_rule ds q now) d = Inr d'" by blast
  have "good_step d d'"
  proof (rule good_step_same_tasks)
    show "wf_db d \<Longrightarrow> wf_db d'" by (rule wf_insert_rule [OF _ ins])
    show "tasks d' = tasks d" using ins by (auto simp: insert_rule_def split: if_splits)
  qed
  then show ?thesis using ins by (simp add: create_rule_def split: sum.split)
qed (auto simp: create_rule_def split: sum.splits)

lemma update_rule_good: "good_step d (snd (update_rule cx ds col q d))"
  by (auto simp: update_rule_def Let_def split: sum.split intro: good_step_upd_rule)

lemma delete_rule_good: "good_step d (snd (delete_rule cx ds col d))"
proof -
  have "good_step d (delete_rule_row (ds, col) d)"
    by (rule good_step_same_tasks) (simp_all add: wf_db_def delete_rule_row_def unique_on_filter)
  then show ?thesis by (auto simp: delete_rule_def split: sum.split)
qed

lemma set_rule_enabled_good: "good_step d (snd (set_rule_enabled cx ds col en d))"
  by (auto simp: set_rule_enabled_def split: sum.split intro: good_step_upd_rule)

lemma submit_vectorize_good:
  "keeps_db other \<Longrightarrow> good_step d (snd (submit_vectorize_task cx ds col uuid now other d))"
  by (auto simp: submit_vectorize_task_def split: sum.split intro: submit_task_good)

section \<open>Properties\<close>

text \<open>C40: no stored rule is SCHEDULED without a cron expression.  Creation through a valid
  request, any PATCH whatever fields it sets or clears, enabling, disabling and deleting all
  keep that invariant; a PATCH that would break it raises and changes nothing.\<close>

theorem scheduled_rules_have_cron:
  assumes "cron_invariant d" and "wf_db d"
    and "valid_rule_request q \<and> create_rule cx ds q now d = (r, d')
       \<or> update_rule cx ds col patch d = (r, d')
       \<or> set_rule_enabled cx ds col en d = (r, d') \<or> delete_rule cx ds col d = (r', d')"
  shows "cron_invariant d'"
proof -
  have upd: "cron_invariant (upd_rule k f d)"
    if "\<And>x. x \<in> set (rules d) \<Longrightarrow> (vr_dataset x, vr_target_column x) = k \<Longrightarrow>
          cron_ok (vr_trigger_type (f x)) (vr_cron_expr (f x))" for k f
    using assms(1) that by (auto simp: cron_invariant_def upd_rule_def upd_where_in)
  consider "d' = d" | "valid_rule_request q" "insert_rule (new_rule ds q now) d = Inr d'"
    | obj where "get_rule cx ds col d = Inr obj" "cron_ok (vr_trigger_type (patch_rule patch obj))
        (vr_cron_expr (patch_rule patch obj))" "d' = upd_rule (ds, col) (patch_rule patch) d"
    | "d' = upd_rule (ds, col) (\<lambda>r. r\<lparr>vr_enabled := en\<rparr>) d" | "d' = delete_rule_row (ds, col) d"
    using assms(3)
    by (auto simp: create_rule_def update_rule_def set_rule_enabled_def delete_rule_def
        null_in_not_null_def Let_def split: sum.splits if_splits)
  then show ?thesis
  proof cases
    case 2
    then show ?thesis using assms(1)
      by (auto simp: cron_invariant_def insert_rule_def new_rule_def valid_rule_request_def split: if_splits)
  next
    case (3 obj)
    have "x = obj" if "x \<in> set (rules d)" "(vr_dataset x, vr_target_column x) = (ds, col)" for x
      by (rule rule_by_key [OF assms(2) 3(1) that])
    then show ?thesis unfolding 3(3) using 3(2) by (intro upd) blast
  next
    case 4
    show ?thesis unfolding 4 by (rule upd) (use assms(1) in \<open>simp add: cron_invariant_def\<close>)
  next
    case 5
    then show ?thesis using assms(1) by (auto simp: cron_invariant_def delete_rule_row_def)
  qed (use assms(1) in simp)
qed

definition rule_request0 :: rule_create_request where
  "rule_request0 = \<lparr>rcr_target = ''vec'', rcr_sources = [''body''], rcr_model = ''m'', rcr_version = ''1'',
     rcr_endpoint = None, rcr_batch = 64, rcr_trigger = SCHEDULED, rcr_cron = Some ''0 * * * *'',
     rcr_enabled = True, rcr_extra = None\<rparr>"

definition drop_cron :: rule_patch where
  "drop_cron = \<lparr>rp_sources = None, rp_model = None, rp_version = None, rp_endpoint = None, rp_batch = None,
     rp_trigger = None, rp_cron = Some None, rp_extra = None\<rparr>"

definition rules0 :: db where
  "rules0 = db0\<lparr>rules := [(new_rule ''u1'' rule_request0 t0)\<lparr>vr_id := 1\<rparr>], next_rule_id := 2\<rparr>"

theorem scheduled_rules_have_cron_witness:
  "cron_invariant (snd (update_rule acme_cx ''u1'' ''vec'' drop_cron rules0))"
proof (rule scheduled_rules_have_cron)
  show "cron_invariant rules0"
    by (simp add: cron_invariant_def rules0_def new_rule_def rule_request0_def cron_ok_def truthy_def)
  show "wf_db rules0" by (simp add: rules0_def wf_db_def unique_on_Cons clash_iff)
  show "valid_rule_request rule_request0 \<and> create_rule acme_cx ''u1'' rule_request0 t0 rules0
        = (fst (update_rule acme_cx ''u1'' ''vec'' drop_cron rules0),
           snd (update_rule acme_cx ''u1'' ''vec'' drop_cron rules0))
      \<or> update_rule acme_cx ''u1'' ''vec'' drop_cron rules0
        = (fst (update_rule acme_cx ''u1'' ''vec'' drop_cron rules0),
           snd (update_rule acme_cx ''u1'' ''vec'' drop_cron rules0))
      \<or> set_rule_enabled acme_cx ''u1'' ''vec'' True rules0
        = (fst (update_rule acme_cx ''u1'' ''vec'' drop_cron rules0),
           snd (update_rule acme_cx ''u1'' ''vec'' drop_cron rules0))
      \<or> delete_rule acme_cx ''u1'' ''vec'' rules0
        = (Inr (), snd (update_rule acme_cx ''u1'' ''vec'' drop_cron rules0))"
    by simp
qed

text \<open>\<open>vectorize-now\<close> runs a rule once.  Its idempotency key names only the dataset, the
  column and the rule's id, so after the first request every later one, even after the task has
  succeeded, failed or been cancelled, is answered with that first task and enqueues nothing.\<close>

theorem vectorize_now_runs_once:
  assumes "wf_db d" and "submit_vectorize_task cx ds col uuid now (\<lambda>x. x) d = (Inr (t, True), d1)"
    and "get_rule cx ds col d = Inr rule" and "tasks_evolve\<^sup>*\<^sup>* d1 d2" and "wf_db d2"
    and "get_rule cx ds col d2 = Inr rule2" and "vr_id rule2 = vr_id rule" and "vr_enabled rule2"
  shows "\<exists>t'. submit_vectorize_task cx ds col uuid2 now2 other d2 = (Inr (t', False), d2) \<and> same_identity t t'"
proof -
  define args where "args = \<lparr>sa_type = VECTORIZE, sa_dataset = ds, sa_priority = 5,
      sa_params = Some [(''vectorization_rule_id'', JInt (int (vr_id rule)))],
      sa_key = Some (vectorize_key ds col (vr_id rule)), sa_max_attempts = 3\<rparr>"
  have first: "submit_task cx args uuid now (\<lambda>x. x) d = (Inr (t, True), d1)"
    using assms(2,3) by (simp add: submit_vectorize_task_def args_def split: if_splits)
  have key: "sa_key args = Some (vectorize_key ds col (vr_id rule))" by (simp add: args_def)
  from submit_replay [OF assms(1) first key assms(4,5) refl key, of uuid2 now2 other]
  show ?thesis using assms(6-8) by (simp add: submit_vectorize_task_def args_def)
qed

theorem vectorize_now_runs_once_witness:
  "\<exists>t t'. submit_vectorize_task acme_cx ''u1'' ''vec'' ''x'' t0 (\<lambda>x. x)
       (snd (submit_vectorize_task acme_cx ''u1'' ''vec'' ''a'' t0 (\<lambda>x. x) rules0))
     = (Inr (t', False), snd (submit_vectorize_task acme_cx ''u1'' ''vec'' ''a'' t0 (\<lambda>x. x) rules0))
   \<and> same_identity t t'"
proof -
  define rule where "rule = (new_rule ''u1'' rule_request0 t0)\<lparr>vr_id := 1\<rparr>"
  have wf: "wf_db rules0" by (simp add: rules0_def wf_db_def unique_on_Cons clash_iff)
  have get: "get_rule acme_cx ''u1'' ''vec'' x = Inr rule" if "datasets x = datasets rules0"
      "rules x = rules0_rules" "rules0_rules = rules rules0" "wf_db x" for x rules0_rules
  proof -
    have "get_dataset acme_cx ''u1'' x = Inr dataset0"
      using that by (simp add: get_dataset_iff [OF that(4)] rules0_def)
    then show ?thesis using that
      by (simp add: get_rule_def maybe_get_rule_def rules0_def rule_def new_rule_def rule_request0_def)
  qed
  let ?run = "submit_vectorize_task acme_cx ''u1'' ''vec'' ''a'' t0 (\<lambda>x. x) rules0"
  have en: "vr_enabled rule" by (simp add: rule_def new_rule_def rule_request0_def)
  have keys: "tasks rules0 = []" by (simp add: rules0_def)
  obtain t where run: "?run = (Inr (t, True), snd ?run)"
    and same: "datasets (snd ?run) = datasets rules0" "rules (snd ?run) = rules rules0"
    using get [OF refl refl refl wf] en keys
    by (auto simp: submit_vectorize_task_def submit_task_def require_current_tenant_def scoped_key_def
        select_by_key_def rls_task insert_task_def clash_iff Let_def)
  have "good_step rules0 (snd ?run)" by (rule submit_vectorize_good) simp
  then have wf2: "wf_db (snd ?run)" using wf keys by (simp add: good_step_def wf_tasks_def)
  from vectorize_now_runs_once [OF wf run get [OF refl refl refl wf] rtranclp.rtrancl_refl wf2
      get [OF same(1) same(2) refl wf2] refl en]
  show ?thesis by blast
qed

end
