(* ===== verification/Gravitino.thy ===== *)
theory Gravitino
  imports DataPlane Tenancy
begin

text \<open>
  The Gravitino catalog: the REST client and the property mapping of
  \<open>src/lcp/integrations/gravitino/\<close>, the executors' best-effort push
  (\<open>src/lcp/workers/executors/_gravitino_push.py\<close>) and the reconciliation service
  \<open>src/lcp/services/meta_sync_service.py\<close>.  The HTTP transport is a parameter: a request
  yields a response, or raises, and may change the remote state \<open>'w\<close>.  The documented
  payload of Gravitino names things with texts; any other JSON value in such a place is
  answered with \<open>TypeError\<close>.
\<close>

section \<open>The client\<close>

record http_response =
  rs_status :: int
  rs_text :: string
  rs_json :: "json res"

text \<open>Method, URL, headers and JSON body of a request.\<close>

type_synonym 'w http = "string \<Rightarrow> string \<Rightarrow> (string \<times> string) list \<Rightarrow> json option \<Rightarrow> ('w, http_response) io"

record fileset =
  fs_name :: json
  fs_schema_name :: string
  fs_storage_location :: "string option"
  fs_comment :: "string option"
  fs_type :: json
  fs_properties :: json

definition gc_base_url :: "settings \<Rightarrow> string" where
  "gc_base_url s = rstrip_char (CHR ''/'') (gravitino_url s)"

definition gc_enabled :: "settings \<Rightarrow> bool" where
  "gc_enabled s \<longleftrightarrow> gc_base_url s \<noteq> []"

definition require_enabled :: "settings \<Rightarrow> ('w, unit) io" where
  "require_enabled s = (if \<not> gc_enabled s then io_raise GravitinoDisabledError else io_return ())"

definition gc_headers :: "settings \<Rightarrow> (string \<times> string) list" where
  "gc_headers s =
     [(''Accept'', ''application/json'')]
     @ (if gravitino_auth_token s \<noteq> [] then [(''Authorization'', ''Bearer '' @ gravitino_auth_token s)] else [])"

definition catalog_base :: "settings \<Rightarrow> string" where
  "catalog_base s =
     gc_base_url s @ ''/api/metalakes/'' @ gravitino_metalake s @ ''/catalogs/'' @ gravitino_catalog s @ ''/schemas''"

definition schema_base :: "settings \<Rightarrow> string \<Rightarrow> string" where
  "schema_base s schema = catalog_base s @ ''/'' @ schema @ ''/filesets''"

definition check_response :: "http_response \<Rightarrow> unit res" where
  "check_response r =
     (if 200 \<le> rs_status r \<and> rs_status r \<le> 299 then Inr ()
      else Inl (GravitinoAPIError (rs_status r)
                 (if rs_text r \<noteq> [] then take 500 (rs_text r) else ''HTTP '' @ dec_int (rs_status r))))"

definition gc_request ::
  "'w http \<Rightarrow> settings \<Rightarrow> string \<Rightarrow> string \<Rightarrow> json option \<Rightarrow> ('w, http_response) io" where
  "gc_request http s method url body =
     io_bind (require_enabled s) (\<lambda>_.
     io_bind (http method url (gc_headers s) body) (\<lambda>r.
     io_bind (io_res (check_response r)) (\<lambda>_. io_return r)))"

text \<open>\<open>ident["name"] for ident in identifiers if "name" in ident\<close>.\<close>

fun ident_names :: "json list \<Rightarrow> string list res" where
  "ident_names [] = Inr []"
| "ident_names (JObj kvs # ids) =
     (case map_of kvs ''name'' of
        None \<Rightarrow> ident_names ids
      | Some (JStr n) \<Rightarrow> (case ident_names ids of Inl e \<Rightarrow> Inl e | Inr ns \<Rightarrow> Inr (n # ns))
      | Some _ \<Rightarrow> Inl TypeError)"
| "ident_names (JStr s # ids) = (if contains s ''name'' then Inl TypeError else ident_names ids)"
| "ident_names (JList xs # ids) =
     (if List.member xs (JStr ''name'') then Inl TypeError else ident_names ids)"
| "ident_names (_ # ids) = Inl TypeError"

definition identifiers :: "json res \<Rightarrow> string list res" where
  "identifiers body =
     (case body of
        Inl e \<Rightarrow> Inl e
      | Inr v \<Rightarrow>
          (case as_dict v of
             Inl e \<Rightarrow> Inl e
           | Inr data \<Rightarrow>
               (case iter_json (py_or (get_or data ''identifiers'' JNull) (JList [])) of
                  Inl e \<Rightarrow> Inl e
                | Inr ids \<Rightarrow> ident_names ids)))"

definition gc_ping :: "'w http \<Rightarrow> settings \<Rightarrow> ('w, json) io" where
  "gc_ping http s =
     io_bind (gc_request http s ''GET'' (gc_base_url s @ ''/api/version'') None) (\<lambda>r. io_res (rs_json r))"

definition gc_list_filesets :: "'w http \<Rightarrow> settings \<Rightarrow> string \<Rightarrow> ('w, string list) io" where
  "gc_list_filesets http s schema =
     io_bind (gc_request http s ''GET'' (schema_base s schema) None) (\<lambda>r. io_res (identifiers (rs_json r)))"

definition gc_list_schemas :: "'w http \<Rightarrow> settings \<Rightarrow> ('w, string list) io" where
  "gc_list_schemas http s =
     io_bind (gc_request http s ''GET'' (catalog_base s) None) (\<lambda>r. io_res (identifiers (rs_json r)))"

definition opt_text :: "json \<Rightarrow> string option res" where
  "opt_text v = (case v of JNull \<Rightarrow> Inr None | JStr s \<Rightarrow> Inr (Some s) | _ \<Rightarrow> Inl TypeError)"

definition parse_fileset :: "string \<Rightarrow> string \<Rightarrow> json \<Rightarrow> fileset res" where
  "parse_fileset schema name body =
     (case as_dict body of
        Inl e \<Rightarrow> Inl e
      | Inr outer \<Rightarrow>
          (case as_dict (get_or outer ''fileset'' body) of
             Inl e \<Rightarrow> Inl e
           | Inr data \<Rightarrow>
               (case (opt_text (get_or data ''storageLocation'' (JStr [])),
                      opt_text (get_or data ''comment'' JNull)) of
                  (Inr loc, Inr c) \<Rightarrow>
                    Inr \<lparr>fs_name = get_or data ''name'' (JStr name), fs_schema_name = schema,
                         fs_storage_location = loc, fs_comment = c,
                         fs_type = get_or data ''type'' (JStr ''MANAGED''),
                         fs_properties = get_or data ''properties'' (JObj [])\<rparr>
                | _ \<Rightarrow> Inl TypeError)))"

definition gc_get_fileset :: "'w http \<Rightarrow> settings \<Rightarrow> string \<Rightarrow> string \<Rightarrow> ('w, fileset) io" where
  "gc_get_fileset http s schema name =
     io_bind (gc_request http s ''GET'' (schema_base s schema @ ''/'' @ name) None) (\<lambda>r.
     io_res (case rs_json r of Inl e \<Rightarrow> Inl e | Inr body \<Rightarrow> parse_fileset schema name body))"

definition gc_set_properties ::
  "'w http \<Rightarrow> settings \<Rightarrow> string \<Rightarrow> string \<Rightarrow> (string \<times> string) list \<Rightarrow> ('w, unit) io" where
  "gc_set_properties http s schema name properties =
     io_bind (gc_request http s ''PUT'' (schema_base s schema @ ''/'' @ name)
       (Some (JObj [(''updates'', JList (map (\<lambda>(k, v).
          JObj [(''@type'', JStr ''setProperty''), (''property'', JStr k), (''value'', JStr v)])
          properties))]))) (\<lambda>_. io_return ())"

text \<open>The process-wide client is determined by the settings it was first built from.\<close>

definition get_gravitino_client :: "settings \<Rightarrow> settings option \<Rightarrow> settings \<times> settings option" where
  "get_gravitino_client current client =
     (case client of None \<Rightarrow> (current, Some current) | Some s \<Rightarrow> (s, client))"

definition reset_gravitino_client :: "settings option \<Rightarrow> settings option" where
  "reset_gravitino_client client = None"

section \<open>The property mapping\<close>

text \<open>A \<open>NUMERIC(5,4)\<close> in fixed-point notation, \<open>format(d, "f")\<close>.\<close>

definition format_decimal :: "rat \<Rightarrow> string" where
  "format_decimal x =
     (let n = nat \<bar>\<lfloor>x * 10000\<rfloor>\<bar>
      in (if x < 0 then ''-'' else []) @ dec_nat (n div 10000) @ ''.'' @ pad 4 (n mod 10000))"

definition format_iso_utc :: "datetime option \<Rightarrow> string" where
  "format_iso_utc v = (case v of None \<Rightarrow> [] | Some t \<Rightarrow> isoformat t @ ''+00:00'')"

definition dataset_to_property_patch :: "dataset_row \<Rightarrow> datetime \<Rightarrow> (string \<times> string) list" where
  "dataset_to_property_patch d now =
     [(''lcp.dataset_uuid'', ds_uuid d), (''lcp.tenant_id'', ds_tenant d),
      (''lcp.status'', dataset_status_str (ds_status d)),
      (''lcp.row_count'', dec_int (ds_row_count d)),
      (''lcp.fragment_count'', dec_int (ds_fragment_count d)),
      (''lcp.index_coverage'', format_decimal (ds_index_coverage d)),
      (''lcp.latest_version'', dec_int (ds_latest_version d)),
      (''lcp.synced_at'', isoformat now @ ''+00:00'')]"

definition index_property_keys :: "string \<Rightarrow> string \<times> string \<times> string" where
  "index_property_keys name =
     (let base = ''lcp.'' @ ''index.'' @ name
      in (base @ ''.state'', base @ ''.column'', base @ ''.last_optimized_at''))"

definition index_to_property_patch ::
  "string \<Rightarrow> string \<Rightarrow> string \<Rightarrow> datetime option \<Rightarrow> (string \<times> string) list" where
  "index_to_property_patch name state column last_optimized_at =
     (let (state_key, column_key, last_key) = index_property_keys name
      in [(state_key, state), (column_key, column), (last_key, format_iso_utc last_optimized_at)])"

record dataset_patch =
  dp_storage_uri :: "string option"
  dp_description :: "string option"
  dp_description_present :: bool

definition patch_is_empty :: "dataset_patch \<Rightarrow> bool" where
  "patch_is_empty p \<longleftrightarrow> dp_storage_uri p = None \<and> \<not> dp_description_present p"

definition patch_apply :: "dataset_patch \<Rightarrow> dataset_row \<Rightarrow> bool \<times> dataset_row" where
  "patch_apply p d =
     (let c1 = (case dp_storage_uri p of None \<Rightarrow> False | Some u \<Rightarrow> ds_storage_uri d \<noteq> u);
          d1 = (if c1 then d\<lparr>ds_storage_uri := the (dp_storage_uri p)\<rparr> else d);
          c2 = (dp_description_present p \<and> ds_description d1 \<noteq> dp_description p);
          d2 = (if c2 then d1\<lparr>ds_description := dp_description p\<rparr> else d1)
      in (c1 \<or> c2, d2))"

text \<open>
  \<open>fileset_to_dataset_patch\<close> reads \<open>fileset.raw\<close>, an attribute that \<open>Fileset\<close>, a frozen
  dataclass without it, does not have.
\<close>

definition fileset_to_dataset_patch :: "fileset \<Rightarrow> dataset_patch res" where
  "fileset_to_dataset_patch f = Inl (OtherError ''AttributeError'')"

section \<open>The executors' push\<close>

text \<open>
  \<open>push_index_properties\<close>.  \<open>push\<close> is \<open>GravitinoClient.from_settings\<close> with
  \<open>set_fileset_properties\<close> and \<open>is_gravitino_error\<close> the class \<open>GravitinoError\<close>: the client
  module of this repository defines none of the three, so they are parameters.
\<close>

type_synonym 'w pusher = "settings \<Rightarrow> string \<Rightarrow> string \<Rightarrow> (string \<times> string) list \<Rightarrow> ('w, unit) io"

definition push_index_properties ::
  "'w pusher \<Rightarrow> (lcp_error \<Rightarrow> bool) \<Rightarrow> settings \<Rightarrow> string \<Rightarrow> string \<Rightarrow> string \<Rightarrow> string \<Rightarrow> string
     \<Rightarrow> datetime option \<Rightarrow> ('w, bool) io" where
  "push_index_properties push is_gravitino_error s schema table name state column optimized w =
     (if gravitino_url s = [] then (Inr False, w)
      else case push s schema table (index_to_property_patch name state column optimized) w of
             (Inr _, w') \<Rightarrow> (Inr True, w')
           | (Inl e, w') \<Rightarrow> if is_gravitino_error e then (Inr False, w') else (Inl e, w'))"

section \<open>Reconciliation\<close>

record meta_sync_result =
  ms_schemas_scanned :: nat
  ms_discovered :: nat
  ms_created :: nat
  ms_updated :: nat
  ms_errors :: "(string \<times> lcp_error) list"

definition empty_sync :: meta_sync_result where
  "empty_sync = \<lparr>ms_schemas_scanned = 0, ms_discovered = 0, ms_created = 0, ms_updated = 0, ms_errors = []\<rparr>"

text \<open>
  The session: the rows as this transaction sees them, and the rows added but not yet
  flushed, \<open>None\<close> for one whose null \<open>storage_uri\<close> the NOT NULL constraint will
  refuse.  Every SELECT and the commit flush first.
\<close>

record sync_state =
  sy_work :: db
  sy_pending :: "dataset_row option list"
  sy_fresh :: nat
  sy_result :: meta_sync_result

fun flush_datasets :: "dataset_row option list \<Rightarrow> db \<Rightarrow> db res" where
  "flush_datasets [] d = Inr d"
| "flush_datasets (None # rs) d = Inl IntegrityError"
| "flush_datasets (Some r # rs) d =
     (case insert_dataset r d of Inl e \<Rightarrow> Inl e | Inr d' \<Rightarrow> flush_datasets rs d')"

definition sync_match :: "string \<Rightarrow> string \<Rightarrow> string \<Rightarrow> string \<Rightarrow> dataset_row \<Rightarrow> bool" where
  "sync_match catalog schema name tenant r \<longleftrightarrow>
     ds_catalog r = catalog \<and> ds_schema r = schema \<and> ds_table r = name \<and> ds_tenant r = tenant"

text \<open>What the pulled fileset changes of an existing row; a NULL or empty value changes nothing.\<close>

definition uri_diverges :: "fileset \<Rightarrow> dataset_row \<Rightarrow> bool" where
  "uri_diverges f r \<longleftrightarrow>
     (case fs_storage_location f of None \<Rightarrow> False | Some u \<Rightarrow> u \<noteq> [] \<and> ds_storage_uri r \<noteq> u)"

definition comment_diverges :: "fileset \<Rightarrow> dataset_row \<Rightarrow> bool" where
  "comment_diverges f r \<longleftrightarrow>
     (case fs_comment f of None \<Rightarrow> False | Some c \<Rightarrow> c \<noteq> [] \<and> ds_description r \<noteq> Some c)"

definition pulled :: "fileset \<Rightarrow> dataset_row \<Rightarrow> dataset_row" where
  "pulled f r =
     (let r1 = (if uri_diverges f r then r\<lparr>ds_storage_uri := the (fs_storage_location f)\<rparr> else r)
      in if comment_diverges f r then r1\<lparr>ds_description := fs_comment f\<rparr> else r1)"

text \<open>One fileset of the loop.\<close>

definition add_fileset ::
  "(nat \<Rightarrow> string) \<Rightarrow> datetime \<Rightarrow> string \<Rightarrow> string \<Rightarrow> string \<Rightarrow> string \<Rightarrow> bool \<Rightarrow> fileset \<Rightarrow> sync_state
     \<Rightarrow> sync_state" where
  "add_fileset uuids now catalog schema tenant name dry_run f s =
     (let counted = s\<lparr>sy_result := (sy_result s)\<lparr>ms_created := ms_created (sy_result s) + 1\<rparr>\<rparr>
      in if dry_run then counted
         else counted\<lparr>sy_fresh := sy_fresh s + 1,
                sy_pending := sy_pending s @
                  [map_option (\<lambda>uri. new_dataset (uuids (sy_fresh s)) catalog schema name uri tenant
                       None (fs_comment f) now) (fs_storage_location f)]\<rparr>)"

definition pull_fileset :: "bool \<Rightarrow> fileset \<Rightarrow> dataset_row \<Rightarrow> sync_state \<Rightarrow> sync_state" where
  "pull_fileset dry_run f existing s =
     (let changed = (uri_diverges f existing \<or> comment_diverges f existing);
          s1 = (if dry_run then s
                else s\<lparr>sy_work := (sy_work s)\<lparr>datasets :=
                       upd_where (\<lambda>r. ds_uuid r = ds_uuid existing) (pulled f) (datasets (sy_work s))\<rparr>\<rparr>)
      in if changed
         then s1\<lparr>sy_result := (sy_result s1)\<lparr>ms_updated := ms_updated (sy_result s1) + 1\<rparr>\<rparr>
         else s1)"

definition sync_fileset ::
  "rls_ctx \<Rightarrow> (nat \<Rightarrow> string) \<Rightarrow> datetime \<Rightarrow> string \<Rightarrow> string \<Rightarrow> string \<Rightarrow> string \<Rightarrow> bool \<Rightarrow> fileset
     \<Rightarrow> sync_state \<Rightarrow> sync_state res" where
  "sync_fileset cx uuids now catalog schema tenant name dry_run f s =
     (case flush_datasets (sy_pending s) (sy_work s) of
        Inl e \<Rightarrow> Inl e
      | Inr d \<Rightarrow>
          let s1 = s\<lparr>sy_work := d, sy_pending := []\<rparr> in
          (case rls_rows cx ''dataset'' ds_tenant
                  (filter (sync_match catalog schema name tenant) (datasets d)) of
             Inl e \<Rightarrow> Inl e
           | Inr rs \<Rightarrow>
               (case one_or_none rs of
                  Inl e \<Rightarrow> Inl e
                | Inr None \<Rightarrow> Inr (add_fileset uuids now catalog schema tenant name dry_run f s1)
                | Inr (Some existing) \<Rightarrow> Inr (pull_fileset dry_run f existing s1))))"

definition add_error :: "string \<Rightarrow> lcp_error \<Rightarrow> sync_state \<Rightarrow> sync_state" where
  "add_error where_from e s =
     s\<lparr>sy_result := (sy_result s)\<lparr>ms_errors := ms_errors (sy_result s) @ [(where_from, e)]\<rparr>\<rparr>"

fun is_api_error :: "lcp_error \<Rightarrow> bool" where
  "is_api_error (GravitinoAPIError _ _) = True"
| "is_api_error _ = False"

fun sync_loop ::
  "rls_ctx \<Rightarrow> 'w http \<Rightarrow> settings \<Rightarrow> (nat \<Rightarrow> string) \<Rightarrow> datetime \<Rightarrow> string \<Rightarrow> string \<Rightarrow> bool
     \<Rightarrow> string list \<Rightarrow> sync_state \<Rightarrow> ('w, sync_state) io" where
  "sync_loop cx http cfg uuids now schema tenant dry_run [] s w = (Inr s, w)"
| "sync_loop cx http cfg uuids now schema tenant dry_run (name # names) s w =
     (case gc_get_fileset http cfg schema name w of
        (Inl e, w1) \<Rightarrow>
          if is_api_error e
          then sync_loop cx http cfg uuids now schema tenant dry_run names
                 (add_error (''get_fileset('' @ schema @ ''/'' @ name @ '')'') e s) w1
          else (Inl e, w1)
      | (Inr f, w1) \<Rightarrow>
          (case sync_fileset cx uuids now (gravitino_catalog cfg) schema tenant name dry_run f s of
             Inl e \<Rightarrow> (Inl e, w1)
           | Inr s1 \<Rightarrow> sync_loop cx http cfg uuids now schema tenant dry_run names s1 w1))"

text \<open>
  \<open>reconcile_schema\<close>: an exception leaves the transaction uncommitted, a dry run never
  commits.  The third component counts the UUIDs used.
\<close>

definition reconcile_schema ::
  "rls_ctx \<Rightarrow> 'w http \<Rightarrow> settings \<Rightarrow> (nat \<Rightarrow> string) \<Rightarrow> nat \<Rightarrow> datetime \<Rightarrow> string \<Rightarrow> string \<Rightarrow> bool
     \<Rightarrow> db \<Rightarrow> 'w \<Rightarrow> meta_sync_result res \<times> db \<times> nat \<times> 'w" where
  "reconcile_schema cx http cfg uuids n now schema tenant dry_run d w =
     (case gc_list_filesets http cfg schema w of
        (Inl e, w1) \<Rightarrow>
          (if is_api_error e \<or> e = GravitinoDisabledError
           then Inr (empty_sync\<lparr>ms_errors := [(''list_filesets('' @ schema @ '')'', e)]\<rparr>)
           else Inl e, d, n, w1)
      | (Inr names, w1) \<Rightarrow>
          (case sync_loop cx http cfg uuids now schema tenant dry_run names
                  \<lparr>sy_work = d, sy_pending = [], sy_fresh = n,
                   sy_result = empty_sync\<lparr>ms_discovered := length names\<rparr>\<rparr> w1 of
             (Inl e, w2) \<Rightarrow> (Inl e, d, n, w2)
           | (Inr s, w2) \<Rightarrow>
               if dry_run then (Inr (sy_result s), d, sy_fresh s, w2)
               else case flush_datasets (sy_pending s) (sy_work s) of
                      Inl e \<Rightarrow> (Inl e, d, n, w2)
                    | Inr d' \<Rightarrow> (Inr (sy_result s), d', sy_fresh s, w2)))"

fun reconcile_schemas ::
  "rls_ctx \<Rightarrow> 'w http \<Rightarrow> settings \<Rightarrow> (nat \<Rightarrow> string) \<Rightarrow> nat \<Rightarrow> datetime \<Rightarrow> string list \<Rightarrow> string \<Rightarrow> bool
     \<Rightarrow> meta_sync_result \<Rightarrow> db \<Rightarrow> 'w \<Rightarrow> meta_sync_result res \<times> db \<times> nat \<times> 'w" where
  "reconcile_schemas cx http cfg uuids n now [] tenant dry_run acc d w = (Inr acc, d, n, w)"
| "reconcile_schemas cx http cfg uuids n now (schema # schemas) tenant dry_run acc d w =
     (case reconcile_schema cx http cfg uuids n now schema tenant dry_run d w of
        (Inl e, d1, n1, w1) \<Rightarrow> (Inl e, d1, n1, w1)
      | (Inr p, d1, n1, w1) \<Rightarrow>
          reconcile_schemas cx http cfg uuids n1 now schemas tenant dry_run
            (acc\<lparr>ms_discovered := ms_discovered acc + ms_discovered p,
                   ms_created := ms_created acc + ms_created p,
                   ms_updated := ms_updated acc + ms_updated p,
                   ms_errors := ms_errors acc @ ms_errors p\<rparr>) d1 w1)"

definition reconcile_all ::
  "rls_ctx \<Rightarrow> 'w http \<Rightarrow> settings \<Rightarrow> (nat \<Rightarrow> string) \<Rightarrow> datetime \<Rightarrow> string \<Rightarrow> bool \<Rightarrow> db \<Rightarrow> 'w
     \<Rightarrow> meta_sync_result res \<times> db \<times> nat \<times> 'w" where
  "reconcile_all cx http cfg uuids now tenant dry_run d w =
     (case gc_list_schemas http cfg w of
        (Inl e, w1) \<Rightarrow>
          (if is_api_error e \<or> e = GravitinoDisabledError
           then Inr (empty_sync\<lparr>ms_errors := [(''list_schemas'', e)]\<rparr>) else Inl e, d, 0, w1)
      | (Inr schemas, w1) \<Rightarrow>
          reconcile_schemas cx http cfg uuids 0 now schemas tenant dry_run
            (empty_sync\<lparr>ms_schemas_scanned := length schemas\<rparr>) d w1)"

text \<open>\<open>write_back_stats\<close>.\<close>

definition stats_properties :: "dataset_row \<Rightarrow> datetime \<Rightarrow> (string \<times> string) list" where
  "stats_properties ds now =
     [(''lcp.row_count'', dec_int (ds_row_count ds)),
      (''lcp.fragment_count'', dec_int (ds_fragment_count ds)),
      (''lcp.index_coverage'', format_decimal (ds_index_coverage ds)),
      (''lcp.status'', dataset_status_str (ds_status ds)),
      (''lcp.latest_version'', dec_int (ds_latest_version ds)),
      (''lcp.synced_at'', isoformat now)]"

definition write_back_stats ::
  "rls_ctx \<Rightarrow> 'w http \<Rightarrow> settings \<Rightarrow> string \<Rightarrow> datetime \<Rightarrow> db \<Rightarrow> ('w, bool) io" where
  "write_back_stats cx http cfg uuid now d w =
     (if \<not> gc_enabled cfg then (Inr False, w)
      else case (case rls_rows cx ''dataset'' ds_tenant (filter (\<lambda>r. ds_uuid r = uuid) (datasets d)) of
                   Inl e \<Rightarrow> Inl e | Inr rs \<Rightarrow> one_or_none rs) of
             Inl e \<Rightarrow> (Inl e, w)
           | Inr None \<Rightarrow> (Inr False, w)
           | Inr (Some ds) \<Rightarrow>
               (case gc_set_properties http cfg (ds_schema ds) (ds_table ds) (stats_properties ds now) w of
                  (Inr _, w') \<Rightarrow> (Inr True, w')
                | (Inl e, w') \<Rightarrow>
                    if is_api_error e \<or> e = GravitinoDisabledError then (Inr False, w') else (Inl e, w')))"

section \<open>Lemmas\<close>

text \<open>What the session will commit: its rows with the pending ones flushed.\<close>

definition view :: "sync_state \<Rightarrow> db res" where
  "view s = flush_datasets (sy_pending s) (sy_work s)"

definition matches :: "string \<Rightarrow> string \<Rightarrow> string \<Rightarrow> string \<Rightarrow> db \<Rightarrow> dataset_row list" where
  "matches catalog schema name tenant d = filter (sync_match catalog schema name tenant) (datasets d)"

lemma pulled_keys [simp]:
  "ds_uuid (pulled f r) = ds_uuid r" "ds_catalog (pulled f r) = ds_catalog r" "ds_schema (pulled f r) = ds_schema r"
  "ds_table (pulled f r) = ds_table r" "ds_tenant (pulled f r) = ds_tenant r" "ds_status (pulled f r) = ds_status r"
  by (simp_all add: pulled_def Let_def)

lemma pulled_settles: "\<not> uri_diverges f (pulled f r)" "\<not> comment_diverges f (pulled f r)"
  by (auto simp: pulled_def uri_diverges_def comment_diverges_def Let_def split: option.splits)

lemma pulled_id: "\<not> uri_diverges f r \<Longrightarrow> \<not> comment_diverges f r \<Longrightarrow> pulled f r = r"
  by (simp add: pulled_def)

definition pull_row :: "fileset \<Rightarrow> dataset_row \<Rightarrow> db \<Rightarrow> db" where
  "pull_row f e d = d\<lparr>datasets := upd_where (\<lambda>r. ds_uuid r = ds_uuid e) (pulled f) (datasets d)\<rparr>"

lemma wf_pull_row: "wf_db d \<Longrightarrow> wf_db (pull_row f e d)"
  unfolding pull_row_def by (rule wf_upd_datasets) (simp_all add: uk_defs)

lemma dataset_by_uuid:
  "wf_db d \<Longrightarrow> r \<in> set (datasets d) \<Longrightarrow> e \<in> set (datasets d) \<Longrightarrow> ds_uuid r = ds_uuid e \<Longrightarrow> r = e"
  using unique_on_eqI [of uk_dataset_uuid "datasets d" r e "ds_uuid e"] by (simp add: wf_db_def uk_dataset_uuid_def)

lemma matches_unique:
  assumes "wf_db d" and "r \<in> set (datasets d)" and "sync_match catalog schema name tenant r"
  shows "matches catalog schema name tenant d = [r]"
proof -
  let ?k = "(catalog, schema, name)"
  have key: "uk_catalog_schema_table x = Some ?k \<longleftrightarrow> ds_catalog x = catalog \<and> ds_schema x = schema \<and> ds_table x = name" for x
    by (auto simp: uk_catalog_schema_table_def)
  have "unique_on uk_catalog_schema_table (datasets d)" using assms(1) by (simp add: wf_db_def)
  from unique_on_select [OF this assms(2), of ?k]
  have one: "filter (\<lambda>x. uk_catalog_schema_table x = Some ?k) (datasets d) = [r]"
    using assms(3) key by (simp add: sync_match_def)
  have "matches catalog schema name tenant d
      = filter (\<lambda>x. ds_tenant x = tenant) (filter (\<lambda>x. uk_catalog_schema_table x = Some ?k) (datasets d))"
    by (simp add: matches_def key sync_match_def [abs_def] conj_ac)
  then show ?thesis using one assms(3) by (simp add: sync_match_def)
qed

lemma matches_pull_row:
  assumes "wf_db d" and "e \<in> set (datasets d)" and "ds_table e \<noteq> name"
  shows "matches catalog schema name tenant (pull_row f e d) = matches catalog schema name tenant d"
proof -
  have "filter (sync_match catalog schema name tenant) (upd_where (\<lambda>r. ds_uuid r = ds_uuid e) (pulled f) rs)
      = filter (sync_match catalog schema name tenant) rs" if "set rs \<subseteq> set (datasets d)" for rs
    using that
  proof (induction rs)
    case (Cons r rs)
    have "r = e" if "ds_uuid r = ds_uuid e" using dataset_by_uuid [OF assms(1) _ assms(2) that] Cons.prems by simp
    then show ?case using Cons assms(3) by (auto simp: sync_match_def)
  qed simp
  then show ?thesis by (simp add: matches_def pull_row_def)
qed

lemma matches_insert:
  assumes "insert_dataset r d = Inr d'"
  shows "matches catalog schema name tenant d'
    = matches catalog schema name tenant d @ (if sync_match catalog schema name tenant r then [r] else [])"
  using assms by (auto simp: insert_dataset_def matches_def split: if_splits)

text \<open>The two things a real pass does with a fileset.\<close>

lemma sync_fileset_real:
  assumes "sync_fileset cx uuids now catalog schema tenant name False f s = Inr s'" and "sees cx tenant"
  obtains d where "view s = Inr d" "matches catalog schema name tenant d = []"
      "sy_result s' = (sy_result s)\<lparr>ms_created := ms_created (sy_result s) + 1\<rparr>"
      "view s' = (case fs_storage_location f of None \<Rightarrow> Inl IntegrityError
         | Some uri \<Rightarrow> insert_dataset (new_dataset (uuids (sy_fresh s)) catalog schema name uri tenant None
                          (fs_comment f) now) d)"
    | d e where "view s = Inr d" "matches catalog schema name tenant d = [e]"
      "sy_result s' = (if uri_diverges f e \<or> comment_diverges f e
         then (sy_result s)\<lparr>ms_updated := ms_updated (sy_result s) + 1\<rparr> else sy_result s)"
      "view s' = Inr (pull_row f e d)"
proof -
  from assms(1) obtain d where v: "view s = Inr d" by (auto simp: sync_fileset_def view_def split: sum.splits)
  have auth: "authenticated cx"
    using assms(1) v by (auto simp: sync_fileset_def view_def rls_dataset Let_def split: if_splits sum.splits)
  have "filter (\<lambda>r. sees cx (ds_tenant r)) (filter (sync_match catalog schema name tenant) (datasets d))
      = matches catalog schema name tenant d"
    using assms(2) by (auto simp: matches_def sync_match_def intro!: filter_cong)
  then have rows: "rls_rows cx ''dataset'' ds_tenant (filter (sync_match catalog schema name tenant) (datasets d))
      = Inr (matches catalog schema name tenant d)" using auth by (simp add: rls_dataset)
  consider "matches catalog schema name tenant d = []" | e where "matches catalog schema name tenant d = [e]"
    using assms(1) v rows
    by (auto simp: sync_fileset_def view_def Let_def one_or_none_def split: list.splits)
  then show thesis
  proof cases
    case 1
    then have "s' = add_fileset uuids now catalog schema tenant name False f (s\<lparr>sy_work := d, sy_pending := []\<rparr>)"
      using assms(1) v rows by (simp add: sync_fileset_def view_def Let_def)
    then show thesis using that(1) [OF v 1]
      by (auto simp: add_fileset_def view_def Let_def split: option.split sum.split)
  next
    case (2 e)
    then have "s' = pull_fileset False f e (s\<lparr>sy_work := d, sy_pending := []\<rparr>)"
      using assms(1) v rows by (simp add: sync_fileset_def view_def Let_def)
    then show thesis using that(2) [OF v 2]
      by (auto simp: pull_fileset_def view_def pull_row_def Let_def)
  qed
qed

lemma view_add_error [simp]: "view (add_error x e s) = view s" "sy_result (add_error x e s)
    = (sy_result s)\<lparr>ms_errors := ms_errors (sy_result s) @ [(x, e)]\<rparr>"
  "sy_work (add_error x e s) = sy_work s" "sy_pending (add_error x e s) = sy_pending s"
  by (simp_all add: add_error_def view_def)

lemma view_forced:
  assumes "sync_loop cx http cfg uuids now schema tenant False names s w = (Inr s', w')" and "view s' = Inr d'"
  shows "\<exists>d. view s = Inr d"
  using assms(1)
proof (induction names arbitrary: s w)
  case Nil
  then show ?case using assms(2) by simp
next
  case (Cons name names)
  obtain g w1 where g: "gc_get_fileset http cfg schema name w = (g, w1)" by fastforce
  show ?case
  proof (cases g)
    case (Inl e)
    then show ?thesis using Cons g by (fastforce split: if_splits)
  next
    case (Inr f)
    then show ?thesis using Cons.prems g by (auto simp: sync_fileset_def view_def split: sum.splits)
  qed
qed

text \<open>A dry pass over the same filesets counts what the real pass counts.\<close>

lemma dry_loop:
  assumes "sync_loop cx http cfg uuids now schema tenant False names s w = (Inr s', w')" and "view s' = Inr d'"
    and "view s = Inr d" and "wf_db d" and "distinct names" and "sees cx tenant"
    and "\<And>n. n \<in> set names \<Longrightarrow> matches (gravitino_catalog cfg) schema n tenant d
            = matches (gravitino_catalog cfg) schema n tenant d0"
    and "sy_result t = sy_result s" and "sy_pending t = []" and "sy_work t = d0"
  shows "\<exists>t'. sync_loop cx http cfg uuids now schema tenant True names t w = (Inr t', w')
    \<and> sy_result t' = sy_result s'"
  using assms(1,3-5,7-10)
proof (induction names arbitrary: s t w d)
  case Nil
  then show ?case by simp
next
  case (Cons name names)
  obtain g w1 where g: "gc_get_fileset http cfg schema name w = (g, w1)" by fastforce
  show ?case
  proof (cases g)
    case (Inl e)
    then have api: "is_api_error e" using Cons.prems(1) g by (auto split: if_splits)
    then have "sync_loop cx http cfg uuids now schema tenant False names
        (add_error (''get_fileset('' @ schema @ ''/'' @ name @ '')'') e s) w1 = (Inr s', w')"
      using Cons.prems(1) g Inl by simp
    from Cons.IH [OF this, of d "add_error (''get_fileset('' @ schema @ ''/'' @ name @ '')'') e t"] Cons.prems
    show ?thesis using g Inl api by simp
  next
    case (Inr f)
    then obtain s1 where s1: "sync_fileset cx uuids now (gravitino_catalog cfg) schema tenant name False f s = Inr s1"
      and rest: "sync_loop cx http cfg uuids now schema tenant False names s1 w1 = (Inr s', w')"
      using Cons.prems(1) g by (auto split: sum.splits)
    obtain d1 where d1: "view s1 = Inr d1" using view_forced [OF rest assms(2)] by blast
    have auth: "authenticated cx" using assms(6) by (auto simp: sees_def authenticated_def split: option.splits)
    have rows: "rls_rows cx ''dataset'' ds_tenant (filter (sync_match (gravitino_catalog cfg) schema name tenant) (datasets d0))
        = Inr (matches (gravitino_catalog cfg) schema name tenant d0)"
      using auth assms(6) by (auto simp: rls_dataset matches_def sync_match_def intro!: filter_cong)
    have m0: "matches (gravitino_catalog cfg) schema name tenant d0 = matches (gravitino_catalog cfg) schema name tenant d"
      using Cons.prems(5) by simp
    have step: "\<exists>t1. sync_fileset cx uuids now (gravitino_catalog cfg) schema tenant name True f t = Inr t1
        \<and> sy_result t1 = sy_result s1 \<and> sy_pending t1 = [] \<and> sy_work t1 = d0
        \<and> wf_db d1 \<and> (\<forall>n\<in>set names. matches (gravitino_catalog cfg) schema n tenant d1
                          = matches (gravitino_catalog cfg) schema n tenant d)"
      using s1 assms(6)
    proof (cases rule: sync_fileset_real)
      case (1 da)
      then have da: "da = d" using Cons.prems(2) by simp
      obtain uri where uri: "fs_storage_location f = Some uri" using 1(4) d1 by (cases "fs_storage_location f") auto
      let ?r = "new_dataset (uuids (sy_fresh s)) (gravitino_catalog cfg) schema name uri tenant None (fs_comment f) now"
      have ins: "insert_dataset ?r d = Inr d1" using 1(4) d1 uri da by simp
      have other: "\<not> sync_match (gravitino_catalog cfg) schema n tenant ?r" if "n \<in> set names" for n
        using that Cons.prems(4) by (auto simp: sync_match_def new_dataset_def)
      show ?thesis
        using rows m0 1(2,3) da Cons.prems(6-8) wf_insert_dataset [OF Cons.prems(3) ins] matches_insert [OF ins] other
        by (simp add: sync_fileset_def add_fileset_def Let_def)
    next
      case (2 da e)
      then have da: "da = d" using Cons.prems(2) by simp
      have "e \<in> set (matches (gravitino_catalog cfg) schema name tenant d)" using 2(2) da by simp
      then have e: "e \<in> set (datasets d)" "ds_table e = name" by (auto simp: matches_def sync_match_def)
      have d1: "d1 = pull_row f e d" using 2(4) d1 da by simp
      have "matches (gravitino_catalog cfg) schema n tenant d1 = matches (gravitino_catalog cfg) schema n tenant d"
        if "n \<in> set names" for n
        unfolding d1 by (rule matches_pull_row [OF Cons.prems(3) e(1)]) (use e(2) that Cons.prems(4) in auto)
      moreover have "wf_db d1" unfolding d1 by (rule wf_pull_row [OF Cons.prems(3)])
      ultimately show ?thesis
        using rows m0 2(2,3) da Cons.prems(6-8)
        by (auto simp: sync_fileset_def pull_fileset_def Let_def)
    qed
    then obtain t1 where t1: "sync_fileset cx uuids now (gravitino_catalog cfg) schema tenant name True f t = Inr t1"
        "sy_result t1 = sy_result s1" "sy_pending t1 = []" "sy_work t1 = d0" "wf_db d1"
        "\<forall>n\<in>set names. matches (gravitino_catalog cfg) schema n tenant d1
            = matches (gravitino_catalog cfg) schema n tenant d" by blast
    have "\<exists>t'. sync_loop cx http cfg uuids now schema tenant True names t1 w1 = (Inr t', w')
        \<and> sy_result t' = sy_result s'"
      by (rule Cons.IH [OF rest d1 t1(5) _ _ t1(2,3,4)]) (use Cons.prems(4,5) t1(6) in auto)
    then show ?thesis using g Inr t1(1) by simp
  qed
qed

end
