(* ===== verification/Rest.thy ===== *)
theory Rest
  imports Search Indexes Rules Gravitino
begin

text \<open>
  The REST surface, \<open>src/lcp/api/rest/routers/\<close>: one definition per endpoint, from the
  decoded request to the reply.  An exception a handler translates becomes an
  \<open>HttpError\<close>; any other leaves the handler (\<open>Crash\<close>), and the server answers 500.
  Routing, JSON decoding and the shape of a 422 body are FastAPI's; the limits the request
  schemas declare are checked here, after the dependencies have run.  A response body is the
  JSON object its schema builds from the row, without \<open>updated_at\<close>, which the rows do not
  carry.  Messages that are \<open>str(exc)\<close> go through \<open>re_str_exc\<close>.
\<close>

section \<open>Replies\<close>

datatype reply =
    Reply nat json
  | NoContent
  | HttpError nat string string
  | Unprocessable
  | Crash lcp_error

fun status_code :: "reply \<Rightarrow> nat" where
  "status_code (Reply n _) = n"
| "status_code NoContent = 204"
| "status_code (HttpError n _ _) = n"
| "status_code Unprocessable = 422"
| "status_code (Crash _) = 500"

record ('h, 'w) rest_env =
  re_settings :: settings
  re_lance :: "('h, 'w) lance"
  re_http :: "'w http"
  re_str_exc :: "lcp_error \<Rightarrow> string"
  re_now :: datetime
  re_uuids :: "nat \<Rightarrow> string"
  re_other :: "db \<Rightarrow> db"

definition not_found :: "string \<Rightarrow> reply" where
  "not_found message = HttpError 404 ''NOT_FOUND'' message"

definition conflict :: "string \<Rightarrow> string \<Rightarrow> reply" where
  "conflict code message = HttpError 409 code message"

definition bad_request :: "string \<Rightarrow> string \<Rightarrow> reply" where
  "bad_request code message = HttpError 400 code message"

definition gravitino_unavailable :: reply where
  "gravitino_unavailable = HttpError 503 ''GRAVITINO_DISABLED''
     ''Gravitino integration is not configured. Set LCP_GRAVITINO_URL to enable meta sync.''"

section \<open>Exceptions the handlers translate\<close>

type_synonym catch = "lcp_error \<Rightarrow> reply option"

definition catching :: "catch \<Rightarrow> catch \<Rightarrow> catch" where
  "catching f g e = (case f e of None \<Rightarrow> g e | Some r \<Rightarrow> Some r)"

fun catch_dataset :: "string \<Rightarrow> catch" where
  "catch_dataset u (DatasetNotFoundError _) = Some (not_found (''dataset '' @ u @ '' not found''))"
| "catch_dataset u _ = None"

fun catch_task :: "string \<Rightarrow> catch" where
  "catch_task u (TaskNotFoundError _) = Some (not_found (''task '' @ u @ '' not found''))"
| "catch_task u _ = None"

fun catch_index :: "string \<Rightarrow> string \<Rightarrow> catch" where
  "catch_index u n (IndexNotFoundError _ _) =
     Some (not_found (''index '' @ py_repr n @ '' not found on dataset '' @ u))"
| "catch_index u n _ = None"

fun catch_policy :: "string \<Rightarrow> string \<Rightarrow> catch" where
  "catch_policy u n (PolicyNotFoundError _ _) =
     Some (not_found (''policy '' @ py_repr n @ '' not found on dataset '' @ u))"
| "catch_policy u n _ = None"

fun catch_rule :: "string \<Rightarrow> string \<Rightarrow> catch" where
  "catch_rule u n (RuleNotFoundError _ _) =
     Some (not_found (''rule on column '' @ py_repr n @ '' not found on dataset '' @ u))"
| "catch_rule u n _ = None"

fun catch_exists :: "(lcp_error \<Rightarrow> string) \<Rightarrow> catch" where
  "catch_exists str_exc DatasetAlreadyExistsError =
     Some (conflict ''ALREADY_EXISTS'' (str_exc DatasetAlreadyExistsError))"
| "catch_exists str_exc (IndexAlreadyExistsError u n) =
     Some (conflict ''ALREADY_EXISTS'' (str_exc (IndexAlreadyExistsError u n)))"
| "catch_exists str_exc (PolicyAlreadyExistsError u n) =
     Some (conflict ''ALREADY_EXISTS'' (str_exc (PolicyAlreadyExistsError u n)))"
| "catch_exists str_exc (RuleAlreadyExistsError u n) =
     Some (conflict ''ALREADY_EXISTS'' (str_exc (RuleAlreadyExistsError u n)))"
| "catch_exists str_exc _ = None"

fun catch_transition :: "(lcp_error \<Rightarrow> string) \<Rightarrow> catch" where
  "catch_transition str_exc (TaskTransitionError u) =
     Some (conflict ''INVALID_TRANSITION'' (str_exc (TaskTransitionError u)))"
| "catch_transition str_exc (IndexTransitionError n) =
     Some (conflict ''INVALID_TRANSITION'' (str_exc (IndexTransitionError n)))"
| "catch_transition str_exc _ = None"

fun catch_rule_request :: "(lcp_error \<Rightarrow> string) \<Rightarrow> catch" where
  "catch_rule_request str_exc RuleValidationError =
     Some (bad_request ''INVALID_ARGUMENT'' (str_exc RuleValidationError))"
| "catch_rule_request str_exc (RuleDisabledError c) =
     Some (conflict ''RULE_DISABLED'' (str_exc (RuleDisabledError c)))"
| "catch_rule_request str_exc _ = None"

fun catch_search :: catch where
  "catch_search (ColumnNotFoundError msg) = Some (bad_request ''COLUMN_NOT_FOUND'' msg)"
| "catch_search (DimensionMismatchError msg) = Some (bad_request ''DIMENSION_MISMATCH'' msg)"
| "catch_search _ = None"

text \<open>
  A handler: the principal dependency, the request limits, the service call, and either the
  response built from its result or the reply to its exception.
\<close>

definition answer :: "catch \<Rightarrow> ('a \<Rightarrow> reply) \<Rightarrow> 'a res \<Rightarrow> reply" where
  "answer f body r =
     (case r of
        Inl e \<Rightarrow> (case f e of None \<Rightarrow> Crash e | Some rep \<Rightarrow> rep)
      | Inr x \<Rightarrow> body x)"

definition handler :: "rls_ctx \<Rightarrow> bool \<Rightarrow> (db \<Rightarrow> reply \<times> db) \<Rightarrow> db \<Rightarrow> reply \<times> db" where
  "handler cx valid call d =
     (case require_current_tenant (cx_principal cx) of
        Inl e \<Rightarrow> (Crash e, d)
      | Inr p \<Rightarrow> if \<not> valid then (Unprocessable, d) else call d)"

definition reads :: "reply \<Rightarrow> db \<Rightarrow> reply \<times> db" where
  "reads r d = (r, d)"

definition changes :: "catch \<Rightarrow> ('a \<Rightarrow> reply) \<Rightarrow> 'a res \<times> db \<Rightarrow> reply \<times> db" where
  "changes f body rd = (answer f body (fst rd), snd rd)"

section \<open>Response bodies\<close>

definition opt_json :: "('a \<Rightarrow> json) \<Rightarrow> 'a option \<Rightarrow> json" where
  "opt_json f x = (case x of None \<Rightarrow> JNull | Some v \<Rightarrow> f v)"

definition decimal_json :: "rat \<Rightarrow> json" where
  "decimal_json x = JStr (format_decimal x)"

definition time_json :: "datetime \<Rightarrow> json" where
  "time_json t = JStr (isoformat t)"

definition dataset_response :: "dataset_row \<Rightarrow> json" where
  "dataset_response r = JObj
     [(''dataset_uuid'', JStr (ds_uuid r)), (''catalog'', JStr (ds_catalog r)),
      (''schema'', JStr (ds_schema r)), (''table'', JStr (ds_table r)),
      (''storage_uri'', JStr (ds_storage_uri r)), (''owner'', opt_json JStr (ds_owner r)),
      (''description'', opt_json JStr (ds_description r)), (''tenant_id'', JStr (ds_tenant r)),
      (''status'', JStr (dataset_status_str (ds_status r))), (''row_count'', JInt (ds_row_count r)),
      (''fragment_count'', JInt (ds_fragment_count r)),
      (''index_coverage'', decimal_json (ds_index_coverage r)),
      (''created_at'', time_json (ds_created_at r))]"

definition task_response :: "task_row \<Rightarrow> json" where
  "task_response t = JObj
     [(''task_uuid'', JStr (tk_uuid t)), (''type'', JStr (task_type_str (tk_type t))),
      (''status'', JStr (task_status_str (tk_status t))), (''dataset_uuid'', JStr (tk_dataset t)),
      (''tenant_id'', JStr (tk_tenant t)), (''priority'', JInt (tk_priority t)),
      (''progress'', decimal_json (tk_progress t)), (''attempt'', JInt (tk_attempt t)),
      (''max_attempts'', JInt (tk_max_attempts t)), (''worker_id'', opt_json JStr (tk_worker t)),
      (''idempotency_key'', opt_json JStr (tk_key t)), (''params'', opt_json JObj (tk_params t)),
      (''result'', opt_json JObj (tk_result t)), (''error_code'', opt_json JStr (tk_error_code t)),
      (''error_message'', opt_json JStr (tk_error_message t)),
      (''scheduled_at'', opt_json time_json (tk_scheduled_at t)),
      (''started_at'', opt_json time_json (tk_started_at t)),
      (''finished_at'', opt_json time_json (tk_finished_at t)),
      (''created_at'', time_json (tk_created_at t))]"

fun index_status_str :: "index_status \<Rightarrow> string" where
  "index_status_str IX_BUILDING = ''BUILDING''"
| "index_status_str IX_READY = ''READY''"
| "index_status_str IX_OPTIMIZING = ''OPTIMIZING''"
| "index_status_str IX_MERGING = ''MERGING''"
| "index_status_str IX_FAILED = ''FAILED''"
| "index_status_str IX_DROPPED = ''DROPPED''"

text \<open>\<open>model_validate\<close> refuses an index type outside the vocabulary and a rule without source columns.\<close>

definition ValidationError :: lcp_error where
  "ValidationError = OtherError ''ValidationError''"

definition index_response :: "index_row \<Rightarrow> json res" where
  "index_response i =
     (if \<not> List.member INDEX_TYPES (ix_type i) then Inl ValidationError
      else Inr (JObj
     [(''index_name'', JStr (ix_name i)), (''dataset_uuid'', JStr (ix_dataset i)),
      (''column'', JStr (ix_column i)), (''type'', JStr (ix_type i)),
      (''status'', JStr (index_status_str (ix_status i))), (''params'', opt_json JObj (ix_params i)),
      (''coverage'', decimal_json (ix_coverage i)), (''fragment_count'', JInt (ix_fragment_count i)),
      (''delta_count'', JInt (ix_delta_count i)),
      (''last_optimized_at'', opt_json time_json (ix_last_optimized_at i)),
      (''last_merged_at'', opt_json time_json (ix_last_merged_at i)),
      (''error_message'', opt_json JStr (ix_error_message i)),
      (''created_at'', time_json (ix_created_at i))]))"

definition policy_response :: "policy_row \<Rightarrow> json" where
  "policy_response p = JObj
     [(''policy_name'', JStr (lp_name p)), (''dataset_uuid'', JStr (lp_dataset p)),
      (''tier_rules'', opt_json JObj (lp_tier_rules p)), (''ttl_days'', opt_json JInt (lp_ttl_days p)),
      (''compaction_threshold'', opt_json JObj (lp_compaction_threshold p)),
      (''index_optimize_cron'', opt_json JStr (lp_index_optimize_cron p)),
      (''index_watch_enabled'', JBool (lp_watch_enabled p)),
      (''index_watch_min_unindexed_rows'', opt_json JInt (lp_min_unindexed_rows p)),
      (''index_watch_min_version_drift'', opt_json JInt (lp_min_version_drift p)),
      (''index_watch_stale_minutes'', opt_json JInt (lp_stale_minutes p)),
      (''enabled'', JBool (lp_enabled p)), (''last_run_at'', opt_json time_json (lp_last_run_at p)),
      (''created_at'', time_json (lp_created_at p))]"

fun trigger_type_str :: "trigger_type \<Rightarrow> string" where
  "trigger_type_str ON_INSERT = ''ON_INSERT''"
| "trigger_type_str SCHEDULED = ''SCHEDULED''"
| "trigger_type_str MANUAL = ''MANUAL''"

definition rule_response :: "rule_row \<Rightarrow> json res" where
  "rule_response r =
     (case vr_source_columns r of
        None \<Rightarrow> Inl ValidationError
      | Some cols \<Rightarrow> Inr (JObj
     [(''target_column'', JStr (vr_target_column r)), (''dataset_uuid'', JStr (vr_dataset r)),
      (''source_columns'', JList (map JStr cols)), (''model_name'', JStr (vr_model_name r)),
      (''model_version'', JStr (vr_model_version r)),
      (''model_endpoint'', opt_json JStr (vr_model_endpoint r)), (''batch_size'', JInt (vr_batch_size r)),
      (''trigger_type'', JStr (trigger_type_str (vr_trigger_type r))),
      (''cron_expr'', opt_json JStr (vr_cron_expr r)), (''enabled'', JBool (vr_enabled r)),
      (''extra'', opt_json JObj (vr_extra r)), (''created_at'', time_json (vr_created_at r))]))"

fun all_items :: "('a \<Rightarrow> json res) \<Rightarrow> 'a list \<Rightarrow> json list res" where
  "all_items f [] = Inr []"
| "all_items f (x # xs) =
     (case f x of
        Inl e \<Rightarrow> Inl e
      | Inr j \<Rightarrow> (case all_items f xs of Inl e \<Rightarrow> Inl e | Inr js \<Rightarrow> Inr (j # js)))"

definition rendered :: "nat \<Rightarrow> json res \<Rightarrow> reply" where
  "rendered code r = (case r of Inl e \<Rightarrow> Crash e | Inr j \<Rightarrow> Reply code j)"

definition list_reply :: "('a \<Rightarrow> json res) \<Rightarrow> 'a list \<times> nat \<Rightarrow> reply" where
  "list_reply f r =
     (case all_items f (fst r) of
        Inl e \<Rightarrow> Crash e
      | Inr items \<Rightarrow> Reply 200 (JObj [(''total'', JInt (int (snd r))), (''items'', JList items)]))"

definition page_reply :: "('a \<Rightarrow> json) \<Rightarrow> int \<Rightarrow> int \<Rightarrow> 'a list \<times> nat \<Rightarrow> reply" where
  "page_reply f page page_size r =
     Reply 200 (JObj [(''total'', JInt (int (snd r))), (''page'', JInt page), (''page_size'', JInt page_size),
                      (''items'', JList (map f (fst r)))])"

definition valid_page :: "int \<Rightarrow> int \<Rightarrow> bool" where
  "valid_page page page_size \<longleftrightarrow> 1 \<le> page \<and> 1 \<le> page_size \<and> page_size \<le> 200"

section \<open>Datasets and tasks\<close>

definition rest_list_datasets ::
  "rls_ctx \<Rightarrow> string option \<Rightarrow> string option \<Rightarrow> int \<Rightarrow> int \<Rightarrow> db \<Rightarrow> reply \<times> db" where
  "rest_list_datasets cx catalog schema page page_size =
     handler cx (valid_page page page_size) (\<lambda>d.
       reads (answer (\<lambda>_. None) (page_reply dataset_response page page_size)
         (list_datasets cx catalog schema page page_size d)) d)"

definition rest_create_dataset ::
  "('h, 'w) rest_env \<Rightarrow> rls_ctx \<Rightarrow> dataset_register_request \<Rightarrow> db \<Rightarrow> reply \<times> db" where
  "rest_create_dataset E cx q =
     handler cx (valid_dataset_request q) (\<lambda>d.
       changes (catch_exists (re_str_exc E)) (\<lambda>r. Reply 201 (dataset_response r))
         (create_dataset cx q (re_uuids E 0) (re_now E) d))"

definition rest_get_dataset :: "rls_ctx \<Rightarrow> string \<Rightarrow> db \<Rightarrow> reply \<times> db" where
  "rest_get_dataset cx u =
     handler cx True (\<lambda>d.
       reads (answer (catch_dataset u) (\<lambda>r. Reply 200 (dataset_response r)) (get_dataset cx u d)) d)"

definition rest_delete_dataset :: "rls_ctx \<Rightarrow> string \<Rightarrow> db \<Rightarrow> reply \<times> db" where
  "rest_delete_dataset cx u =
     handler cx True (\<lambda>d. changes (catch_dataset u) (\<lambda>_. NoContent) (delete_dataset cx u d))"

definition rest_list_tasks ::
  "rls_ctx \<Rightarrow> string option \<Rightarrow> string option \<Rightarrow> string option \<Rightarrow> int \<Rightarrow> int \<Rightarrow> db \<Rightarrow> reply \<times> db" where
  "rest_list_tasks cx ds typ status page page_size =
     handler cx (valid_page page page_size) (\<lambda>d.
       reads (answer (\<lambda>_. None) (page_reply task_response page page_size)
         (list_tasks cx ds typ status page page_size d)) d)"

definition rest_submit_task :: "('h, 'w) rest_env \<Rightarrow> rls_ctx \<Rightarrow> submit_args \<Rightarrow> db \<Rightarrow> reply \<times> db" where
  "rest_submit_task E cx q =
     handler cx (valid_submit_request q) (\<lambda>d.
       changes (\<lambda>_. None) (\<lambda>(t, created). Reply (if created then 202 else 200) (task_response t))
         (submit_task cx q (re_uuids E 0) (re_now E) (re_other E) d))"

definition rest_get_task :: "rls_ctx \<Rightarrow> string \<Rightarrow> db \<Rightarrow> reply \<times> db" where
  "rest_get_task cx u =
     handler cx True (\<lambda>d. reads (answer (catch_task u) (\<lambda>t. Reply 200 (task_response t)) (get_task cx u d)) d)"

definition rest_cancel_task :: "('h, 'w) rest_env \<Rightarrow> rls_ctx \<Rightarrow> string \<Rightarrow> db \<Rightarrow> reply \<times> db" where
  "rest_cancel_task E cx u =
     handler cx True (\<lambda>d.
       changes (catching (catch_task u) (catch_transition (re_str_exc E))) (\<lambda>t. Reply 200 (task_response t))
         (cancel_task cx u (re_now E) d))"

definition rest_retry_task :: "('h, 'w) rest_env \<Rightarrow> rls_ctx \<Rightarrow> string \<Rightarrow> db \<Rightarrow> reply \<times> db" where
  "rest_retry_task E cx u =
     handler cx True (\<lambda>d.
       changes (catching (catch_task u) (catch_transition (re_str_exc E))) (\<lambda>t. Reply 202 (task_response t))
         (retry_task cx u d))"

section \<open>Indexes\<close>

definition rest_list_indexes :: "rls_ctx \<Rightarrow> string \<Rightarrow> db \<Rightarrow> reply \<times> db" where
  "rest_list_indexes cx u =
     handler cx True (\<lambda>d. reads (answer (catch_dataset u) (list_reply index_response) (list_indexes cx u d)) d)"

definition rest_create_index ::
  "('h, 'w) rest_env \<Rightarrow> rls_ctx \<Rightarrow> string \<Rightarrow> index_create_request \<Rightarrow> db \<Rightarrow> reply \<times> db" where
  "rest_create_index E cx u q =
     handler cx (valid_index_request q) (\<lambda>d.
       changes (catching (catch_dataset u) (catch_exists (re_str_exc E)))
         (\<lambda>i. rendered 202 (index_response i))
         (create_index cx (re_str_exc E) u q (re_uuids E 0) (re_now E) (re_other E) d))"

definition rest_get_index :: "rls_ctx \<Rightarrow> string \<Rightarrow> string \<Rightarrow> db \<Rightarrow> reply \<times> db" where
  "rest_get_index cx u n =
     handler cx True (\<lambda>d.
       reads (answer (catching (catch_dataset u) (catch_index u n)) (\<lambda>i. rendered 200 (index_response i))
         (get_index cx u n d)) d)"

definition rest_drop_index :: "rls_ctx \<Rightarrow> string \<Rightarrow> string \<Rightarrow> db \<Rightarrow> reply \<times> db" where
  "rest_drop_index cx u n =
     handler cx True (\<lambda>d.
       changes (catching (catch_dataset u) (catch_index u n)) (\<lambda>_. NoContent) (drop_index cx u n d))"

definition rest_optimize_index :: "('h, 'w) rest_env \<Rightarrow> rls_ctx \<Rightarrow> string \<Rightarrow> string \<Rightarrow> db \<Rightarrow> reply \<times> db" where
  "rest_optimize_index E cx u n =
     handler cx True (\<lambda>d.
       changes (catching (catch_dataset u) (catching (catch_index u n) (catch_transition (re_str_exc E))))
         (\<lambda>i. rendered 202 (index_response i))
         (optimize_index cx (re_str_exc E) u n (re_uuids E 0) (re_now E) (re_other E) d))"

definition rest_merge_index :: "('h, 'w) rest_env \<Rightarrow> rls_ctx \<Rightarrow> string \<Rightarrow> string \<Rightarrow> db \<Rightarrow> reply \<times> db" where
  "rest_merge_index E cx u n =
     handler cx True (\<lambda>d.
       changes (catching (catch_dataset u) (catching (catch_index u n) (catch_transition (re_str_exc E))))
         (\<lambda>i. rendered 202 (index_response i)) (merge_index cx u n (re_now E) d))"

section \<open>Lifecycle policies\<close>

definition rest_list_policies :: "rls_ctx \<Rightarrow> string \<Rightarrow> db \<Rightarrow> reply \<times> db" where
  "rest_list_policies cx u =
     handler cx True (\<lambda>d.
       reads (answer (catch_dataset u) (list_reply (\<lambda>p. Inr (policy_response p))) (list_policies cx u d)) d)"

definition rest_create_policy ::
  "('h, 'w) rest_env \<Rightarrow> rls_ctx \<Rightarrow> string \<Rightarrow> policy_create_request \<Rightarrow> db \<Rightarrow> reply \<times> db" where
  "rest_create_policy E cx u q =
     handler cx (valid_policy_request q) (\<lambda>d.
       changes (catching (catch_dataset u) (catch_exists (re_str_exc E)))
         (\<lambda>p. Reply 201 (policy_response p)) (create_policy cx u q (re_now E) d))"

definition rest_get_policy :: "rls_ctx \<Rightarrow> string \<Rightarrow> string \<Rightarrow> db \<Rightarrow> reply \<times> db" where
  "rest_get_policy cx u n =
     handler cx True (\<lambda>d.
       reads (answer (catching (catch_dataset u) (catch_policy u n)) (\<lambda>p. Reply 200 (policy_response p))
         (get_policy cx u n d)) d)"

definition rest_update_policy :: "rls_ctx \<Rightarrow> string \<Rightarrow> string \<Rightarrow> policy_patch \<Rightarrow> db \<Rightarrow> reply \<times> db" where
  "rest_update_policy cx u n q =
     handler cx (valid_policy_patch q) (\<lambda>d.
       changes (catching (catch_dataset u) (catch_policy u n)) (\<lambda>p. Reply 200 (policy_response p))
         (update_policy cx u n q d))"

definition rest_delete_policy :: "rls_ctx \<Rightarrow> string \<Rightarrow> string \<Rightarrow> db \<Rightarrow> reply \<times> db" where
  "rest_delete_policy cx u n =
     handler cx True (\<lambda>d.
       changes (catching (catch_dataset u) (catch_policy u n)) (\<lambda>_. NoContent) (delete_policy cx u n d))"

definition rest_enable_policy :: "rls_ctx \<Rightarrow> string \<Rightarrow> string \<Rightarrow> bool \<Rightarrow> db \<Rightarrow> reply \<times> db" where
  "rest_enable_policy cx u n enabled =
     handler cx True (\<lambda>d.
       changes (catching (catch_dataset u) (catch_policy u n)) (\<lambda>p. Reply 200 (policy_response p))
         (set_policy_enabled cx u n enabled d))"

section \<open>Vectorization rules\<close>

text \<open>The limits of \<open>RuleUpdateRequest\<close>; a null passes every one of them.\<close>

definition valid_rule_patch :: "rule_patch \<Rightarrow> bool" where
  "valid_rule_patch q \<longleftrightarrow>
     supplied (\<lambda>x. x \<noteq> Some []) (rp_sources q)
   \<and> supplied (\<lambda>x. case x of None \<Rightarrow> True | Some s \<Rightarrow> str_between 1 128 s) (rp_model q)
   \<and> supplied (\<lambda>x. case x of None \<Rightarrow> True | Some s \<Rightarrow> str_between 1 64 s) (rp_version q)
   \<and> supplied (opt_max 512) (rp_endpoint q) \<and> supplied opt_ge1 (rp_batch q) \<and> supplied (opt_max 64) (rp_cron q)"

definition rest_list_rules :: "rls_ctx \<Rightarrow> string \<Rightarrow> db \<Rightarrow> reply \<times> db" where
  "rest_list_rules cx u =
     handler cx True (\<lambda>d. reads (answer (catch_dataset u) (list_reply rule_response) (list_rules cx u d)) d)"

definition rest_create_rule ::
  "('h, 'w) rest_env \<Rightarrow> rls_ctx \<Rightarrow> string \<Rightarrow> rule_create_request \<Rightarrow> db \<Rightarrow> reply \<times> db" where
  "rest_create_rule E cx u q =
     handler cx (valid_rule_request q) (\<lambda>d.
       changes (catching (catch_dataset u) (catch_exists (re_str_exc E)))
         (\<lambda>r. rendered 201 (rule_response r)) (create_rule cx u q (re_now E) d))"

definition rest_get_rule :: "rls_ctx \<Rightarrow> string \<Rightarrow> string \<Rightarrow> db \<Rightarrow> reply \<times> db" where
  "rest_get_rule cx u c =
     handler cx True (\<lambda>d.
       reads (answer (catching (catch_dataset u) (catch_rule u c)) (\<lambda>r. rendered 200 (rule_response r))
         (get_rule cx u c d)) d)"

definition rest_update_rule ::
  "('h, 'w) rest_env \<Rightarrow> rls_ctx \<Rightarrow> string \<Rightarrow> string \<Rightarrow> rule_patch \<Rightarrow> db \<Rightarrow> reply \<times> db" where
  "rest_update_rule E cx u c q =
     handler cx (valid_rule_patch q) (\<lambda>d.
       changes (catching (catch_dataset u) (catching (catch_rule u c) (catch_rule_request (re_str_exc E))))
         (\<lambda>r. rendered 200 (rule_response r)) (update_rule cx u c q d))"

definition rest_delete_rule :: "rls_ctx \<Rightarrow> string \<Rightarrow> string \<Rightarrow> db \<Rightarrow> reply \<times> db" where
  "rest_delete_rule cx u c =
     handler cx True (\<lambda>d.
       changes (catching (catch_dataset u) (catch_rule u c)) (\<lambda>_. NoContent) (delete_rule cx u c d))"

definition rest_enable_rule :: "rls_ctx \<Rightarrow> string \<Rightarrow> string \<Rightarrow> bool \<Rightarrow> db \<Rightarrow> reply \<times> db" where
  "rest_enable_rule cx u c enabled =
     handler cx True (\<lambda>d.
       changes (catching (catch_dataset u) (catch_rule u c)) (\<lambda>r. rendered 200 (rule_response r))
         (set_rule_enabled cx u c enabled d))"

definition rest_vectorize_now :: "('h, 'w) rest_env \<Rightarrow> rls_ctx \<Rightarrow> string \<Rightarrow> string \<Rightarrow> db \<Rightarrow> reply \<times> db" where
  "rest_vectorize_now E cx u c =
     handler cx True (\<lambda>d.
       changes (catching (catch_dataset u) (catching (catch_rule u c) (catch_rule_request (re_str_exc E))))
         (\<lambda>(t, created). Reply 200 (task_response t))
         (submit_vectorize_task cx u c (re_uuids E 0) (re_now E) (re_other E) d))"

section \<open>Search and metadata\<close>

definition rest_search ::
  "('h, 'w) rest_env \<Rightarrow> rls_ctx \<Rightarrow> string \<Rightarrow> lance_query \<Rightarrow> db \<times> 'w \<Rightarrow> reply \<times> db \<times> 'w" where
  "rest_search E cx u q dw =
     (case require_current_tenant (cx_principal cx) of
        Inl e \<Rightarrow> (Crash e, dw)
      | Inr p \<Rightarrow>
          if \<not> valid_search_request q then (Unprocessable, dw)
          else case search (re_lance E) (re_settings E) cx u q (fst dw) (snd dw) of
                 (r, w) \<Rightarrow>
                   (answer (catching (catch_dataset u) catch_search)
                      (\<lambda>rows. Reply 200 (JObj
                        [(''results'', JList (map JObj rows)), (''count'', JInt (int (length rows))),
                         (''column'', JStr (lq_column q)), (''k'', JInt (lq_limit q))])) r,
                    fst dw, w))"

definition catch_disabled :: catch where
  "catch_disabled e = (if e = GravitinoDisabledError then Some gravitino_unavailable else None)"

definition sync_body :: "('h, 'w) rest_env \<Rightarrow> principal \<Rightarrow> string option \<Rightarrow> bool \<Rightarrow> meta_sync_result \<Rightarrow> reply" where
  "sync_body E p schema dry_run res =
     Reply 200 (JObj
       [(''schemas_scanned'', JInt (if \<not> truthy schema then int (ms_schemas_scanned res) else 1)),
        (''filesets_discovered'', JInt (int (ms_discovered res))),
        (''datasets_created'', JInt (int (ms_created res))),
        (''datasets_updated'', JInt (int (ms_updated res))),
        (''errors'', JList (map (\<lambda>(place, e). JStr (place @ '': '' @ re_str_exc E e)) (ms_errors res))),
        (''dry_run'', JBool dry_run), (''tenant_id'', JStr (p_tenant_id p))])"

definition rest_meta_sync ::
  "('h, 'w) rest_env \<Rightarrow> rls_ctx \<Rightarrow> string option \<Rightarrow> bool \<Rightarrow> db \<times> 'w \<Rightarrow> reply \<times> db \<times> 'w" where
  "rest_meta_sync E cx schema dry_run dw =
     (case require_current_tenant (cx_principal cx) of
        Inl e \<Rightarrow> (Crash e, dw)
      | Inr p \<Rightarrow>
          if \<not> gc_enabled (re_settings E) then (gravitino_unavailable, dw)
          else
            (case (if truthy schema
                   then reconcile_schema cx (re_http E) (re_settings E) (re_uuids E) 0 (re_now E)
                          (the schema) (p_tenant_id p) dry_run (fst dw) (snd dw)
                   else reconcile_all cx (re_http E) (re_settings E) (re_uuids E) (re_now E)
                          (p_tenant_id p) dry_run (fst dw) (snd dw)) of
               (r, d, n, w) \<Rightarrow> (answer catch_disabled (sync_body E p schema dry_run) r, d, w)))"

definition rest_gravitino ::
  "('h, 'w) rest_env \<Rightarrow> rls_ctx \<Rightarrow> ('w, 'a) io \<Rightarrow> ('a \<Rightarrow> json) \<Rightarrow> db \<times> 'w \<Rightarrow> reply \<times> db \<times> 'w" where
  "rest_gravitino E cx call body dw =
     (case require_current_tenant (cx_principal cx) of
        Inl e \<Rightarrow> (Crash e, dw)
      | Inr p \<Rightarrow>
          if \<not> gc_enabled (re_settings E) then (gravitino_unavailable, dw)
          else case call (snd dw) of
                 (r, w) \<Rightarrow> (answer catch_disabled (\<lambda>x. Reply 200 (body x)) r, fst dw, w))"

definition rest_list_schemas :: "('h, 'w) rest_env \<Rightarrow> rls_ctx \<Rightarrow> db \<times> 'w \<Rightarrow> reply \<times> db \<times> 'w" where
  "rest_list_schemas E cx =
     rest_gravitino E cx (gc_list_schemas (re_http E) (re_settings E))
       (\<lambda>schemas. JObj [(''schemas'', JList (map JStr schemas)),
                        (''catalog'', JStr (gravitino_catalog (re_settings E)))])"

definition rest_list_filesets :: "('h, 'w) rest_env \<Rightarrow> rls_ctx \<Rightarrow> string \<Rightarrow> db \<times> 'w \<Rightarrow> reply \<times> db \<times> 'w" where
  "rest_list_filesets E cx schema =
     rest_gravitino E cx (gc_list_filesets (re_http E) (re_settings E) schema)
       (\<lambda>filesets. JObj [(''schema'', JStr schema), (''filesets'', JList (map JStr filesets))])"

definition rest_write_back :: "('h, 'w) rest_env \<Rightarrow> rls_ctx \<Rightarrow> string \<Rightarrow> db \<times> 'w \<Rightarrow> reply \<times> db \<times> 'w" where
  "rest_write_back E cx u dw =
     (case require_current_tenant (cx_principal cx) of
        Inl e \<Rightarrow> (Crash e, dw)
      | Inr p \<Rightarrow>
          if \<not> gc_enabled (re_settings E) then (gravitino_unavailable, dw)
          else case write_back_stats cx (re_http E) (re_settings E) u (re_now E) (fst dw) (snd dw) of
                 (r, w) \<Rightarrow>
                   (answer (\<lambda>_. None)
                      (\<lambda>ok. Reply 200 (JObj [(''dataset_uuid'', JStr u), (''written_back'', JBool ok),
                                             (''tenant_id'', JStr (p_tenant_id p))])) r,
                    fst dw, w))"

section \<open>The application\<close>

text \<open>What \<open>create_app\<close> includes: one constructor per route, with its decoded parameters.\<close>

datatype endpoint =
    ListDatasets "string option" "string option" int int
  | CreateDataset dataset_register_request
  | GetDataset string
  | DeleteDataset string
  | ListTasks "string option" "string option" "string option" int int
  | SubmitTask submit_args
  | GetTask string
  | CancelTask string
  | RetryTask string
  | ListIndexes string
  | CreateIndex string index_create_request
  | GetIndex string string
  | DropIndex string string
  | OptimizeIndex string string
  | MergeIndex string string
  | ListPolicies string
  | CreatePolicy string policy_create_request
  | GetPolicy string string
  | UpdatePolicy string string policy_patch
  | DeletePolicy string string
  | EnablePolicy string string bool
  | ListRules string
  | CreateRule string rule_create_request
  | GetRule string string
  | UpdateRule string string rule_patch
  | DeleteRule string string
  | EnableRule string string bool
  | VectorizeNow string string

fun serve :: "('h, 'w) rest_env \<Rightarrow> rls_ctx \<Rightarrow> endpoint \<Rightarrow> db \<Rightarrow> reply \<times> db" where
  "serve E cx (ListDatasets c s p n) = rest_list_datasets cx c s p n"
| "serve E cx (CreateDataset q) = rest_create_dataset E cx q"
| "serve E cx (GetDataset u) = rest_get_dataset cx u"
| "serve E cx (DeleteDataset u) = rest_delete_dataset cx u"
| "serve E cx (ListTasks ds ty st p n) = rest_list_tasks cx ds ty st p n"
| "serve E cx (SubmitTask q) = rest_submit_task E cx q"
| "serve E cx (GetTask u) = rest_get_task cx u"
| "serve E cx (CancelTask u) = rest_cancel_task E cx u"
| "serve E cx (RetryTask u) = rest_retry_task E cx u"
| "serve E cx (ListIndexes u) = rest_list_indexes cx u"
| "serve E cx (CreateIndex u q) = rest_create_index E cx u q"
| "serve E cx (GetIndex u n) = rest_get_index cx u n"
| "serve E cx (DropIndex u n) = rest_drop_index cx u n"
| "serve E cx (OptimizeIndex u n) = rest_optimize_index E cx u n"
| "serve E cx (MergeIndex u n) = rest_merge_index E cx u n"
| "serve E cx (ListPolicies u) = rest_list_policies cx u"
| "serve E cx (CreatePolicy u q) = rest_create_policy E cx u q"
| "serve E cx (GetPolicy u n) = rest_get_policy cx u n"
| "serve E cx (UpdatePolicy u n q) = rest_update_policy cx u n q"
| "serve E cx (DeletePolicy u n) = rest_delete_policy cx u n"
| "serve E cx (EnablePolicy u n b) = rest_enable_policy cx u n b"
| "serve E cx (ListRules u) = rest_list_rules cx u"
| "serve E cx (CreateRule u q) = rest_create_rule E cx u q"
| "serve E cx (GetRule u c) = rest_get_rule cx u c"
| "serve E cx (UpdateRule u c q) = rest_update_rule E cx u c q"
| "serve E cx (DeleteRule u c) = rest_delete_rule cx u c"
| "serve E cx (EnableRule u c b) = rest_enable_rule cx u c b"
| "serve E cx (VectorizeNow u c) = rest_vectorize_now E cx u c"

end
