(* ===== verification/Isolation.thy ===== *)
theory Isolation
  imports Rest
begin

text \<open>
  Tenant isolation of the REST surface: whatever a tenant requests, the rows of the other
  tenants stay as they are and no body shows one of them.  Indexes, policies and rules carry no
  tenant; they belong to the tenant of their dataset.
\<close>

section \<open>What belongs to the others\<close>

definition foreign :: "string \<Rightarrow> db \<Rightarrow> string \<Rightarrow> bool" where
  "foreign T d u \<longleftrightarrow> list_ex (\<lambda>r. ds_uuid r = u \<and> ds_tenant r \<noteq> T) (datasets d)"

definition untouched :: "string \<Rightarrow> db \<Rightarrow> db \<Rightarrow> bool" where
  "untouched T d d' \<longleftrightarrow>
     filter (\<lambda>r. ds_tenant r \<noteq> T) (datasets d') = filter (\<lambda>r. ds_tenant r \<noteq> T) (datasets d)
   \<and> filter (\<lambda>t. tk_tenant t \<noteq> T) (tasks d') = filter (\<lambda>t. tk_tenant t \<noteq> T) (tasks d)
   \<and> (\<forall>u. foreign T d u \<longrightarrow>
        filter (\<lambda>i. ix_dataset i = u) (indexes d') = filter (\<lambda>i. ix_dataset i = u) (indexes d)
      \<and> filter (\<lambda>p. lp_dataset p = u) (policies d') = filter (\<lambda>p. lp_dataset p = u) (policies d)
      \<and> filter (\<lambda>r. vr_dataset r = u) (rules d') = filter (\<lambda>r. vr_dataset r = u) (rules d))"

text \<open>The objects a reply shows, and when one of them is the tenant's own.\<close>

fun objects :: "json list \<Rightarrow> params list" where
  "objects [] = []"
| "objects (JObj kvs # js) = kvs # objects js"
| "objects (_ # js) = objects js"

fun disclosed :: "reply \<Rightarrow> params list" where
  "disclosed (Reply n (JObj kvs)) =
     (case map_of kvs ''items'' of Some (JList js) \<Rightarrow> objects js | _ \<Rightarrow> [kvs])"
| "disclosed _ = []"

definition own :: "string \<Rightarrow> db \<Rightarrow> params \<Rightarrow> bool" where
  "own T d kvs \<longleftrightarrow>
     map_of kvs ''tenant_id'' = Some (JStr T)
   \<or> list_ex (\<lambda>r. ds_tenant r = T \<and> map_of kvs ''dataset_uuid'' = Some (JStr (ds_uuid r))) (datasets d)"

section \<open>Changes inside one dataset\<close>

text \<open>
  \<open>inside T u d d'\<close>: a change that adds only tasks of \<open>T\<close> and touches only children of the
  dataset \<open>u\<close>.
\<close>

definition inside :: "string \<Rightarrow> string \<Rightarrow> db \<Rightarrow> db \<Rightarrow> bool" where
  "inside T u d d' \<longleftrightarrow>
     datasets d' = datasets d
   \<and> filter (\<lambda>t. tk_tenant t \<noteq> T) (tasks d') = filter (\<lambda>t. tk_tenant t \<noteq> T) (tasks d)
   \<and> (\<forall>v. v \<noteq> u \<longrightarrow>
        filter (\<lambda>i. ix_dataset i = v) (indexes d') = filter (\<lambda>i. ix_dataset i = v) (indexes d)
      \<and> filter (\<lambda>p. lp_dataset p = v) (policies d') = filter (\<lambda>p. lp_dataset p = v) (policies d)
      \<and> filter (\<lambda>r. vr_dataset r = v) (rules d') = filter (\<lambda>r. vr_dataset r = v) (rules d))"

named_theorems inside_intros \<open>changes inside one dataset\<close>

lemma inside_refl [inside_intros]: "inside T u d d"
  by (simp add: inside_def)

lemma inside_trans: "inside T u a b \<Longrightarrow> inside T u b c \<Longrightarrow> inside T u a c"
  by (simp add: inside_def)

lemma inside_untouched: "inside T u d d' \<Longrightarrow> \<not> foreign T d u \<Longrightarrow> untouched T d d'"
  unfolding inside_def untouched_def by metis

lemma filter_upd_where_other:
  "(\<And>x. x \<in> set xs \<Longrightarrow> P x \<Longrightarrow> \<not> Q x \<and> \<not> Q (f x)) \<Longrightarrow> filter Q (upd_where P f xs) = filter Q xs"
  by (induction xs) (auto simp: upd_where_def)

lemma inside_updates [inside_intros]:
  "(\<And>i. ix_dataset (f i) = ix_dataset i) \<Longrightarrow> inside T u d (upd_index (u, n) f d)"
  "inside T u d (delete_index_row (u, n) d)"
  "(\<And>p. lp_dataset (g p) = lp_dataset p) \<Longrightarrow> inside T u d (upd_policy (u, n) g d)"
  "inside T u d (delete_policy_row (u, n) d)"
  "(\<And>r. vr_dataset (h r) = vr_dataset r) \<Longrightarrow> inside T u d (upd_rule (u, n) h d)"
  "inside T u d (delete_rule_row (u, n) d)"
  by (auto simp: inside_def upd_index_def upd_policy_def upd_rule_def delete_index_row_def
      delete_policy_row_def delete_rule_row_def intro!: filter_upd_where_other filter_cong)

lemma inside_inserts:
  "insert_index i d = Inr d' \<Longrightarrow> inside T (ix_dataset i) d d'"
  "insert_policy p d = Inr d' \<Longrightarrow> inside T (lp_dataset p) d d'"
  "insert_rule r d = Inr d' \<Longrightarrow> inside T (vr_dataset r) d d'"
  by (auto simp: inside_def insert_defs split: if_splits)

lemma inside_submit:
  assumes "submit_task cx q uuid now (\<lambda>x. x) d = (r, d')" and "cx_principal cx = Some p"
  shows "inside (p_tenant_id p) u d d'"
  using assms
  by (auto simp: submit_task_def inside_def require_current_tenant_def Let_def insert_defs new_task_def
      split: sum.splits option.splits if_splits)

section \<open>A tenant's request\<close>

definition tenant_context :: "string \<Rightarrow> rls_ctx \<Rightarrow> bool" where
  "tenant_context T cx \<longleftrightarrow>
     cx_enforce cx \<and> (case cx_principal cx of None \<Rightarrow> False | Some p \<Rightarrow> \<not> p_is_system p \<and> p_tenant_id p = T)"

lemma tenant_context:
  assumes "tenant_context T cx"
  shows "sees cx t \<longleftrightarrow> t = T" and "authenticated cx"
    and "\<exists>p. cx_principal cx = Some p \<and> p_tenant_id p = T"
  using assms by (auto simp: tenant_context_def sees_def authenticated_def split: option.splits)

lemma own_dataset:
  assumes "wf_db d" and "tenant_context T cx" and "get_dataset cx u d = Inr ds"
  shows "ds \<in> set (datasets d)" and "ds_uuid ds = u" and "ds_tenant ds = T" and "\<not> foreign T d u"
proof -
  from get_dataset_Inr [OF assms(3)] tenant_context(1) [OF assms(2)]
  show ds: "ds \<in> set (datasets d)" "ds_uuid ds = u" "ds_tenant ds = T" by auto
  have "unique_on uk_dataset_uuid (datasets d)" using assms(1) by (simp add: wf_db_def)
  from unique_on_eqI [OF this _ ds(1)] have "r = ds" if "r \<in> set (datasets d)" "ds_uuid r = u" for r
    using that ds(2) by (auto simp: uk_dataset_uuid_def)
  then show "\<not> foreign T d u" using ds(3) by (auto simp: foreign_def list_ex_iff)
qed

section \<open>The services change only what is the tenant's\<close>

lemma parent_index: "get_index cx u n d = Inr i \<Longrightarrow> \<exists>ds. get_dataset cx u d = Inr ds"
  by (auto simp: get_index_def split: sum.splits)

lemma parent_policy: "get_policy cx u n d = Inr i \<Longrightarrow> \<exists>ds. get_dataset cx u d = Inr ds"
  by (auto simp: get_policy_def split: sum.splits)

lemma parent_rule: "get_rule cx u n d = Inr i \<Longrightarrow> \<exists>ds. get_dataset cx u d = Inr ds"
  by (auto simp: get_rule_def split: sum.splits)

lemma untouched_refl [simp]: "untouched T d d"
  by (simp add: untouched_def)

text \<open>A change inside a dataset that the request could resolve.\<close>

lemma untouched_inside:
  assumes "wf_db d" and "tenant_context T cx" and "get_dataset cx u d = Inr ds" and "inside T u d d'"
  shows "untouched T d d'"
  using inside_untouched [OF assms(4) own_dataset(4) [OF assms(1-3)]] .

lemma untouched_datasets:
  assumes "wf_db d" and "tenant_context T cx"
  shows "untouched T d (snd (create_dataset cx q uuid now d))"
    and "untouched T d (snd (delete_dataset cx u d))"
proof -
  obtain p where p: "cx_principal cx = Some p" "p_tenant_id p = T" using tenant_context(3) [OF assms(2)] by blast
  show "untouched T d (snd (create_dataset cx q uuid now d))"
    using p by (auto simp: create_dataset_def require_current_tenant_def untouched_def insert_defs Let_def
        new_dataset_def split: sum.splits if_splits)
  show "untouched T d (snd (delete_dataset cx u d))"
  proof (cases "get_dataset cx u d")
    case (Inr ds)
    note ds = own_dataset [OF assms Inr]
    have "filter (\<lambda>r. ds_tenant r \<noteq> T)
        (upd_where (\<lambda>r. ds_uuid r = u) (\<lambda>r. r\<lparr>ds_status := DELETED\<rparr>) (datasets d))
      = filter (\<lambda>r. ds_tenant r \<noteq> T) (datasets d)"
      using ds(4) by (intro filter_upd_where_other) (auto simp: foreign_def list_ex_iff)
    then show ?thesis
      using Inr ds(2) by (simp add: delete_dataset_def untouched_def set_dataset_status_def)
  qed (simp add: delete_dataset_def)
qed

lemma untouched_task_update:
  assumes "wf_db d" and "tenant_context T cx" and "get_task cx u d = Inr t"
    and "\<And>t. tk_tenant (f t) = tk_tenant t" and "datasets d' = datasets d" and "indexes d' = indexes d"
    and "policies d' = policies d" and "rules d' = rules d"
    and "tasks d' = upd_where (\<lambda>t. tk_uuid t = u) f (tasks d)"
  shows "untouched T d d'"
proof -
  note t = get_task_Inr [OF assms(3)]
  have "tk_tenant s = T" if "s \<in> set (tasks d)" "tk_uuid s = u" for s
    using task_by_uuid [OF assms(1) that(1) t(1)] that(2) t(2,3) tenant_context(1) [OF assms(2)] by auto
  then have "filter (\<lambda>t. tk_tenant t \<noteq> T) (upd_where (\<lambda>t. tk_uuid t = u) f (tasks d))
      = filter (\<lambda>t. tk_tenant t \<noteq> T) (tasks d)"
    using assms(4) by (intro filter_upd_where_other) simp
  then show ?thesis using assms(5-9) by (simp add: untouched_def)
qed

lemma untouched_tasks:
  assumes "wf_db d" and "tenant_context T cx"
  shows "untouched T d (snd (cancel_task cx u now d))" and "untouched T d (snd (retry_task cx u d))"
    and "untouched T d (snd (submit_task cx q uuid now (\<lambda>x. x) d))"
proof -
  show "untouched T d (snd (cancel_task cx u now d))"
    by (cases "get_task cx u d")
      (auto simp: cancel_task_def Let_def upd_task_def decrement_in_flight_def upd_worker_def set_cancelled_def
        intro!: untouched_task_update [OF assms, where f = "set_cancelled now"])
  show "untouched T d (snd (retry_task cx u d))"
    by (cases "get_task cx u d")
      (auto simp: retry_task_def upd_task_def set_retried_def
        intro!: untouched_task_update [OF assms, where f = set_retried])
  obtain p where "cx_principal cx = Some p" "p_tenant_id p = T" using tenant_context(3) [OF assms(2)] by blast
  then show "untouched T d (snd (submit_task cx q uuid now (\<lambda>x. x) d))"
    by (auto simp: submit_task_def untouched_def require_current_tenant_def Let_def insert_defs new_task_def
        split: sum.splits option.splits if_splits)
qed

lemma inside_create_index:
  assumes "cx_principal cx = Some p" and "get_dataset cx u d = Inr ds"
  shows "inside (p_tenant_id p) u d (snd (create_index cx str_exc u q uuid now (\<lambda>x. x) d))"
proof (cases "if icr_replace q then maybe_get_index u (icr_name q) d else Inr None")
  case (Inl e)
  then show ?thesis using assms(2) by (simp add: create_index_def inside_refl)
next
  case (Inr existing)
  let ?T = "p_tenant_id p"
  define d1 where "d1 = (case existing of None \<Rightarrow> d | Some _ \<Rightarrow> delete_index_row (u, icr_name q) d)"
  define row where "row = new_index u (icr_name q) (icr_column q) (icr_type q) (icr_params q) now"
  have d1: "inside ?T u d d1" by (cases existing) (simp_all add: d1_def inside_refl inside_updates)
  show ?thesis
  proof (cases "insert_index row d1")
    case (Inl e)
    then show ?thesis using assms(2) Inr by (simp add: create_index_def d1_def row_def Let_def inside_refl)
  next
    case ins: (Inr d2)
    have "ix_dataset row = u" by (simp add: row_def new_index_def)
    with inside_inserts(1) [OF ins] have d2: "inside ?T u d1 d2" by simp
    obtain r d3 where sub: "submit_task cx (build_args u q (next_index_id d1)) uuid now (\<lambda>x. x) d2 = (r, d3)"
      by fastforce
    have d3: "inside ?T u d d3"
      by (rule inside_trans [OF inside_trans [OF d1 d2] inside_submit [OF sub assms(1)]])
    have "snd (create_index cx str_exc u q uuid now (\<lambda>x. x) d)
        = (case r of Inr _ \<Rightarrow> d3 | Inl e \<Rightarrow> upd_index (u, icr_name q) (set_ix_error IX_FAILED (str_exc e)) d3)"
      using assms(2) Inr ins sub
      by (simp add: create_index_def d1_def row_def Let_def split: sum.split)
    then show ?thesis
      using d3 by (auto simp: set_ix_error_def split: sum.split intro!: inside_trans [OF d3] inside_updates)
  qed
qed

lemma inside_optimize_index:
  assumes "cx_principal cx = Some p"
  shows "inside (p_tenant_id p) u d (snd (optimize_index cx str_exc u n uuid now (\<lambda>x. x) d))"
proof (cases "get_index cx u n d")
  case (Inl e)
  then show ?thesis by (simp add: optimize_index_def inside_refl)
next
  case (Inr i)
  let ?d1 = "upd_index (u, n) (set_optimizing now) d"
  obtain r d2 where sub: "submit_task cx (optimize_args u n (ix_id i) now) uuid now (\<lambda>x. x) ?d1 = (r, d2)" by fastforce
  have "inside (p_tenant_id p) u d ?d1" by (rule inside_updates) (simp add: set_optimizing_def)
  then have d2: "inside (p_tenant_id p) u d d2" using inside_submit [OF sub assms] by (rule inside_trans)
  show ?thesis
    using Inr sub d2
    by (auto simp: optimize_index_def Let_def inside_refl set_ix_error_def split: sum.split
        intro!: inside_trans [OF d2] inside_updates)
qed

lemma inside_indexes:
  "inside T u d (snd (drop_index cx u n d))" "inside T u d (snd (merge_index cx u n now d))"
  by (auto simp: drop_index_def merge_index_def set_merging_def inside_refl split: sum.split intro!: inside_updates)

lemma inside_policies:
  "inside T u d (snd (create_policy cx u q now d))" "inside T u d (snd (update_policy cx u n pp d))"
  "inside T u d (snd (delete_policy cx u n d))" "inside T u d (snd (set_policy_enabled cx u n b d))"
  using inside_inserts(2) [of "new_policy u q now" d _ T]
  by (auto simp: create_policy_def update_policy_def delete_policy_def set_policy_enabled_def patch_policy_def
      new_policy_def inside_refl split: sum.split option.split intro!: inside_updates)

lemma inside_rules:
  "inside T u d (snd (create_rule cx u q now d))" "inside T u d (snd (update_rule cx u c rp d))"
  "inside T u d (snd (delete_rule cx u c d))" "inside T u d (snd (set_rule_enabled cx u c b d))"
  using inside_inserts(3) [of "new_rule u q now" d _ T]
  by (auto simp: create_rule_def update_rule_def delete_rule_def set_rule_enabled_def patch_rule_def
      new_rule_def inside_refl Let_def split: sum.split option.split intro!: inside_updates)

lemma inside_vectorize:
  assumes "cx_principal cx = Some p"
  shows "inside (p_tenant_id p) u d (snd (submit_vectorize_task cx u c uuid now (\<lambda>x. x) d))"
  using inside_submit [OF surjective_pairing assms]
  by (auto simp: submit_vectorize_task_def inside_refl split: sum.split)

section \<open>The endpoints\<close>

lemma snd_handler:
  "snd (handler cx valid call d) = d \<or> snd (handler cx valid call d) = snd (call d)"
  by (auto simp: handler_def split: sum.split)

lemma snd_changes [simp]: "snd (changes f body rd) = snd rd"
  and snd_reads [simp]: "snd (reads r d) = d"
  by (simp_all add: changes_def reads_def)

lemma untouched_handler:
  "untouched T d (snd (call d)) \<Longrightarrow> untouched T d (snd (handler cx valid call d))"
  using snd_handler [of cx valid call d] by auto

lemma hidden_parent:
  assumes "get_dataset cx u d = Inl e"
  shows "snd (create_index cx str_exc u iq uuid now other d) = d" "snd (drop_index cx u n d) = d"
    "snd (optimize_index cx str_exc u n uuid now other d) = d" "snd (merge_index cx u n now d) = d"
    "snd (create_policy cx u pq now d) = d" "snd (update_policy cx u n pp d) = d"
    "snd (delete_policy cx u n d) = d" "snd (set_policy_enabled cx u n b d) = d"
    "snd (create_rule cx u rq now d) = d" "snd (update_rule cx u n rp d) = d" "snd (delete_rule cx u n d) = d"
    "snd (set_rule_enabled cx u n b d) = d" "snd (submit_vectorize_task cx u n uuid now other d) = d"
  using assms
  by (simp_all add: create_index_def drop_index_def optimize_index_def merge_index_def get_index_def
      create_policy_def update_policy_def delete_policy_def set_policy_enabled_def get_policy_def
      create_rule_def update_rule_def delete_rule_def set_rule_enabled_def submit_vectorize_task_def get_rule_def)

lemma untouched_child:
  assumes "wf_db d" and "tenant_context T cx" and "inside T u d d'"
    and "\<And>e. get_dataset cx u d = Inl e \<Longrightarrow> d' = d"
  shows "untouched T d d'"
  using untouched_inside [OF assms(1,2) _ assms(3)] assms(4) by (cases "get_dataset cx u d") auto

lemma untouched_children:
  assumes "wf_db d" and "tenant_context T cx"
  shows "untouched T d (snd (create_index cx str_exc u iq uuid now (\<lambda>x. x) d))"
    "untouched T d (snd (optimize_index cx str_exc u n uuid now (\<lambda>x. x) d))"
    "untouched T d (snd (submit_vectorize_task cx u n uuid now (\<lambda>x. x) d))"
    "untouched T d (snd (drop_index cx u n d))" "untouched T d (snd (merge_index cx u n now d))"
    "untouched T d (snd (create_policy cx u pq now d))" "untouched T d (snd (update_policy cx u n pp d))"
    "untouched T d (snd (delete_policy cx u n d))" "untouched T d (snd (set_policy_enabled cx u n b d))"
    "untouched T d (snd (create_rule cx u rq now d))" "untouched T d (snd (update_rule cx u n rp d))"
    "untouched T d (snd (delete_rule cx u n d))" "untouched T d (snd (set_rule_enabled cx u n b d))"
proof -
  obtain p where p: "cx_principal cx = Some p" "p_tenant_id p = T" using tenant_context(3) [OF assms(2)] by blast
  note child = untouched_child [OF assms]
  show "untouched T d (snd (create_index cx str_exc u iq uuid now (\<lambda>x. x) d))"
  proof (cases "get_dataset cx u d")
    case (Inr ds)
    then show ?thesis
      using untouched_inside [OF assms Inr] inside_create_index [OF p(1) Inr] p(2) by blast
  qed (simp add: hidden_parent)
  show "untouched T d (snd (optimize_index cx str_exc u n uuid now (\<lambda>x. x) d))"
    using inside_optimize_index [OF p(1)] p(2) by (intro child [OF _ hidden_parent(3)]) simp_all
  show "untouched T d (snd (submit_vectorize_task cx u n uuid now (\<lambda>x. x) d))"
    using inside_vectorize [OF p(1)] p(2) by (intro child [OF _ hidden_parent(13)]) simp_all
  show "untouched T d (snd (drop_index cx u n d))" by (rule child [OF inside_indexes(1) hidden_parent(2)])
  show "untouched T d (snd (merge_index cx u n now d))" by (rule child [OF inside_indexes(2) hidden_parent(4)])
  show "untouched T d (snd (create_policy cx u pq now d))" by (rule child [OF inside_policies(1) hidden_parent(5)])
  show "untouched T d (snd (update_policy cx u n pp d))" by (rule child [OF inside_policies(2) hidden_parent(6)])
  show "untouched T d (snd (delete_policy cx u n d))" by (rule child [OF inside_policies(3) hidden_parent(7)])
  show "untouched T d (snd (set_policy_enabled cx u n b d))"
    by (rule child [OF inside_policies(4) hidden_parent(8)])
  show "untouched T d (snd (create_rule cx u rq now d))" by (rule child [OF inside_rules(1) hidden_parent(9)])
  show "untouched T d (snd (update_rule cx u n rp d))" by (rule child [OF inside_rules(2) hidden_parent(10)])
  show "untouched T d (snd (delete_rule cx u n d))" by (rule child [OF inside_rules(3) hidden_parent(11)])
  show "untouched T d (snd (set_rule_enabled cx u n b d))" by (rule child [OF inside_rules(4) hidden_parent(12)])
qed

lemma serve_untouched:
  assumes "wf_db d" and "tenant_context T cx" and "re_other E = (\<lambda>x. x)"
  shows "untouched T d (snd (serve E cx ep d))"
  using untouched_children [OF assms(1,2)] untouched_datasets [OF assms(1,2)] untouched_tasks [OF assms(1,2)]
  by (cases ep)
    (simp_all add: assms(3) rest_list_datasets_def rest_create_dataset_def rest_get_dataset_def
      rest_delete_dataset_def rest_list_tasks_def rest_submit_task_def rest_get_task_def rest_cancel_task_def
      rest_retry_task_def rest_list_indexes_def rest_create_index_def rest_get_index_def rest_drop_index_def
      rest_optimize_index_def rest_merge_index_def rest_list_policies_def rest_create_policy_def
      rest_get_policy_def rest_update_policy_def rest_delete_policy_def rest_enable_policy_def
      rest_list_rules_def rest_create_rule_def rest_get_rule_def rest_update_rule_def rest_delete_rule_def
      rest_enable_rule_def rest_vectorize_now_def untouched_handler)

section \<open>What the bodies show\<close>

definition silent :: "catch \<Rightarrow> bool" where
  "silent f \<longleftrightarrow> (\<forall>e r. f e = Some r \<longrightarrow> disclosed r = [])"

lemma silent_catching: "silent f \<Longrightarrow> silent g \<Longrightarrow> silent (catching f g)"
  by (auto simp: silent_def catching_def split: option.splits)

lemma silent_none: "silent (\<lambda>_. None)"
  by (simp add: silent_def)

lemma silent_catches:
  "silent (catch_dataset u)" "silent (catch_task u)" "silent (catch_index u n)" "silent (catch_policy u n)"
  "silent (catch_rule u n)" "silent (catch_exists str_exc)" "silent (catch_transition str_exc)"
  "silent (catch_rule_request str_exc)"
proof -
  note defs = silent_def not_found_def conflict_def bad_request_def
  show "silent (catch_dataset u)" unfolding silent_def
    by (intro allI, case_tac e) (auto simp: defs)
  show "silent (catch_task u)" unfolding silent_def
    by (intro allI, case_tac e) (auto simp: defs)
  show "silent (catch_index u n)" unfolding silent_def
    by (intro allI, case_tac e) (auto simp: defs)
  show "silent (catch_policy u n)" unfolding silent_def
    by (intro allI, case_tac e) (auto simp: defs)
  show "silent (catch_rule u n)" unfolding silent_def
    by (intro allI, case_tac e) (auto simp: defs)
  show "silent (catch_exists str_exc)" unfolding silent_def
    by (intro allI, case_tac e) (auto simp: defs)
  show "silent (catch_transition str_exc)" unfolding silent_def
    by (intro allI, case_tac e) (auto simp: defs)
  show "silent (catch_rule_request str_exc)" unfolding silent_def
    by (intro allI, case_tac e) (auto simp: defs)
qed

lemmas silent_intros = silent_catching silent_none silent_catches

lemma disclosed_changes:
  assumes "kvs \<in> set (disclosed (fst (handler cx valid (\<lambda>d. changes f body (call d)) d)))" and "silent f"
  obtains x where "fst (call d) = Inr x" "kvs \<in> set (disclosed (body x))"
    "snd (handler cx valid (\<lambda>d. changes f body (call d)) d) = snd (call d)"
  using assms
  by (auto simp: handler_def changes_def answer_def silent_def split: sum.splits if_splits option.splits)

lemma disclosed_reads:
  assumes "kvs \<in> set (disclosed (fst (handler cx valid (\<lambda>d. reads (answer f body (call d)) d) d)))" and "silent f"
  obtains x where "call d = Inr x" "kvs \<in> set (disclosed (body x))"
  using assms
  by (auto simp: handler_def reads_def answer_def silent_def split: sum.splits if_splits option.splits)

lemma shown_rows [simp]:
  "kvs \<in> set (disclosed (Reply n (dataset_response r))) \<Longrightarrow> map_of kvs ''tenant_id'' = Some (JStr (ds_tenant r))"
  "kvs \<in> set (disclosed (Reply n (task_response t))) \<Longrightarrow> map_of kvs ''tenant_id'' = Some (JStr (tk_tenant t))"
  "kvs \<in> set (disclosed (Reply n (policy_response p))) \<Longrightarrow> map_of kvs ''dataset_uuid'' = Some (JStr (lp_dataset p))"
  "kvs \<in> set (disclosed (rendered n (index_response i))) \<Longrightarrow> map_of kvs ''dataset_uuid'' = Some (JStr (ix_dataset i))"
  "kvs \<in> set (disclosed (rendered n (rule_response v))) \<Longrightarrow> map_of kvs ''dataset_uuid'' = Some (JStr (vr_dataset v))"
  by (auto simp: dataset_response_def task_response_def policy_response_def index_response_def rule_response_def
      rendered_def split: if_splits option.splits)

lemma objects_items:
  "all_items f xs = Inr js \<Longrightarrow> kvs \<in> set (objects js) \<Longrightarrow> \<exists>x\<in>set xs. f x = Inr (JObj kvs)"
proof (induction xs arbitrary: js)
  case (Cons x xs)
  then obtain j js' where js: "f x = Inr j" "all_items f xs = Inr js'" "js = j # js'"
    by (auto split: sum.splits)
  then show ?case using Cons by (cases j) auto
qed simp

lemma objects_map: "kvs \<in> set (objects (map f xs)) \<Longrightarrow> \<exists>x\<in>set xs. f x = JObj kvs"
proof (induction xs)
  case (Cons x xs)
  then show ?case by (cases "f x") auto
qed simp

lemma shown_list:
  "kvs \<in> set (disclosed (list_reply f r)) \<Longrightarrow> \<exists>x\<in>set (fst r). f x = Inr (JObj kvs)"
  "kvs \<in> set (disclosed (page_reply g page n r2)) \<Longrightarrow> \<exists>x\<in>set (fst r2). g x = JObj kvs"
  by (auto simp: list_reply_def page_reply_def dest: objects_items objects_map split: sum.splits)

section \<open>What the services return\<close>

lemma one_or_none_mem: "one_or_none xs = Inr (Some x) \<Longrightarrow> x \<in> set xs"
  by (auto simp: one_or_none_def split: list.splits)

lemma page_rows: "x \<in> set (page_of k n xs) \<Longrightarrow> x \<in> set xs"
  by (auto simp: page_of_def dest: in_set_takeD in_set_dropD)

lemma returned_datasets:
  assumes "wf_db d" and "tenant_context T cx"
  shows "fst (create_dataset cx q uuid now d) = Inr r \<Longrightarrow> ds_tenant r = T"
    and "get_dataset cx u d = Inr r \<Longrightarrow> ds_tenant r = T"
    and "list_datasets cx c s p n d = Inr (rs, k) \<Longrightarrow> r \<in> set rs \<Longrightarrow> ds_tenant r = T"
proof -
  obtain p where p: "cx_principal cx = Some p" "p_tenant_id p = T" using tenant_context(3) [OF assms(2)] by blast
  show "fst (create_dataset cx q uuid now d) = Inr r \<Longrightarrow> ds_tenant r = T"
    using p by (auto simp: create_dataset_def require_current_tenant_def Let_def new_dataset_def split: sum.splits)
  show "get_dataset cx u d = Inr r \<Longrightarrow> ds_tenant r = T" by (rule own_dataset(3) [OF assms])
  show "list_datasets cx c s p n d = Inr (rs, k) \<Longrightarrow> r \<in> set rs \<Longrightarrow> ds_tenant r = T" for p
    by (auto simp: list_datasets_def Let_def rls_dataset tenant_context(1,2) [OF assms(2)] dest: page_rows)
qed

lemma selected_task:
  assumes "tenant_context T cx" and "select_by_key cx k d = Inr (Some t)"
  shows "tk_tenant t = T"
  using assms(2) by (auto simp: select_by_key_def rls_task tenant_context(1,2) [OF assms(1)] dest: one_or_none_mem)

lemma returned_tasks:
  assumes "tenant_context T cx"
  shows "fst (submit_task cx q uuid now other d) = Inr (t, created) \<Longrightarrow> tk_tenant t = T"
    and "get_task cx u d = Inr t \<Longrightarrow> tk_tenant t = T"
    and "fst (cancel_task cx u now d) = Inr t \<Longrightarrow> tk_tenant t = T"
    and "fst (retry_task cx u d) = Inr t \<Longrightarrow> tk_tenant t = T"
    and "list_tasks cx ds ty st p n d = Inr (ts, k) \<Longrightarrow> t \<in> set ts \<Longrightarrow> tk_tenant t = T"
proof -
  obtain p where p: "cx_principal cx = Some p" "p_tenant_id p = T" using tenant_context(3) [OF assms] by blast
  show "fst (submit_task cx q uuid now other d) = Inr (t, created) \<Longrightarrow> tk_tenant t = T"
    using p selected_task [OF assms]
    by (auto simp: submit_task_def require_current_tenant_def Let_def new_task_def
        split: sum.splits option.splits if_splits)
  have get: "tk_tenant t = T" if "get_task cx u d = Inr t" for t
    using get_task_Inr(3) [OF that] tenant_context(1) [OF assms] by simp
  then show "get_task cx u d = Inr t \<Longrightarrow> tk_tenant t = T" .
  show "fst (cancel_task cx u now d) = Inr t \<Longrightarrow> tk_tenant t = T"
    using get by (auto simp: cancel_task_def Let_def set_cancelled_def split: sum.splits if_splits)
  show "fst (retry_task cx u d) = Inr t \<Longrightarrow> tk_tenant t = T"
    using get by (auto simp: retry_task_def set_retried_def split: sum.splits if_splits)
  show "list_tasks cx ds ty st p n d = Inr (ts, k) \<Longrightarrow> t \<in> set ts \<Longrightarrow> tk_tenant t = T" for p
    by (auto simp: list_tasks_def Let_def rls_task tenant_context(1,2) [OF assms] dest: page_rows)
qed

text \<open>A child operation that answers has resolved the dataset, and the child is one of its children.\<close>

lemma returned_indexes:
  "fst (create_index cx str_exc u q uuid now other d) = Inr i \<Longrightarrow> ix_dataset i = u \<and> (\<exists>ds. get_dataset cx u d = Inr ds)"
  "get_index cx u n d = Inr i \<Longrightarrow> ix_dataset i = u \<and> (\<exists>ds. get_dataset cx u d = Inr ds)"
  "fst (optimize_index cx str_exc u n uuid now other d) = Inr i
     \<Longrightarrow> ix_dataset i = u \<and> (\<exists>ds. get_dataset cx u d = Inr ds)"
  "fst (merge_index cx u n now d) = Inr i \<Longrightarrow> ix_dataset i = u \<and> (\<exists>ds. get_dataset cx u d = Inr ds)"
  "list_indexes cx u d = Inr (is, k) \<Longrightarrow> i \<in> set is \<Longrightarrow> ix_dataset i = u \<and> (\<exists>ds. get_dataset cx u d = Inr ds)"
proof -
  have get: "ix_dataset i = u \<and> (\<exists>ds. get_dataset cx u d = Inr ds)" if "get_index cx u n d = Inr i" for i
    using that by (auto simp: get_index_def maybe_get_index_def dest!: one_or_none_mem split: sum.splits option.splits)
  then show "get_index cx u n d = Inr i \<Longrightarrow> ix_dataset i = u \<and> (\<exists>ds. get_dataset cx u d = Inr ds)" .
  show "fst (create_index cx str_exc u q uuid now other d) = Inr i
      \<Longrightarrow> ix_dataset i = u \<and> (\<exists>ds. get_dataset cx u d = Inr ds)"
    by (auto simp: create_index_def Let_def new_index_def split: sum.splits prod.splits option.splits if_splits)
  show "fst (optimize_index cx str_exc u n uuid now other d) = Inr i
      \<Longrightarrow> ix_dataset i = u \<and> (\<exists>ds. get_dataset cx u d = Inr ds)"
    using get by (auto simp: optimize_index_def Let_def set_optimizing_def split: sum.splits prod.splits if_splits)
  show "fst (merge_index cx u n now d) = Inr i \<Longrightarrow> ix_dataset i = u \<and> (\<exists>ds. get_dataset cx u d = Inr ds)"
    using get by (auto simp: merge_index_def set_merging_def split: sum.splits if_splits)
  show "list_indexes cx u d = Inr (is, k) \<Longrightarrow> i \<in> set is \<Longrightarrow> ix_dataset i = u \<and> (\<exists>ds. get_dataset cx u d = Inr ds)"
    by (auto simp: list_indexes_def Let_def split: sum.splits)
qed

lemma returned_policies:
  "fst (create_policy cx u q now d) = Inr p \<Longrightarrow> lp_dataset p = u \<and> (\<exists>ds. get_dataset cx u d = Inr ds)"
  "get_policy cx u n d = Inr p \<Longrightarrow> lp_dataset p = u \<and> (\<exists>ds. get_dataset cx u d = Inr ds)"
  "fst (update_policy cx u n pp d) = Inr p \<Longrightarrow> lp_dataset p = u \<and> (\<exists>ds. get_dataset cx u d = Inr ds)"
  "fst (set_policy_enabled cx u n b d) = Inr p \<Longrightarrow> lp_dataset p = u \<and> (\<exists>ds. get_dataset cx u d = Inr ds)"
  "list_policies cx u d = Inr (ps, k) \<Longrightarrow> p \<in> set ps \<Longrightarrow> lp_dataset p = u \<and> (\<exists>ds. get_dataset cx u d = Inr ds)"
proof -
  have get: "lp_dataset p = u \<and> (\<exists>ds. get_dataset cx u d = Inr ds)" if "get_policy cx u n d = Inr p" for p
    using that by (auto simp: get_policy_def maybe_get_policy_def dest!: one_or_none_mem split: sum.splits option.splits)
  then show "get_policy cx u n d = Inr p \<Longrightarrow> lp_dataset p = u \<and> (\<exists>ds. get_dataset cx u d = Inr ds)" .
  show "fst (create_policy cx u q now d) = Inr p \<Longrightarrow> lp_dataset p = u \<and> (\<exists>ds. get_dataset cx u d = Inr ds)"
    by (auto simp: create_policy_def new_policy_def split: sum.splits)
  show "fst (update_policy cx u n pp d) = Inr p \<Longrightarrow> lp_dataset p = u \<and> (\<exists>ds. get_dataset cx u d = Inr ds)"
    using get by (auto simp: update_policy_def patch_policy_def split: sum.splits option.splits)
  show "fst (set_policy_enabled cx u n b d) = Inr p \<Longrightarrow> lp_dataset p = u \<and> (\<exists>ds. get_dataset cx u d = Inr ds)"
    using get by (auto simp: set_policy_enabled_def split: sum.splits if_splits)
  show "list_policies cx u d = Inr (ps, k) \<Longrightarrow> p \<in> set ps \<Longrightarrow> lp_dataset p = u \<and> (\<exists>ds. get_dataset cx u d = Inr ds)"
    by (auto simp: list_policies_def Let_def split: sum.splits)
qed

lemma returned_rules:
  "fst (create_rule cx u q now d) = Inr v \<Longrightarrow> vr_dataset v = u \<and> (\<exists>ds. get_dataset cx u d = Inr ds)"
  "get_rule cx u c d = Inr v \<Longrightarrow> vr_dataset v = u \<and> (\<exists>ds. get_dataset cx u d = Inr ds)"
  "fst (update_rule cx u c rp d) = Inr v \<Longrightarrow> vr_dataset v = u \<and> (\<exists>ds. get_dataset cx u d = Inr ds)"
  "fst (set_rule_enabled cx u c b d) = Inr v \<Longrightarrow> vr_dataset v = u \<and> (\<exists>ds. get_dataset cx u d = Inr ds)"
  "list_rules cx u d = Inr (vs, k) \<Longrightarrow> v \<in> set vs \<Longrightarrow> vr_dataset v = u \<and> (\<exists>ds. get_dataset cx u d = Inr ds)"
proof -
  have get: "vr_dataset v = u \<and> (\<exists>ds. get_dataset cx u d = Inr ds)" if "get_rule cx u c d = Inr v" for v
    using that by (auto simp: get_rule_def maybe_get_rule_def dest!: one_or_none_mem split: sum.splits option.splits)
  then show "get_rule cx u c d = Inr v \<Longrightarrow> vr_dataset v = u \<and> (\<exists>ds. get_dataset cx u d = Inr ds)" .
  show "fst (create_rule cx u q now d) = Inr v \<Longrightarrow> vr_dataset v = u \<and> (\<exists>ds. get_dataset cx u d = Inr ds)"
    by (auto simp: create_rule_def new_rule_def split: sum.splits)
  show "fst (update_rule cx u c rp d) = Inr v \<Longrightarrow> vr_dataset v = u \<and> (\<exists>ds. get_dataset cx u d = Inr ds)"
    using get by (auto simp: update_rule_def patch_rule_def Let_def split: sum.splits if_splits)
  show "fst (set_rule_enabled cx u c b d) = Inr v \<Longrightarrow> vr_dataset v = u \<and> (\<exists>ds. get_dataset cx u d = Inr ds)"
    using get by (auto simp: set_rule_enabled_def split: sum.splits if_splits)
  show "list_rules cx u d = Inr (vs, k) \<Longrightarrow> v \<in> set vs \<Longrightarrow> vr_dataset v = u \<and> (\<exists>ds. get_dataset cx u d = Inr ds)"
    by (auto simp: list_rules_def Let_def split: sum.splits)
qed

lemma returned_vectorize:
  assumes "tenant_context T cx" and "fst (submit_vectorize_task cx u c uuid now other d) = Inr (t, created)"
  shows "tk_tenant t = T"
  using assms(2) returned_tasks(1) [OF assms(1)]
  by (auto simp: submit_vectorize_task_def split: sum.splits if_splits)

lemma own_tenant: "map_of kvs ''tenant_id'' = Some (JStr T) \<Longrightarrow> own T d kvs"
  by (simp add: own_def)

lemma own_child:
  assumes "wf_db d" and "tenant_context T cx" and "u' = u \<and> (\<exists>ds. get_dataset cx u d = Inr ds)"
    and "map_of kvs ''dataset_uuid'' = Some (JStr u')" and "inside T u d d'"
  shows "own T d' kvs"
proof -
  from assms(3) obtain ds where "get_dataset cx u d = Inr ds" by blast
  from own_dataset [OF assms(1,2) this] assms(3-5) show ?thesis
    by (auto simp: own_def inside_def list_ex_iff)
qed

lemma disclosed_empty [simp]: "disclosed NoContent = []"
  by simp

lemma serve_datasets_disclose:
  assumes "wf_db d" and "tenant_context T cx"
    and "(\<exists>c s p n. ep = ListDatasets c s p n)
      \<or> (\<exists>q. ep = CreateDataset q)
      \<or> (\<exists>u. ep = GetDataset u)
      \<or> (\<exists>u. ep = DeleteDataset u)"
    and "kvs \<in> set (disclosed (fst (serve E cx ep d)))"
  shows "own T d' kvs"
  using assms(3,4)
  by (auto simp: rest_list_datasets_def rest_create_dataset_def rest_get_dataset_def rest_delete_dataset_def
      silent_intros dataset_response_def returned_datasets [OF assms(1,2)] intro!: own_tenant
      elim!: disclosed_changes disclosed_reads dest!: shown_list shown_rows)

lemma serve_tasks_disclose:
  assumes "tenant_context T cx"
    and "(\<exists>ds ty st p n. ep = ListTasks ds ty st p n)
      \<or> (\<exists>q. ep = SubmitTask q)
      \<or> (\<exists>u. ep = GetTask u)
      \<or> (\<exists>u. ep = CancelTask u)
      \<or> (\<exists>u. ep = RetryTask u)
      \<or> (\<exists>u c. ep = VectorizeNow u c)"
    and "kvs \<in> set (disclosed (fst (serve E cx ep d)))"
  shows "own T d' kvs"
  using assms(2,3)
  by (auto simp: rest_list_tasks_def rest_submit_task_def rest_get_task_def rest_cancel_task_def
      rest_retry_task_def rest_vectorize_now_def silent_intros task_response_def returned_tasks [OF assms(1)]
      returned_vectorize [OF assms(1)] intro!: own_tenant
      elim!: disclosed_changes disclosed_reads dest!: shown_list shown_rows split: prod.splits)

text \<open>A child endpoint that shows an object: \<open>u'\<close> is the dataset the object names.\<close>

lemma child_changes:
  assumes "wf_db d" and "tenant_context T cx"
    and "kvs \<in> set (disclosed (fst (handler cx valid (\<lambda>d. changes f body (call d)) d)))" and "silent f"
    and "inside T u d (snd (call d))"
    and "\<And>x. fst (call d) = Inr x \<Longrightarrow> kvs \<in> set (disclosed (body x)) \<Longrightarrow>
      map_of kvs ''dataset_uuid'' = Some (JStr u) \<and> (\<exists>ds. get_dataset cx u d = Inr ds)"
  shows "own T (snd (handler cx valid (\<lambda>d. changes f body (call d)) d)) kvs"
proof -
  from disclosed_changes [OF assms(3,4)] obtain x where x: "fst (call d) = Inr x" "kvs \<in> set (disclosed (body x))"
      "snd (handler cx valid (\<lambda>d. changes f body (call d)) d) = snd (call d)" .
  from assms(6) [OF x(1,2)] have "own T (snd (call d)) kvs"
    using own_child [OF assms(1,2) _ _ assms(5), of u kvs] by simp
  then show ?thesis using x(3) by simp
qed

lemma child_reads:
  assumes "wf_db d" and "tenant_context T cx"
    and "kvs \<in> set (disclosed (fst (handler cx valid (\<lambda>d. reads (answer f body (call d)) d) d)))" and "silent f"
    and "\<And>x. call d = Inr x \<Longrightarrow> kvs \<in> set (disclosed (body x)) \<Longrightarrow>
      map_of kvs ''dataset_uuid'' = Some (JStr u) \<and> (\<exists>ds. get_dataset cx u d = Inr ds)"
  shows "own T (snd (handler cx valid (\<lambda>d. reads (answer f body (call d)) d) d)) kvs"
proof -
  from disclosed_reads [OF assms(3,4)] obtain x where "call d = Inr x" "kvs \<in> set (disclosed (body x))" .
  from assms(5) [OF this] have "own T d kvs" using own_child [OF assms(1,2) _ _ inside_refl, of u u kvs] by simp
  moreover have "snd (handler cx valid (\<lambda>d. reads (answer f body (call d)) d) d) = d"
    by (simp add: handler_def split: sum.split)
  ultimately show ?thesis by simp
qed

lemma shown_children:
  "kvs \<in> set (disclosed (list_reply index_response r)) \<Longrightarrow>
     \<exists>i\<in>set (fst r). map_of kvs ''dataset_uuid'' = Some (JStr (ix_dataset i))"
  "kvs \<in> set (disclosed (list_reply (\<lambda>p. Inr (policy_response p)) r2)) \<Longrightarrow>
     \<exists>p\<in>set (fst r2). map_of kvs ''dataset_uuid'' = Some (JStr (lp_dataset p))"
  "kvs \<in> set (disclosed (list_reply rule_response r3)) \<Longrightarrow>
     \<exists>v\<in>set (fst r3). map_of kvs ''dataset_uuid'' = Some (JStr (vr_dataset v))"
proof -
  have i: "index_response i = Inr (JObj kvs) \<Longrightarrow> map_of kvs ''dataset_uuid'' = Some (JStr (ix_dataset i))" for i
    by (auto simp: index_response_def split: if_splits)
  have p: "policy_response p = JObj kvs \<Longrightarrow> map_of kvs ''dataset_uuid'' = Some (JStr (lp_dataset p))" for p
    by (auto simp: policy_response_def)
  have v: "rule_response v = Inr (JObj kvs) \<Longrightarrow> map_of kvs ''dataset_uuid'' = Some (JStr (vr_dataset v))" for v
    by (auto simp: rule_response_def split: option.splits)
  show "kvs \<in> set (disclosed (list_reply index_response r)) \<Longrightarrow>
     \<exists>i\<in>set (fst r). map_of kvs ''dataset_uuid'' = Some (JStr (ix_dataset i))"
    using shown_list(1) i by blast
  show "kvs \<in> set (disclosed (list_reply (\<lambda>p. Inr (policy_response p)) r2)) \<Longrightarrow>
     \<exists>p\<in>set (fst r2). map_of kvs ''dataset_uuid'' = Some (JStr (lp_dataset p))"
    using shown_list(1) [of kvs "\<lambda>p. Inr (policy_response p)" r2] p by auto
  show "kvs \<in> set (disclosed (list_reply rule_response r3)) \<Longrightarrow>
     \<exists>v\<in>set (fst r3). map_of kvs ''dataset_uuid'' = Some (JStr (vr_dataset v))"
    using shown_list(1) v by blast
qed

lemma serve_indexes_disclose:
  assumes "wf_db d" and "tenant_context T cx" and "re_other E = (\<lambda>x. x)"
    and "(\<exists>u. ep = ListIndexes u)
      \<or> (\<exists>u q. ep = CreateIndex u q)
      \<or> (\<exists>u n. ep = GetIndex u n)
      \<or> (\<exists>u n. ep = DropIndex u n)
      \<or> (\<exists>u n. ep = OptimizeIndex u n)
      \<or> (\<exists>u n. ep = MergeIndex u n)"
    and "kvs \<in> set (disclosed (fst (serve E cx ep d)))"
  shows "own T (snd (serve E cx ep d)) kvs"
proof -
  obtain p where p: "cx_principal cx = Some p" "p_tenant_id p = T" using tenant_context(3) [OF assms(2)] by blast
  note defs = rest_list_indexes_def rest_create_index_def rest_get_index_def rest_drop_index_def
    rest_optimize_index_def rest_merge_index_def assms(3)
  have create: "inside T u d (snd (create_index cx str_exc u q uuid now (\<lambda>x. x) d))" for u q str_exc uuid now
  proof (cases "get_dataset cx u d")
    case (Inl e)
    then show ?thesis by (simp add: hidden_parent inside_refl)
  next
    case (Inr ds)
    then show ?thesis using inside_create_index [OF p(1) Inr] p(2) by blast
  qed
  have opt: "inside T u d (snd (optimize_index cx str_exc u n uuid now (\<lambda>x. x) d))" for u n str_exc uuid now
    using inside_optimize_index [OF p(1)] p(2) by blast
  note chg = child_changes [OF assms(1,2)] and rd = child_reads [OF assms(1,2)]
  from assms(4) consider u where "ep = ListIndexes u"
    | u q where "ep = CreateIndex u q"
    | u n where "ep = GetIndex u n"
    | u n where "ep = DropIndex u n"
    | u n where "ep = OptimizeIndex u n"
    | u n where "ep = MergeIndex u n"
    by blast
  then show ?thesis
  proof cases
    case (1 u)
    then show ?thesis using assms(5) unfolding 1 serve.simps defs
      by (intro rd [where u = u]) (auto simp: silent_intros dest!: shown_children returned_indexes(5))
  next
    case (2 u q)
    then show ?thesis using assms(5) unfolding 2 serve.simps defs
      by (intro chg [where u = u]) (auto simp: silent_intros create dest!: shown_rows(4) returned_indexes(1))
  next
    case (3 u n)
    then show ?thesis using assms(5) unfolding 3 serve.simps defs
      by (intro rd [where u = u]) (auto simp: silent_intros dest!: shown_rows(4) returned_indexes(2))
  next
    case (4 u n)
    then show ?thesis using assms(5) unfolding 4 serve.simps defs
      by (intro chg [where u = u]) (auto simp: silent_intros inside_indexes)
  next
    case (5 u n)
    then show ?thesis using assms(5) unfolding 5 serve.simps defs
      by (intro chg [where u = u]) (auto simp: silent_intros opt dest!: shown_rows(4) returned_indexes(3))
  next
    case (6 u n)
    then show ?thesis using assms(5) unfolding 6 serve.simps defs
      by (intro chg [where u = u]) (auto simp: silent_intros inside_indexes dest!: shown_rows(4) returned_indexes(4))
  qed
qed

lemma serve_policies_disclose:
  assumes "wf_db d" and "tenant_context T cx"
    and "(\<exists>u. ep = ListPolicies u)
      \<or> (\<exists>u q. ep = CreatePolicy u q)
      \<or> (\<exists>u n. ep = GetPolicy u n)
      \<or> (\<exists>u n q. ep = UpdatePolicy u n q)
      \<or> (\<exists>u n. ep = DeletePolicy u n)
      \<or> (\<exists>u n b. ep = EnablePolicy u n b)"
    and "kvs \<in> set (disclosed (fst (serve E cx ep d)))"
  shows "own T (snd (serve E cx ep d)) kvs"
proof -
  note defs = rest_list_policies_def rest_create_policy_def rest_get_policy_def rest_update_policy_def
    rest_delete_policy_def rest_enable_policy_def
  note chg = child_changes [OF assms(1,2)] and rd = child_reads [OF assms(1,2)]
  from assms(3) consider u where "ep = ListPolicies u"
    | u q where "ep = CreatePolicy u q"
    | u n where "ep = GetPolicy u n"
    | u n q where "ep = UpdatePolicy u n q"
    | u n where "ep = DeletePolicy u n"
    | u n b where "ep = EnablePolicy u n b"
    by blast
  then show ?thesis
  proof cases
    case (1 u)
    then show ?thesis using assms(4) unfolding 1 serve.simps defs
      by (intro rd [where u = u]) (auto simp: silent_intros dest!: shown_children returned_policies(5))
  next
    case (2 u q)
    then show ?thesis using assms(4) unfolding 2 serve.simps defs
      by (intro chg [where u = u]) (auto simp: silent_intros inside_policies dest!: shown_rows(3) returned_policies(1))
  next
    case (3 u n)
    then show ?thesis using assms(4) unfolding 3 serve.simps defs
      by (intro rd [where u = u]) (auto simp: silent_intros dest!: shown_rows(3) returned_policies(2))
  next
    case (4 u n q)
    then show ?thesis using assms(4) unfolding 4 serve.simps defs
      by (intro chg [where u = u]) (auto simp: silent_intros inside_policies dest!: shown_rows(3) returned_policies(3))
  next
    case (5 u n)
    then show ?thesis using assms(4) unfolding 5 serve.simps defs
      by (intro chg [where u = u]) (auto simp: silent_intros inside_policies)
  next
    case (6 u n b)
    then show ?thesis using assms(4) unfolding 6 serve.simps defs
      by (intro chg [where u = u]) (auto simp: silent_intros inside_policies dest!: shown_rows(3) returned_policies(4))
  qed
qed

lemma serve_rules_disclose:
  assumes "wf_db d" and "tenant_context T cx"
    and "(\<exists>u. ep = ListRules u)
      \<or> (\<exists>u q. ep = CreateRule u q)
      \<or> (\<exists>u c. ep = GetRule u c)
      \<or> (\<exists>u c q. ep = UpdateRule u c q)
      \<or> (\<exists>u c. ep = DeleteRule u c)
      \<or> (\<exists>u c b. ep = EnableRule u c b)"
    and "kvs \<in> set (disclosed (fst (serve E cx ep d)))"
  shows "own T (snd (serve E cx ep d)) kvs"
proof -
  note defs = rest_list_rules_def rest_create_rule_def rest_get_rule_def rest_update_rule_def
    rest_delete_rule_def rest_enable_rule_def
  note chg = child_changes [OF assms(1,2)] and rd = child_reads [OF assms(1,2)]
  from assms(3) consider u where "ep = ListRules u"
    | u q where "ep = CreateRule u q"
    | u c where "ep = GetRule u c"
    | u c q where "ep = UpdateRule u c q"
    | u c where "ep = DeleteRule u c"
    | u c b where "ep = EnableRule u c b"
    by blast
  then show ?thesis
  proof cases
    case (1 u)
    then show ?thesis using assms(4) unfolding 1 serve.simps defs
      by (intro rd [where u = u]) (auto simp: silent_intros dest!: shown_children returned_rules(5))
  next
    case (2 u q)
    then show ?thesis using assms(4) unfolding 2 serve.simps defs
      by (intro chg [where u = u]) (auto simp: silent_intros inside_rules dest!: shown_rows(5) returned_rules(1))
  next
    case (3 u c)
    then show ?thesis using assms(4) unfolding 3 serve.simps defs
      by (intro rd [where u = u]) (auto simp: silent_intros dest!: shown_rows(5) returned_rules(2))
  next
    case (4 u c q)
    then show ?thesis using assms(4) unfolding 4 serve.simps defs
      by (intro chg [where u = u]) (auto simp: silent_intros inside_rules dest!: shown_rows(5) returned_rules(3))
  next
    case (5 u c)
    then show ?thesis using assms(4) unfolding 5 serve.simps defs
      by (intro chg [where u = u]) (auto simp: silent_intros inside_rules)
  next
    case (6 u c b)
    then show ?thesis using assms(4) unfolding 6 serve.simps defs
      by (intro chg [where u = u]) (auto simp: silent_intros inside_rules dest!: shown_rows(5) returned_rules(4))
  qed
qed

lemma serve_discloses_own:
  assumes "wf_db d" and "tenant_context T cx" and "re_other E = (\<lambda>x. x)"
    and "kvs \<in> set (disclosed (fst (serve E cx ep d)))"
  shows "own T (snd (serve E cx ep d)) kvs"
proof -
  consider (data) "(\<exists>c s p n. ep = ListDatasets c s p n) \<or> (\<exists>q. ep = CreateDataset q) \<or> (\<exists>u. ep = GetDataset u) \<or> (\<exists>u. ep = DeleteDataset u)"
    | (task) "(\<exists>ds ty st p n. ep = ListTasks ds ty st p n) \<or> (\<exists>q. ep = SubmitTask q) \<or> (\<exists>u. ep = GetTask u) \<or> (\<exists>u. ep = CancelTask u) \<or> (\<exists>u. ep = RetryTask u) \<or> (\<exists>u c. ep = VectorizeNow u c)"
    | (ix) "(\<exists>u. ep = ListIndexes u) \<or> (\<exists>u q. ep = CreateIndex u q) \<or> (\<exists>u n. ep = GetIndex u n) \<or> (\<exists>u n. ep = DropIndex u n) \<or> (\<exists>u n. ep = OptimizeIndex u n) \<or> (\<exists>u n. ep = MergeIndex u n)"
    | (pol) "(\<exists>u. ep = ListPolicies u) \<or> (\<exists>u q. ep = CreatePolicy u q) \<or> (\<exists>u n. ep = GetPolicy u n) \<or> (\<exists>u n q. ep = UpdatePolicy u n q) \<or> (\<exists>u n. ep = DeletePolicy u n) \<or> (\<exists>u n b. ep = EnablePolicy u n b)"
    | (rul) "(\<exists>u. ep = ListRules u) \<or> (\<exists>u q. ep = CreateRule u q) \<or> (\<exists>u c. ep = GetRule u c) \<or> (\<exists>u c q. ep = UpdateRule u c q) \<or> (\<exists>u c. ep = DeleteRule u c) \<or> (\<exists>u c b. ep = EnableRule u c b)"
    by (cases ep) auto
  then show ?thesis
  proof cases
    case data
    then show ?thesis by (rule serve_datasets_disclose [OF assms(1,2) _ assms(4)])
  next
    case task
    then show ?thesis by (rule serve_tasks_disclose [OF assms(2) _ assms(4)])
  next
    case ix
    then show ?thesis by (rule serve_indexes_disclose [OF assms(1-3) _ assms(4)])
  next
    case pol
    then show ?thesis by (rule serve_policies_disclose [OF assms(1,2) _ assms(4)])
  next
    case rul
    then show ?thesis by (rule serve_rules_disclose [OF assms(1,2) _ assms(4)])
  qed
qed

section \<open>Properties\<close>

text \<open>The REST surface isolates the tenants.  Whatever one tenant requests of the state services,
  no dataset or task row of another tenant changes, appears or disappears, nor does an index, policy
  or rule of another tenant's dataset; and every object a body shows carries the tenant's id or
  names one of its datasets.\<close>

theorem rest_isolates_tenants:
  assumes "wf_db d" and "tenant_context T cx" and "re_other E = (\<lambda>x. x)" and "serve E cx ep d = (r, d')"
  shows "untouched T d d' \<and> (\<forall>kvs\<in>set (disclosed r). own T d' kvs)"
  using serve_untouched [OF assms(1-3), of ep] serve_discloses_own [OF assms(1-3), of _ ep] assms(4) by auto

definition rest_env0 :: "(unit, unit) rest_env" where
  "rest_env0 = \<lparr>re_settings = default_settings, re_lance = lance0, re_http = (\<lambda>_ _ _ _ w. (Inl DatasetAlreadyExistsError, w)),
     re_str_exc = (\<lambda>_. ''exc''), re_now = t0, re_uuids = (\<lambda>_. ''a''), re_other = (\<lambda>d. d)\<rparr>"

lemma tenant_contexts [simp]: "tenant_context ''acme'' acme_cx" "tenant_context ''globex'' globex_cx"
  by (simp_all add: tenant_context_def acme_cx_def acme_def globex_cx_def)

theorem rest_isolates_tenants_witness:
  "length (disclosed (fst (serve rest_env0 acme_cx (GetDataset ''u1'') db0))) = 1
 \<and> own ''acme'' db0 (hd (disclosed (fst (serve rest_env0 acme_cx (GetDataset ''u1'') db0))))
 \<and> untouched ''globex'' db0 (snd (serve rest_env0 globex_cx (DeleteDataset ''u1'') db0))"
proof -
  let ?r = "fst (serve rest_env0 acme_cx (GetDataset ''u1'') db0)"
  have other: "re_other rest_env0 = (\<lambda>x. x)" by (simp add: rest_env0_def)
  have get: "serve rest_env0 acme_cx (GetDataset ''u1'') db0 = (?r, db0)"
    by (simp add: rest_get_dataset_def handler_def reads_def split: sum.split)
  have "get_dataset acme_cx ''u1'' db0 = Inr dataset0" by (simp add: get_dataset_iff)
  then have shown: "length (disclosed ?r) = 1"
    by (simp add: rest_get_dataset_def handler_def reads_def answer_def dataset_response_def require_current_tenant_def)
  moreover from shown have "hd (disclosed ?r) \<in> set (disclosed ?r)" by (intro hd_in_set) auto
  then have "own ''acme'' db0 (hd (disclosed ?r))"
    using rest_isolates_tenants [OF db0(1) _ other get] by auto
  moreover have "untouched ''globex'' db0 (snd (serve rest_env0 globex_cx (DeleteDataset ''u1'') db0))"
    using rest_isolates_tenants [OF db0(1) tenant_contexts(2) other prod.collapse [symmetric]] by blast
  ultimately show ?thesis by blast
qed

end
