(* ===== verification/Embeddings.thy ===== *)
theory Embeddings
  imports Jsonval "HOL-Library.Word"
begin

text \<open>
  The embedding back ends, \<open>src/lcp/embeddings/\<close>: the deterministic mock model with
  the SHA-256 it draws its bytes from (\<open>hashlib.sha256\<close>, on 32-bit words), and the
  wrapper around \<open>sentence-transformers\<close> with its process-wide model cache, the package
  itself being a parameter.  Floats are the rationals they approximate: every value is
  \<open>(v - half_range) / half_range\<close> for a 32-bit \<open>v\<close>, which Python rounds once, at the division.
\<close>

unbundle bit_operations_syntax

section \<open>SHA-256\<close>

type_synonym word32 = "32 word"

definition rotr :: "nat \<Rightarrow> word32 \<Rightarrow> word32" where
  "rotr n x = drop_bit n x OR push_bit (32 - n) x"

text \<open>
  The constants of the standard: the first 32 bits of the fractional parts of the cube roots
  of the first 64 primes, and of the square roots of the first 8, computed bit by bit.
\<close>

fun root_bits :: "nat \<Rightarrow> nat \<Rightarrow> nat \<Rightarrow> nat \<Rightarrow> nat" where
  "root_bits k n 0 r = r"
| "root_bits k n (Suc b) r = root_bits k n b (if (r + 2 ^ b) ^ k \<le> n then r + 2 ^ b else r)"

lemma root_bits_floor:
  "r ^ k \<le> n \<Longrightarrow> n < (r + 2 ^ b) ^ k \<Longrightarrow> root_bits k n b r ^ k \<le> n \<and> n < (root_bits k n b r + 1) ^ k"
proof (induction b arbitrary: r)
  case 0
  then show ?case by simp
next
  case (Suc b)
  then show ?case by (cases "(r + 2 ^ b) ^ k \<le> n") (simp_all add: mult_2 add.assoc)
qed

definition small_primes :: "nat list" where
  "small_primes = filter (\<lambda>p. list_all (\<lambda>d. p mod d \<noteq> 0) [2..<p]) [2..<312]"

text \<open>\<open>\<lfloor>p ^ (1 / k) * 2 ^ 32\<rfloor>\<close> without its integer part; the roots are below 8.\<close>

definition root_fraction :: "nat \<Rightarrow> nat \<Rightarrow> word32" where
  "root_fraction k p = of_nat (root_bits k (p * 2 ^ (32 * k)) 35 0)"

definition sha_K :: "word32 list" where
  "sha_K = map (root_fraction 3) small_primes"

datatype sha_state = ShaState word32 word32 word32 word32 word32 word32 word32 word32

definition sha_init :: sha_state where
  "sha_init = ShaState (root_fraction 2 2) (root_fraction 2 3) (root_fraction 2 5) (root_fraction 2 7)
     (root_fraction 2 11) (root_fraction 2 13) (root_fraction 2 17) (root_fraction 2 19)"

text \<open>Big-endian integers as byte lists, \<open>int.to_bytes(n, "big")\<close> and back.\<close>

fun be_bytes :: "nat \<Rightarrow> nat \<Rightarrow> nat list" where
  "be_bytes 0 v = []"
| "be_bytes (Suc n) v = be_bytes n (v div 256) @ [v mod 256]"

definition be_value :: "nat list \<Rightarrow> nat" where
  "be_value bs = foldl (\<lambda>a b. a * 256 + b) 0 bs"

definition sha_pad :: "nat list \<Rightarrow> nat list" where
  "sha_pad m = m @ [128] @ replicate ((119 - length m mod 64) mod 64) 0
     @ be_bytes 8 (8 * length m mod 2 ^ 64)"

fun chunks :: "nat \<Rightarrow> 'a list \<Rightarrow> 'a list list" where
  "chunks n [] = []"
| "chunks n (x # xs) = (if n = 0 then [] else take n (x # xs) # chunks n (drop n (x # xs)))"

definition small_sigma0 :: "word32 \<Rightarrow> word32" where
  "small_sigma0 x = rotr 7 x XOR rotr 18 x XOR drop_bit 3 x"

definition small_sigma1 :: "word32 \<Rightarrow> word32" where
  "small_sigma1 x = rotr 17 x XOR rotr 19 x XOR drop_bit 10 x"

text \<open>The message schedule, newest word first.\<close>

fun sha_extend :: "nat \<Rightarrow> word32 list \<Rightarrow> word32 list" where
  "sha_extend 0 ws = ws"
| "sha_extend (Suc k) ws =
     sha_extend k ((small_sigma1 (ws ! 1) + ws ! 6 + small_sigma0 (ws ! 14) + ws ! 15) # ws)"

fun sha_round :: "sha_state \<Rightarrow> word32 \<times> word32 \<Rightarrow> sha_state" where
  "sha_round (ShaState a b c d e f g h) (k, w) =
     (let t1 = h + (rotr 6 e XOR rotr 11 e XOR rotr 25 e) + ((e AND f) XOR (NOT e AND g)) + k + w;
          t2 = (rotr 2 a XOR rotr 13 a XOR rotr 22 a) + ((a AND b) XOR (a AND c) XOR (b AND c))
      in ShaState (t1 + t2) a b c (d + t1) e f g)"

fun sha_add :: "sha_state \<Rightarrow> sha_state \<Rightarrow> sha_state" where
  "sha_add (ShaState a b c d e f g h) (ShaState a' b' c' d' e' f' g' h') =
     ShaState (a + a') (b + b') (c + c') (d + d') (e + e') (f + f') (g + g') (h + h')"

definition sha_block :: "sha_state \<Rightarrow> nat list \<Rightarrow> sha_state" where
  "sha_block s block =
     (let ws = map (\<lambda>b. of_nat (be_value b)) (chunks 4 block);
          schedule = rev (sha_extend 48 (rev ws))
      in sha_add s (foldl sha_round s (zip sha_K schedule)))"

fun sha_output :: "sha_state \<Rightarrow> nat list" where
  "sha_output (ShaState a b c d e f g h) =
     concat (map (\<lambda>x. be_bytes 4 (unat x)) [a, b, c, d, e, f, g, h])"

definition sha256 :: "nat list \<Rightarrow> nat list" where
  "sha256 m = sha_output (foldl sha_block sha_init (chunks 64 (sha_pad m)))"

lemma length_be_bytes [simp]: "length (be_bytes n v) = n"
  by (induction n arbitrary: v) simp_all

lemma be_bytes_range: "b \<in> set (be_bytes n v) \<Longrightarrow> b < 256"
  by (induction n arbitrary: v) auto

lemma length_sha256 [simp]: "length (sha256 m) = 32"
  by (simp add: sha256_def) (cases "foldl sha_block sha_init (chunks 64 (sha_pad m))"; simp)

lemma sha256_range: "b \<in> set (sha256 m) \<Longrightarrow> b < 256"
proof -
  assume b: "b \<in> set (sha256 m)"
  obtain a1 a2 a3 a4 a5 a6 a7 a8 where
    "foldl sha_block sha_init (chunks 64 (sha_pad m)) = ShaState a1 a2 a3 a4 a5 a6 a7 a8"
    by (cases "foldl sha_block sha_init (chunks 64 (sha_pad m))") blast
  then show ?thesis using b be_bytes_range by (auto simp: sha256_def)
qed

section \<open>The mock model\<close>

text \<open>\<open>text.encode("utf-8")\<close> of code points below 256.\<close>

definition utf8_encode :: "string \<Rightarrow> nat list" where
  "utf8_encode s = concat (map (\<lambda>c. let n = of_char c
     in if n < 128 then [n] else [192 + n div 64, 128 + n mod 64]) s)"

text \<open>
  The digest loop of \<open>_one\<close>: each turn appends 32 bytes; the counter must fit four
  bytes, or \<open>to_bytes\<close> raises.
\<close>

function digest_loop :: "nat list \<Rightarrow> nat \<Rightarrow> nat \<Rightarrow> nat list \<Rightarrow> nat list res" where
  "digest_loop payload needed counter buf =
     (if length buf < needed
      then (if counter \<ge> 2 ^ 32 then Inl (OtherError ''OverflowError'')
            else digest_loop payload needed (counter + 1)
                   (buf @ sha256 (payload @ be_bytes 4 counter)))
      else Inr buf)"
  by pat_completeness auto
termination by (relation "measure (\<lambda>(_, needed, _, buf). needed - length buf)") auto

declare digest_loop.simps [simp del]

definition half_range :: rat where
  "half_range = 4294967295 / 2"

definition one_vector :: "string \<Rightarrow> nat \<Rightarrow> rat list res" where
  "one_vector txt dm =
     (case digest_loop (utf8_encode txt) (dm * 4) 0 [] of
        Inl e \<Rightarrow> Inl e
      | Inr buf \<Rightarrow>
          Inr (map (\<lambda>w. (of_nat (be_value w) - half_range) / half_range) (chunks 4 (take (dm * 4) buf))))"

fun embed_texts :: "nat \<Rightarrow> json list \<Rightarrow> rat list list res" where
  "embed_texts dm [] = Inr []"
| "embed_texts dm (JStr t # ts) =
     (case one_vector t dm of
        Inl e \<Rightarrow> Inl e
      | Inr v \<Rightarrow> (case embed_texts dm ts of Inl e \<Rightarrow> Inl e | Inr vs \<Rightarrow> Inr (v # vs)))"
| "embed_texts dm (_ # ts) = Inl TypeError"

definition hash_embedding :: "json list \<Rightarrow> int \<Rightarrow> rat list list res" where
  "hash_embedding texts dm =
     (if dm \<le> 0 then Inl ValueError
      else if dm mod 4 \<noteq> 0 then Inl ValueError
      else embed_texts (nat dm) texts)"

section \<open>The real model\<close>

text \<open>
  \<open>load\<close> constructs a model (Hugging Face), \<open>encode\<close> runs it; the cache maps names to
  loaded models and is filled only by a successful load.
\<close>

definition load_model ::
  "bool \<Rightarrow> (string \<Rightarrow> 'm res) \<Rightarrow> string \<Rightarrow> (string \<rightharpoonup> 'm) \<Rightarrow> 'm res \<times> (string \<rightharpoonup> 'm)" where
  "load_model installed load name cache =
     (case cache name of
        Some m \<Rightarrow> (Inr m, cache)
      | None \<Rightarrow>
          if \<not> installed then (Inl (OtherError ''SentenceTransformersNotInstalledError''), cache)
          else case load name of
                 Inl e \<Rightarrow> (Inl e, cache)
               | Inr m \<Rightarrow> (Inr m, cache(name \<mapsto> m)))"

fun all_texts :: "json list \<Rightarrow> string list res" where
  "all_texts [] = Inr []"
| "all_texts (JStr t # ts) = (case all_texts ts of Inl e \<Rightarrow> Inl e | Inr us \<Rightarrow> Inr (t # us))"
| "all_texts (_ # ts) = Inl TypeError"

definition st_embedding ::
  "bool \<Rightarrow> (string \<Rightarrow> 'm res) \<Rightarrow> ('m \<Rightarrow> string list \<Rightarrow> rat list list res) \<Rightarrow> json list \<Rightarrow> string
     \<Rightarrow> (string \<rightharpoonup> 'm) \<Rightarrow> rat list list res \<times> (string \<rightharpoonup> 'm)" where
  "st_embedding installed load encode texts name cache =
     (case all_texts texts of
        Inl e \<Rightarrow> (Inl e, cache)
      | Inr ts \<Rightarrow>
          if ts = [] then (Inr [], cache)
          else case load_model installed load name cache of
                 (Inl e, c) \<Rightarrow> (Inl e, c)
               | (Inr m, c) \<Rightarrow> (encode m ts, c))"


section \<open>Lemmas\<close>

text \<open>The digest stream: round \<open>i\<close> appends the digest of the text and the counter \<open>i\<close>.\<close>

definition digest_block :: "string \<Rightarrow> nat \<Rightarrow> nat list" where
  "digest_block t i = sha256 (utf8_encode t @ be_bytes 4 i)"

lemma length_digest_block [simp]: "length (digest_block t i) = 32"
  by (simp add: digest_block_def)

lemma digest_loop_stream:
  assumes "needed \<le> length buf + 32 * k" and "k = 0 \<or> length buf + 32 * (k - 1) < needed"
    and "c + k \<le> 2 ^ 32"
  shows "digest_loop (utf8_encode t) needed c buf
    = Inr (buf @ concat (map (digest_block t) [c..<c + k]))"
  using assms
proof (induction k arbitrary: c buf)
  case 0
  then show ?case by (simp add: digest_loop.simps)
next
  case (Suc k)
  have short: "length buf < needed" using Suc.prems(2) by linarith
  have "digest_loop (utf8_encode t) needed c buf
      = digest_loop (utf8_encode t) needed (c + 1) (buf @ digest_block t c)"
    using short Suc.prems(3) by (subst digest_loop.simps) (simp add: digest_block_def)
  also have "\<dots> = Inr ((buf @ digest_block t c) @ concat (map (digest_block t) [c + 1..<c + 1 + k]))"
    using Suc.prems by (intro Suc.IH) auto
  finally show ?case by (simp add: upt_conv_Cons del: upt_Suc)
qed

lemma chunks_nth:
  assumes "0 < n" and "length xs = n * k"
  shows "chunks n xs = map (\<lambda>j. take n (drop (n * j) xs)) [0..<k]"
  using assms(2)
proof (induction k arbitrary: xs)
  case 0
  then show ?case by simp
next
  case (Suc k)
  have ne: "xs \<noteq> []" using Suc.prems assms(1) by auto
  then have "chunks n xs = take n xs # chunks n (drop n xs)" using assms(1) by (cases xs) simp_all
  moreover have "chunks n (drop n xs) = map (\<lambda>j. take n (drop (n * Suc j) xs)) [0..<k]"
    using Suc.IH [of "drop n xs"] Suc.prems by (simp add: add.commute)
  ultimately show ?case by (simp add: upt_conv_Cons map_Suc_upt [symmetric] del: upt_Suc)
qed

lemma drop_concat_uniform:
  assumes "\<And>x. x \<in> set xss \<Longrightarrow> length x = m"
  shows "drop (m * i) (concat xss) = concat (drop i xss)"
  using assms
proof (induction xss arbitrary: i)
  case Nil
  then show ?case by simp
next
  case (Cons x xss)
  then show ?case by (cases i) simp_all
qed

lemma stream_word:
  assumes "j < 8 * k"
  shows "take 4 (drop (4 * j) (concat (map (digest_block t) [0..<k])))
    = take 4 (drop (4 * (j mod 8)) (digest_block t (j div 8)))"
proof -
  let ?xss = "map (digest_block t) [0..<k]"
  have j: "4 * j = 4 * (j mod 8) + 32 * (j div 8)" by presburger
  have lt: "j div 8 < k" using assms by (simp add: less_mult_imp_div_less mult.commute)
  have "drop (4 * j) (concat ?xss) = drop (4 * (j mod 8)) (drop (32 * (j div 8)) (concat ?xss))"
    by (simp add: j [symmetric])
  also have "drop (32 * (j div 8)) (concat ?xss) = concat (drop (j div 8) ?xss)"
    by (rule drop_concat_uniform) auto
  also have "drop (j div 8) ?xss = digest_block t (j div 8) # drop (Suc (j div 8)) ?xss"
    using lt by (simp add: Cons_nth_drop_Suc [symmetric])
  finally show ?thesis by simp
qed

definition component :: "string \<Rightarrow> nat \<Rightarrow> rat" where
  "component t j =
     (of_nat (be_value (take 4 (drop (4 * (j mod 8)) (digest_block t (j div 8))))) - half_range) / half_range"

lemma one_vector_components:
  assumes "0 < dm" and "dm \<le> 2 ^ 35"
  shows "one_vector t dm = Inr (map (component t) [0..<dm])"
proof -
  define k where "k = (dm + 7) div 8"
  have k: "dm \<le> 8 * k" "0 < k" "8 * (k - 1) < dm" "k \<le> 2 ^ 32" using assms by (auto simp: k_def)
  define stream where "stream = concat (map (digest_block t) [0..<k])"
  have len: "length stream = 32 * k"
    by (simp add: stream_def length_concat comp_def sum_list_triv)
  have loop: "digest_loop (utf8_encode t) (dm * 4) 0 [] = Inr stream"
    using digest_loop_stream [of "dm * 4" "[]" k 0 t] k by (simp add: stream_def)
  have "chunks 4 (take (dm * 4) stream) = map (\<lambda>j. take 4 (drop (4 * j) (take (dm * 4) stream))) [0..<dm]"
    using len k by (intro chunks_nth) auto
  also have "\<dots> = map (\<lambda>j. take 4 (drop (4 * (j mod 8)) (digest_block t (j div 8)))) [0..<dm]"
  proof (rule map_cong)
    fix j assume j: "j \<in> set [0..<dm]"
    have "take 4 (drop (4 * j) (take (dm * 4) stream)) = take 4 (drop (4 * j) stream)"
      using j by (simp add: drop_take)
    also have "\<dots> = take 4 (drop (4 * (j mod 8)) (digest_block t (j div 8)))"
      unfolding stream_def using j k by (intro stream_word) auto
    finally show "take 4 (drop (4 * j) (take (dm * 4) stream))
        = take 4 (drop (4 * (j mod 8)) (digest_block t (j div 8)))" .
  qed simp
  finally show ?thesis by (simp add: one_vector_def loop component_def comp_def)
qed

lemma be_value_4:
  assumes "length bs = 4" and "\<And>b. b \<in> set bs \<Longrightarrow> b < 256"
  shows "be_value bs \<le> 4294967295"
proof -
  from assms(1) obtain a b c d where bs: "bs = [a, b, c, d]"
    by (auto simp: length_Suc_conv numeral_eq_Suc)
  then show ?thesis using assms(2) [of a] assms(2) [of b] assms(2) [of c] assms(2) [of d]
    by (simp add: be_value_def)
qed

lemma component_range: "-1 \<le> component t j \<and> component t j \<le> 1"
proof -
  let ?bs = "take 4 (drop (4 * (j mod 8)) (digest_block t (j div 8)))"
  have m: "j mod 8 < 8" by simp
  have "length ?bs = 4" using m by simp
  moreover have "b < 256" if "b \<in> set ?bs" for b
    using that sha256_range in_set_takeD in_set_dropD unfolding digest_block_def by metis
  ultimately have "be_value ?bs \<le> 4294967295" by (rule be_value_4)
  then have "(of_nat (be_value ?bs) :: rat) \<le> 4294967295" by (metis of_nat_le_iff of_nat_numeral)
  moreover have "(0 :: rat) \<le> of_nat (be_value ?bs)" by simp
  ultimately show ?thesis by (simp add: component_def half_range_def field_simps)
qed

lemma embed_texts_components:
  assumes "0 < dm" and "dm \<le> 2 ^ 35"
  shows "embed_texts dm (map JStr ts) = Inr (map (\<lambda>t. map (component t) [0..<dm]) ts)"
  by (induction ts) (simp_all add: one_vector_components [OF assms])

section \<open>Properties\<close>

text \<open>C31: the mock model terminates and is a function of the text and the component alone.  For a
  positive dimension that is a multiple of 4 (and at most \<open>2 ^ 35\<close>, where the 4-byte counter is
  exhausted), \<open>hash_embedding\<close> answers one vector per text, of exactly that many components;
  component \<open>j\<close> is the 32-bit word \<open>j mod 8\<close> of digest number \<open>j div 8\<close> of the text, scaled into
  \<open>[-1, 1]\<close>.  So the vector of a text does not depend on the rest of the batch, and a smaller
  dimension gives a prefix of a larger one.\<close>

theorem hash_embedding_closed_form:
  assumes "0 < dm" and "dm mod 4 = 0" and "dm \<le> 2 ^ 35"
  shows "hash_embedding (map JStr ts) (int dm) = Inr (map (\<lambda>t. map (component t) [0..<dm]) ts)
    \<and> -1 \<le> component t j \<and> component t j \<le> 1"
proof -
  have "int dm mod 4 = 0" using assms(2) by presburger
  then show ?thesis using embed_texts_components [OF assms(1,3)] component_range assms(1)
    by (simp add: hash_embedding_def)
qed

theorem hash_embedding_closed_form_witness:
  "hash_embedding [JStr ''a'', JStr ''b''] 4
     = Inr [map (component ''a'') [0..<4], map (component ''b'') [0..<4]]"
  using hash_embedding_closed_form [of 4 "[''a'', ''b'']"] by simp

end
