(* ===== verification/Calendar.thy ===== *)
theory Calendar
  imports Pytext
begin

text \<open>
  Date arithmetic, \<open>datetime - timedelta(days=n)\<close>, as \<open>datetime.py\<close> computes it: from
  the proleptic Gregorian ordinal back to year, month and day.  The result is exactly
  \<open>n\<close> days earlier; a date outside the years 1 to 9999 is an \<open>OverflowError\<close>.
\<close>

definition month_of :: "nat \<Rightarrow> nat \<Rightarrow> nat" where
  "month_of y n = last (filter (\<lambda>m. days_before_month y m \<le> n) [1, 2, 3, 4, 5, 6, 7, 8, 9, 10, 11, 12])"

definition ord2ymd :: "int \<Rightarrow> nat \<times> nat \<times> nat" where
  "ord2ymd ordinal =
     (let n = ordinal - 1;
          n400 = n div 146097; r400 = n mod 146097;
          n100 = r400 div 36524; r100 = r400 mod 36524;
          n4 = r100 div 1461; r4 = r100 mod 1461;
          n1 = r4 div 365; r1 = r4 mod 365;
          year = n400 * 400 + 1 + n100 * 100 + n4 * 4 + n1
      in if n1 = 4 \<or> n100 = 4 then (nat (year - 1), 12, 31)
         else let m = month_of (nat year) (nat r1)
              in (nat year, m, nat r1 - days_before_month (nat year) m + 1))"

definition OverflowError :: lcp_error where
  "OverflowError = OtherError ''OverflowError''"

definition minus_days :: "datetime \<Rightarrow> int \<Rightarrow> datetime res" where
  "minus_days t n =
     (if n < -999999999 \<or> n > 999999999 then Inl OverflowError
      else let ordinal = dt_ordinal t - n in
        if ordinal < 1 \<or> ordinal > 3652059 then Inl OverflowError
        else let (y, m, d) = ord2ymd ordinal
             in Inr (t\<lparr>dt_year := y, dt_month := m, dt_day := d\<rparr>))"

section \<open>Lemmas\<close>

definition year_days :: "int \<Rightarrow> int" where
  "year_days y = y * 365 + y div 4 - y div 100 + y div 400"

text \<open>Days before a year that starts \<open>a\<close> cycles of 400 years, \<open>b\<close> centuries, \<open>c\<close> cycles of 4 and
  \<open>d\<close> years after year 1.\<close>

lemma year_days_split:
  assumes "0 \<le> b" "b \<le> 3" "0 \<le> c" "c \<le> 24" "0 \<le> d" "d \<le> 3"
  shows "year_days (400 * a + 100 * b + 4 * c + d) = 146097 * a + 36524 * b + 1461 * c + 365 * d"
proof -
  let ?y = "400 * a + 100 * b + 4 * c + d"
  have "?y div 4 = 100 * a + 25 * b + c" using assms by linarith
  moreover have "?y div 100 = 4 * a + b" using assms by linarith
  moreover have "?y div 400 = a" using assms by linarith
  ultimately show ?thesis by (simp add: year_days_def)
qed

lemma days_before_month_of: "days_before_month y (month_of y n) \<le> n"
proof -
  let ?ms = "filter (\<lambda>m. days_before_month y m \<le> n) [1, 2, 3, 4, 5, 6, 7, 8, 9, 10, 11, 12]"
  have "?ms \<noteq> []" by (simp add: days_before_month_def)
  then have "last ?ms \<in> set ?ms" by (rule last_in_set)
  then have "days_before_month y (last ?ms) \<le> n" by (simp only: set_filter mem_Collect_eq)
  then show ?thesis by (simp only: month_of_def)
qed

lemma leap_december: "days_before_month y 12 = 334 + (if is_leap y then 1 else 0)"
  by (simp add: days_before_month_def numeral_eq_Suc)

lemma ord2ymd_ordinal:
  assumes "1 \<le> ordinal" and "ord2ymd ordinal = (y, m, d)"
  shows "dt_ordinal (t\<lparr>dt_year := y, dt_month := m, dt_day := d\<rparr>) = ordinal"
proof -
  define n where "n = ordinal - 1"
  define a where "a = n div 146097"
  define r400 where "r400 = n mod 146097"
  define b where "b = r400 div 36524"
  define r100 where "r100 = r400 mod 36524"
  define c where "c = r100 div 1461"
  define r4 where "r4 = r100 mod 1461"
  define e where "e = r4 div 365"
  define r1 where "r1 = r4 mod 365"
  have n: "n = 146097 * a + r400" "0 \<le> r400" "r400 < 146097" "0 \<le> a"
    using assms(1) by (auto simp: a_def r400_def n_def pos_imp_zdiv_nonneg_iff)
  have r400: "r400 = 36524 * b + r100" "0 \<le> r100" "r100 < 36524" by (auto simp: b_def r100_def)
  have r100: "r100 = 1461 * c + r4" "0 \<le> r4" "r4 < 1461" by (auto simp: c_def r4_def)
  have r4: "r4 = 365 * e + r1" "0 \<le> r1" "r1 < 365" by (auto simp: e_def r1_def)
  have bounds: "0 \<le> b" "b \<le> 4" "0 \<le> c" "c \<le> 24" "0 \<le> e" "e \<le> 4"
    using n r400 r100 r4 by linarith+
  define year where "year = a * 400 + 1 + b * 100 + c * 4 + e"
  have ymd: "(y, m, d) = (if e = 4 \<or> b = 4 then (nat (year - 1), 12, 31)
      else let m = month_of (nat year) (nat r1) in (nat year, m, nat r1 - days_before_month (nat year) m + 1))"
    using assms(2) unfolding ord2ymd_def Let_def year_def e_def r1_def c_def r4_def b_def r100_def a_def r400_def n_def
    by (simp only: split: if_splits)
  show ?thesis
  proof (cases "e = 4 \<or> b = 4")
    case False
    then have le: "b \<le> 3" "e \<le> 3" using bounds by linarith+
    have "year_days (year - 1) = 146097 * a + 36524 * b + 1461 * c + 365 * e"
      using year_days_split [of b c e a] bounds le by (simp add: year_def algebra_simps)
    moreover have "1 \<le> year" using bounds n by (simp add: year_def)
    moreover have "days_before_month (nat year) (month_of (nat year) (nat r1)) \<le> nat r1"
      by (rule days_before_month_of)
    ultimately show ?thesis using ymd False n r400 r100 r4
      by (auto simp: dt_ordinal_def Let_def year_days_def n_def)
  next
    case True
    have last_day: "dt_ordinal (t\<lparr>dt_year := nat (year - 1), dt_month := 12, dt_day := 31\<rparr>)
        = year_days (year - 2) + 365 + (if is_leap (nat (year - 1)) then 1 else 0)" if "1 \<le> year - 1"
      using that by (simp add: dt_ordinal_def Let_def year_days_def leap_december)
    have leap_iff: "is_leap (nat z) \<longleftrightarrow> z mod 4 = 0 \<and> (z mod 100 \<noteq> 0 \<or> z mod 400 = 0)" if "0 \<le> z" for z :: int
      using that pos_mod_sign [of 4 z] pos_mod_sign [of 100 z] pos_mod_sign [of 400 z]
      by (simp add: is_leap_def nat_mod_as_int order_antisym_conv)
    show ?thesis
    proof (cases "b = 4")
      case b: True
      then have z: "r100 = 0" "c = 0" "e = 0" "r400 = 146096" using n r400 r100 r4 bounds by linarith+
      have "year_days (year - 2) = year_days (400 * a + 100 * 3 + 4 * 24 + 3)" using b z by (simp add: year_def mult.commute)
      also have "\<dots> = 146097 * a + 36524 * 3 + 1461 * 24 + 365 * 3" by (rule year_days_split) auto
      finally have "year_days (year - 2) = 146097 * a + 145731" by simp
      moreover have "is_leap (nat (year - 1))"
        using b z n by (subst leap_iff) (auto simp: year_def)
      ultimately show ?thesis using last_day ymd b z n by (simp add: year_def n_def)
    next
      case b: False
      then have e: "e = 4" using True by simp
      then have z: "r1 = 0" "r4 = 1460" using r4 r100 by linarith+
      have c: "c \<le> 23 \<or> b \<le> 3" using b bounds by linarith
      have "year_days (year - 2) = year_days (400 * a + 100 * b + 4 * c + 3)" using e by (simp add: year_def algebra_simps)
      also have "\<dots> = 146097 * a + 36524 * b + 1461 * c + 365 * 3"
        using b bounds by (intro year_days_split) auto
      finally have yd: "year_days (year - 2) = 146097 * a + 36524 * b + 1461 * c + 1095" by simp
      have c24: "c \<le> 23" using z r100 r400 by linarith
      have "is_leap (nat (year - 1))"
      proof -
        have y: "year - 1 = 4 * (100 * a + 25 * b + c + 1)" using e by (simp add: year_def)
        then have "year - 1 = 4 * (c + 1) + (4 * a + b) * 100" by simp
        then have "(year - 1) mod 100 = 4 * (c + 1) mod 100" by (simp only: mod_mult_self1)
        then have "(year - 1) mod 100 \<noteq> 0" using c24 bounds by simp
        moreover have "(year - 1) mod 4 = 0" unfolding y by simp
        moreover have "0 \<le> year - 1" using y n bounds by simp
        ultimately show ?thesis by (simp add: leap_iff)
      qed
      then show ?thesis using last_day ymd e yd z n r400 r100 bounds by (simp add: year_def n_def)
    qed
  qed
qed

lemma minus_days_exact:
  assumes "minus_days t n = Inr u"
  shows "dt_us u = dt_us t - n * 86400000000"
proof -
  obtain y m d where ymd: "ord2ymd (dt_ordinal t - n) = (y, m, d)" by (cases "ord2ymd (dt_ordinal t - n)") blast
  have "1 \<le> dt_ordinal t - n" and u: "u = t\<lparr>dt_year := y, dt_month := m, dt_day := d\<rparr>"
    using assms ymd by (auto simp: minus_days_def Let_def split: if_splits)
  from ord2ymd_ordinal [OF this(1) ymd, of t] u show ?thesis by (simp add: dt_us_def algebra_simps)
qed

end
