(* ===== verification/Scheduler.thy ===== *)
theory Scheduler
  imports Tasks
begin

text \<open>
  The scheduler, \<open>src/lcp/services/scheduler_service.py\<close>: registration, heartbeat
  and draining of workers, the atomic claim of a task, its completion or failure, and
  the reaper.  \<open>locked\<close> is what \<open>FOR UPDATE SKIP LOCKED\<close> skips (rows locked by
  another transaction), \<open>other\<close> what other transactions commit between two
  statements of the operation.  The locale \<open>system_only\<close> is the contract of the
  operations that demand a system principal.
\<close>

section \<open>Operations\<close>

definition require_system :: "lcp_error \<Rightarrow> rls_ctx \<Rightarrow> unit res" where
  "require_system specific cx =
     (case require_system_context (cx_principal cx) of
        Inl _ \<Rightarrow> Inl specific | Inr u \<Rightarrow> Inr u)"

definition select_worker :: "string \<Rightarrow> db \<Rightarrow> worker_row option res" where
  "select_worker wid d = one_or_none (filter (\<lambda>w. wk_id w = wid) (workers d))"

definition get_worker :: "string \<Rightarrow> db \<Rightarrow> worker_row res" where
  "get_worker wid d =
     (case select_worker wid d of
        Inl e \<Rightarrow> Inl e
      | Inr None \<Rightarrow> Inl (WorkerNotFoundError wid)
      | Inr (Some w) \<Rightarrow> Inr w)"

definition sched_get_task :: "rls_ctx \<Rightarrow> string \<Rightarrow> db \<Rightarrow> task_row res" where
  "sched_get_task cx uuid d =
     (case rls_rows cx ''task'' tk_tenant (filter (\<lambda>t. tk_uuid t = uuid) (tasks d)) of
        Inl e \<Rightarrow> Inl e
      | Inr rs \<Rightarrow>
          (case one_or_none rs of
             Inl e \<Rightarrow> Inl e
           | Inr None \<Rightarrow> Inl (TaskTransitionError uuid)
           | Inr (Some obj) \<Rightarrow> Inr obj))"

record worker_args =
  wa_id :: string
  wa_type :: string
  wa_host :: "string option"
  wa_capacity :: int
  wa_labels :: "params option"

definition refreshed_worker :: "worker_args \<Rightarrow> string \<Rightarrow> datetime \<Rightarrow> worker_row \<Rightarrow> worker_row" where
  "refreshed_worker a lease now w =
     w\<lparr>wk_type := wa_type a, wk_host := wa_host a, wk_lease := lease,
       wk_capacity := wa_capacity a, wk_labels := wa_labels a, wk_in_flight := 0,
       wk_status := ALIVE, wk_last_heartbeat_at := now\<rparr>"

text \<open>\<open>leases n\<close>, \<open>nows n\<close> and \<open>other n\<close> belong to the call with \<open>_retry_count = n\<close>.\<close>

function register_worker ::
  "rls_ctx \<Rightarrow> worker_args \<Rightarrow> (nat \<Rightarrow> string) \<Rightarrow> (nat \<Rightarrow> datetime) \<Rightarrow> (nat \<Rightarrow> db \<Rightarrow> db) \<Rightarrow> nat
     \<Rightarrow> db \<Rightarrow> worker_row res \<times> db" where
  "register_worker cx a leases nows other n d =
     (case require_system SchedulerNotSystemError cx of
        Inl e \<Rightarrow> (Inl e, d)
      | Inr _ \<Rightarrow>
         (case select_worker (wa_id a) d of
            Inl e \<Rightarrow> (Inl e, d)
          | Inr (Some existing) \<Rightarrow>
              (Inr (refreshed_worker a (leases n) (nows n) existing),
               upd_worker (wa_id a) (refreshed_worker a (leases n) (nows n)) d)
          | Inr None \<Rightarrow>
              let obj = new_worker (wa_id a) (wa_type a) (wa_host a) (leases n)
                          (wa_capacity a) (wa_labels a) (nows n);
                  d1 = other n d
              in case insert_worker obj d1 of
                   Inr d2 \<Rightarrow> (Inr obj, d2)
                 | Inl e \<Rightarrow>
                     if n \<ge> 2 then (Inl e, d1)
                     else register_worker cx a leases nows other (n + 1) d1))"
  by pat_completeness auto
termination by (relation "measure (\<lambda>(_, _, _, _, _, n, _). 3 - n)") auto

definition heartbeat ::
  "rls_ctx \<Rightarrow> string \<Rightarrow> string \<Rightarrow> datetime \<Rightarrow> db \<Rightarrow> worker_row res \<times> db" where
  "heartbeat cx wid lease now d =
     (case require_system SchedulerNotSystemError cx of
        Inl e \<Rightarrow> (Inl e, d)
      | Inr _ \<Rightarrow>
         (case get_worker wid d of
            Inl e \<Rightarrow> (Inl e, d)
          | Inr obj \<Rightarrow>
              if wk_lease obj \<noteq> lease then (Inl (WorkerLeaseMismatchError wid), d)
              else
                let beat = (\<lambda>w. w\<lparr>wk_last_heartbeat_at := now,
                                  wk_status := (if wk_status w = DEAD then ALIVE
                                                else wk_status w)\<rparr>)
                in (Inr (beat obj), upd_worker wid beat d)))"

definition drain_worker :: "rls_ctx \<Rightarrow> string \<Rightarrow> db \<Rightarrow> worker_row res \<times> db" where
  "drain_worker cx wid d =
     (case require_system SchedulerNotSystemError cx of
        Inl e \<Rightarrow> (Inl e, d)
      | Inr _ \<Rightarrow>
         (case get_worker wid d of
            Inl e \<Rightarrow> (Inl e, d)
          | Inr obj \<Rightarrow>
              if wk_status obj \<noteq> DEAD
              then (Inr (obj\<lparr>wk_status := DRAINING\<rparr>),
                    upd_worker wid (\<lambda>w. w\<lparr>wk_status := DRAINING\<rparr>) d)
              else (Inr obj, d)))"

definition dispatchable :: "string option \<Rightarrow> task_row \<Rightarrow> bool" where
  "dispatchable typ t \<longleftrightarrow>
     (tk_status t = PENDING \<or> tk_status t = QUEUED) \<and> tk_attempt t < tk_max_attempts t
   \<and> opt_eq typ (task_type_str (tk_type t))"

definition urgency :: "task_row \<Rightarrow> int \<times> int" where
  "urgency t = (tk_priority t, dt_us (tk_created_at t))"

definition set_running :: "string \<Rightarrow> datetime \<Rightarrow> task_row \<Rightarrow> task_row" where
  "set_running wid now t =
     t\<lparr>tk_status := RUNNING, tk_worker := Some wid, tk_started_at := Some now,
       tk_attempt := (if tk_attempt t = 0 then 1 else tk_attempt t)\<rparr>"

text \<open>The worker row is read before \<open>other\<close>; \<open>in_flight\<close> is written back from that copy.\<close>

definition claim_next_task ::
  "rls_ctx \<Rightarrow> string \<Rightarrow> string \<Rightarrow> string option \<Rightarrow> (string \<Rightarrow> bool) \<Rightarrow> datetime \<Rightarrow> (db \<Rightarrow> db) \<Rightarrow> db
     \<Rightarrow> task_row option res \<times> db" where
  "claim_next_task cx wid lease typ locked now other d =
     (case require_system SchedulerNotSystemError cx of
        Inl e \<Rightarrow> (Inl e, d)
      | Inr _ \<Rightarrow>
         (case get_worker wid d of
            Inl e \<Rightarrow> (Inl e, d)
          | Inr worker \<Rightarrow>
              if wk_lease worker \<noteq> lease then (Inl (WorkerLeaseMismatchError wid), d)
              else if wk_status worker \<noteq> ALIVE then (Inr None, d)
              else if wk_in_flight worker \<ge> wk_capacity worker then (Inr None, d)
              else
                let d1 = other d in
                case rls_rows cx ''task'' tk_tenant
                       (filter (\<lambda>t. dispatchable typ t \<and> \<not> locked (tk_uuid t)) (tasks d1)) of
                  Inl e \<Rightarrow> (Inl e, d1)
                | Inr rs \<Rightarrow>
                    (case sort_key urgency rs of
                       [] \<Rightarrow> (Inr None, d1)
                     | task # _ \<Rightarrow>
                         (Inr (Some (set_running wid now task)),
                          upd_worker wid (\<lambda>w. w\<lparr>wk_in_flight := wk_in_flight worker + 1\<rparr>)
                            (upd_task (tk_uuid task) (set_running wid now) d1)))))"

definition set_succeeded :: "params option \<Rightarrow> datetime \<Rightarrow> task_row \<Rightarrow> task_row" where
  "set_succeeded res now t =
     t\<lparr>tk_status := SUCCEEDED, tk_finished_at := Some now, tk_result := res,
       tk_error_code := None, tk_error_message := None\<rparr>"

definition complete_task ::
  "rls_ctx \<Rightarrow> string \<Rightarrow> string \<Rightarrow> params option \<Rightarrow> datetime \<Rightarrow> db \<Rightarrow> task_row res \<times> db" where
  "complete_task cx wid uuid res now d =
     (case require_system SchedulerNotSystemError cx of
        Inl e \<Rightarrow> (Inl e, d)
      | Inr _ \<Rightarrow>
         (case sched_get_task cx uuid d of
            Inl e \<Rightarrow> (Inl e, d)
          | Inr task \<Rightarrow>
              if tk_worker task \<noteq> Some wid then (Inl (TaskTransitionError uuid), d)
              else if tk_status task \<noteq> RUNNING then (Inl (TaskTransitionError uuid), d)
              else (Inr (set_succeeded res now task),
                    decrement_in_flight wid (upd_task uuid (set_succeeded res now) d))))"

definition set_failed :: "string \<Rightarrow> string \<Rightarrow> datetime \<Rightarrow> task_row \<Rightarrow> task_row" where
  "set_failed code msg now t =
     t\<lparr>tk_status := FAILED, tk_finished_at := Some now, tk_error_code := Some code,
       tk_error_message := Some msg\<rparr>"

definition fail_task ::
  "rls_ctx \<Rightarrow> string \<Rightarrow> string \<Rightarrow> string \<Rightarrow> string \<Rightarrow> datetime \<Rightarrow> db \<Rightarrow> task_row res \<times> db" where
  "fail_task cx wid uuid code msg now d =
     (case require_system SchedulerNotSystemError cx of
        Inl e \<Rightarrow> (Inl e, d)
      | Inr _ \<Rightarrow>
         (case sched_get_task cx uuid d of
            Inl e \<Rightarrow> (Inl e, d)
          | Inr task \<Rightarrow>
              if tk_worker task \<noteq> Some wid then (Inl (TaskTransitionError uuid), d)
              else if tk_status task \<noteq> RUNNING then (Inl (TaskTransitionError uuid), d)
              else (Inr (set_failed code msg now task),
                    decrement_in_flight wid (upd_task uuid (set_failed code msg now) d))))"

definition DEFAULT_HEARTBEAT_TIMEOUT :: int where
  "DEFAULT_HEARTBEAT_TIMEOUT = 30 * 1000000"

text \<open>Instants and durations are microseconds: \<open>last_heartbeat_at < now - timeout\<close>.\<close>

definition stale :: "int \<Rightarrow> int \<Rightarrow> worker_row \<Rightarrow> bool" where
  "stale now timeout w \<longleftrightarrow>
     wk_status w \<noteq> DEAD \<and> dt_us (wk_last_heartbeat_at w) < now - timeout"

definition set_requeued :: "task_row \<Rightarrow> task_row" where
  "set_requeued t = t\<lparr>tk_status := PENDING, tk_worker := None, tk_started_at := None\<rparr>"

definition running_on :: "string \<Rightarrow> task_row \<Rightarrow> bool" where
  "running_on wid t \<longleftrightarrow> tk_worker t = Some wid \<and> tk_status t = RUNNING"

definition reap_worker :: "string \<Rightarrow> db \<Rightarrow> db" where
  "reap_worker wid d =
     upd_worker wid (\<lambda>w. w\<lparr>wk_status := DEAD, wk_in_flight := 0\<rparr>)
       (d\<lparr>tasks := upd_where (running_on wid) set_requeued (tasks d)\<rparr>)"

fun reap_loop :: "string list \<Rightarrow> db \<Rightarrow> (string list \<times> string list) \<times> db" where
  "reap_loop [] d = (([], []), d)"
| "reap_loop (wid # wids) d =
     (let requeued = map tk_uuid (filter (running_on wid) (tasks d));
          ((reaped, more), d') = reap_loop wids (reap_worker wid d)
      in ((wid # reaped, requeued @ more), d'))"

definition reap_dead_workers ::
  "rls_ctx \<Rightarrow> int \<Rightarrow> (string \<Rightarrow> bool) \<Rightarrow> int \<Rightarrow> db \<Rightarrow> (string list \<times> string list) res \<times> db" where
  "reap_dead_workers cx timeout locked now d =
     (case require_system SchedulerNotSystemError cx of
        Inl e \<Rightarrow> (Inl e, d)
      | Inr _ \<Rightarrow>
          let stale_workers =
                map wk_id (filter (\<lambda>w. stale now timeout w \<and> \<not> locked (wk_id w)) (workers d));
              (out, d') = reap_loop stale_workers d
          in (Inr out, d'))"

declare register_worker.simps [simp del]

section \<open>System-only operations\<close>

locale system_only =
  fixes op :: "rls_ctx \<Rightarrow> db \<Rightarrow> 'a res \<times> db" and refusal :: lcp_error
  assumes guard: "require_system_context (cx_principal cx) = Inl e \<Longrightarrow> op cx d = (Inl refusal, d)"
begin

lemma refused_none: "cx_principal cx = None \<Longrightarrow> op cx d = (Inl refusal, d)"
  by (rule guard) (simp add: require_system_context_def)

lemma refused_tenant:
  "cx_principal cx = Some p \<Longrightarrow> \<not> p_is_system p \<Longrightarrow> op cx d = (Inl refusal, d)"
  by (rule guard) (simp add: require_system_context_def)

lemma effect_needs_system:
  assumes "op cx d = (r, d')" and "d' \<noteq> d \<or> r \<noteq> Inl refusal"
  shows "\<exists>p. cx_principal cx = Some p \<and> p_is_system p"
proof (rule ccontr)
  assume n: "\<nexists>p. cx_principal cx = Some p \<and> p_is_system p"
  then have "require_system_context (cx_principal cx) = Inl NotSystemPrincipalError"
    by (auto simp: require_system_context_def split: option.splits)
  from guard [OF this, of d] assms show False by simp
qed

end

definition is_system :: "rls_ctx \<Rightarrow> bool" where
  "is_system cx \<longleftrightarrow> (case cx_principal cx of None \<Rightarrow> False | Some p \<Rightarrow> p_is_system p)"

lemma require_system_iff [guard_simps]:
  "require_system e cx = (if is_system cx then Inr () else Inl e)"
  by (auto simp: require_system_def require_system_context_def is_system_def split: option.splits)

lemma is_system_sees [simp]: "is_system cx \<Longrightarrow> sees cx t" "is_system cx \<Longrightarrow> authenticated cx"
  by (auto simp: is_system_def sees_def authenticated_def split: option.splits)

interpretation sys_register: system_only
  "\<lambda>cx. register_worker cx a leases nows other n" SchedulerNotSystemError
  for a leases nows other n
  by unfold_locales (simp add: register_worker.simps require_system_def)

interpretation sys_heartbeat: system_only
  "\<lambda>cx. heartbeat cx wid lease now" SchedulerNotSystemError for wid lease now
  by unfold_locales (simp add: heartbeat_def require_system_def)

interpretation sys_drain: system_only
  "\<lambda>cx. drain_worker cx wid" SchedulerNotSystemError for wid
  by unfold_locales (simp add: drain_worker_def require_system_def)

interpretation sys_claim: system_only
  "\<lambda>cx. claim_next_task cx wid lease flt locked now other" SchedulerNotSystemError
  for wid lease flt locked now other
  by unfold_locales (simp add: claim_next_task_def require_system_def)

interpretation sys_complete: system_only
  "\<lambda>cx. complete_task cx wid uuid res now" SchedulerNotSystemError for wid uuid res now
  by unfold_locales (simp add: complete_task_def require_system_def)

interpretation sys_fail: system_only
  "\<lambda>cx. fail_task cx wid uuid code msg now" SchedulerNotSystemError for wid uuid code msg now
  by unfold_locales (simp add: fail_task_def require_system_def)

interpretation sys_reap: system_only
  "\<lambda>cx. reap_dead_workers cx timeout locked now" SchedulerNotSystemError
  for timeout locked now
  by unfold_locales (simp add: reap_dead_workers_def require_system_def)

section \<open>What each operation can do to the database\<close>

lemma select_worker_Some:
  assumes "select_worker wid d = Inr (Some w)"
  shows "w \<in> set (workers d)" and "wk_id w = wid"
  using one_or_none_Some(1,2) [OF assms [unfolded select_worker_def]] by auto

lemma get_worker_Inr:
  assumes "get_worker wid d = Inr w"
  shows "w \<in> set (workers d)" and "wk_id w = wid"
proof -
  from assms have "select_worker wid d = Inr (Some w)"
    by (auto simp: get_worker_def split: sum.splits option.splits)
  from select_worker_Some [OF this] show "w \<in> set (workers d)" "wk_id w = wid" by auto
qed

lemma sched_get_task_Inr:
  assumes "sched_get_task cx uuid d = Inr t"
  shows "t \<in> set (tasks d)" and "tk_uuid t = uuid"
proof -
  from assms have "get_task cx uuid d = Inr t"
    by (auto simp: sched_get_task_def get_task_def split: sum.splits option.splits)
  from get_task_Inr [OF this] show "t \<in> set (tasks d)" "tk_uuid t = uuid" by auto
qed

lemma claim_cases:
  assumes "claim_next_task cx wid lease typ locked now other d = (r, d')"
  obtains (idle) "d' = d" "\<And>t. r \<noteq> Inr (Some t)"
    | (empty) "d' = other d" "\<And>t. r \<noteq> Inr (Some t)"
    | (got) w t where "is_system cx" "get_worker wid d = Inr w" "wk_lease w = lease" "wk_status w = ALIVE"
        "wk_in_flight w < wk_capacity w" "t \<in> set (tasks (other d))" "dispatchable typ t"
        "\<not> locked (tk_uuid t)"
        "\<And>s. s \<in> set (tasks (other d)) \<Longrightarrow> dispatchable typ s \<Longrightarrow> \<not> locked (tk_uuid s)
            \<Longrightarrow> urgency t \<le> urgency s"
        "r = Inr (Some (set_running wid now t))"
        "d' = upd_worker wid (\<lambda>x. x\<lparr>wk_in_flight := wk_in_flight w + 1\<rparr>)
                (upd_task (tk_uuid t) (set_running wid now) (other d))"
proof -
  show thesis
  proof (cases "is_system cx")
    case False
    with assms have "d' = d" "r = Inl SchedulerNotSystemError"
      by (auto simp: claim_next_task_def require_system_iff)
    then show thesis using idle by simp
  next
    case sys: True
    show thesis
    proof (cases "get_worker wid d")
      case (Inl e)
      with assms sys have "d' = d" "r = Inl e"
        by (auto simp: claim_next_task_def require_system_iff)
      then show thesis using idle by simp
    next
      case (Inr w)
      show thesis
      proof (cases "wk_lease w = lease \<and> wk_status w = ALIVE \<and> wk_in_flight w < wk_capacity w")
        case False
        with assms sys Inr have "d' = d" "r = Inl (WorkerLeaseMismatchError wid) \<or> r = Inr None"
          by (auto simp: claim_next_task_def require_system_iff split: if_splits)
        then show thesis using idle by auto
      next
        case ok: True
        define rs where "rs = filter (\<lambda>t. dispatchable typ t \<and> \<not> locked (tk_uuid t)) (tasks (other d))"
        have run: "claim_next_task cx wid lease typ locked now other d =
          (case sort_key urgency rs of
             [] \<Rightarrow> (Inr None, other d)
           | task # _ \<Rightarrow> (Inr (Some (set_running wid now task)),
               upd_worker wid (\<lambda>x. x\<lparr>wk_in_flight := wk_in_flight w + 1\<rparr>)
                 (upd_task (tk_uuid task) (set_running wid now) (other d))))"
          using sys Inr ok by (simp add: claim_next_task_def require_system_iff rls_task rs_def Let_def)
        show thesis
        proof (cases "sort_key urgency rs")
          case Nil
          with assms run have "d' = other d" "r = Inr None" by auto
          then show thesis using empty by simp
        next
          case (Cons t ts)
          have set: "set (t # ts) = set rs" using Cons by (metis set_sort)
          have "sorted (map urgency (t # ts))" using Cons by (metis sorted_sort_key)
          then have least: "urgency t \<le> urgency s" if "s \<in> set rs" for s
            using that set by auto
          show thesis
            using assms run Cons Inr sys ok set least by (intro got [of w t]) (auto simp: rs_def)
        qed
      qed
    qed
  qed
qed

lemma finish_cases:
  assumes "complete_task cx wid uuid res now d = (r, d') \<or> fail_task cx wid uuid code msg now d = (r, d')"
  obtains (refused) e where "r = Inl e" "d' = d"
    | (finished) t f where "is_system cx" "t \<in> set (tasks d)" "tk_uuid t = uuid" "tk_status t = RUNNING"
        "tk_worker t = Some wid" "f = set_succeeded res now \<or> f = set_failed code msg now"
        "r = Inr (f t)" "d' = decrement_in_flight wid (upd_task uuid f d)"
proof (cases "is_system cx")
  case False
  with assms have "r = Inl SchedulerNotSystemError" "d' = d"
    by (auto simp: complete_task_def fail_task_def require_system_iff)
  then show thesis by (rule refused)
next
  case sys: True
  show thesis
  proof (cases "sched_get_task cx uuid d")
    case (Inl e)
    with assms sys have "r = Inl e" "d' = d"
      by (auto simp: complete_task_def fail_task_def require_system_iff)
    then show thesis by (rule refused)
  next
    case (Inr t)
    show thesis
    proof (cases "tk_worker t = Some wid \<and> tk_status t = RUNNING")
      case False
      with assms sys Inr have "r = Inl (TaskTransitionError uuid)" "d' = d"
        by (auto simp: complete_task_def fail_task_def require_system_iff split: if_splits)
      then show thesis by (rule refused)
    next
      case True
      with assms sys Inr obtain f where "f = set_succeeded res now \<or> f = set_failed code msg now"
          "r = Inr (f t)" "d' = decrement_in_flight wid (upd_task uuid f d)"
        by (auto simp: complete_task_def fail_task_def require_system_iff)
      then show thesis using finished [of t f] sys True sched_get_task_Inr [OF Inr] by blast
    qed
  qed
qed

text \<open>Worker rows: a status or lease change never touches the task table.\<close>

lemma register_cases:
  assumes "register_worker cx a leases nows other n d = (r, d')"
    and "Q d" and "\<And>k d. Q d \<Longrightarrow> Q (other k d)"
    and "\<And>k d. Q d \<Longrightarrow> Q (upd_worker (wa_id a) (refreshed_worker a (leases k) (nows k)) d)"
    and "\<And>k d d2. Q d \<Longrightarrow> insert_worker (new_worker (wa_id a) (wa_type a) (wa_host a) (leases k)
                          (wa_capacity a) (wa_labels a) (nows k)) d = Inr d2 \<Longrightarrow> Q d2"
  shows "Q d'"
  using assms
proof (induction cx a leases nows other n d rule: register_worker.induct)
  case (1 cx a leases nows other n d)
  note ins = 1(6) [OF 1(4) [OF 1(3)], of n]
  show ?case
    using 1 by (auto simp: register_worker.simps [of cx a leases nows other n d] Let_def
        require_system_iff dest: ins split: sum.splits option.splits if_splits)
qed

lemma upd_worker_worker [simp]:
  "indexes (upd_worker u f d) = indexes d" "policies (upd_worker u f d) = policies d"
  "rules (upd_worker u f d) = rules d"
  by (simp_all add: upd_worker_def)

lemma wf_upd_worker:
  "wf_db d \<Longrightarrow> (\<And>w. wk_id (f w) = wk_id w) \<Longrightarrow> wf_db (upd_worker wid f d)"
  unfolding upd_worker_def by (rule wf_upd_workers) (simp_all add: uk_defs)

lemma insert_worker_tasks: "insert_worker w d = Inr d' \<Longrightarrow> tasks d' = tasks d"
  by (auto simp: insert_worker_def split: if_splits)

lemma heartbeat_cases:
  assumes "heartbeat cx wid lease now d = (r, d')"
  shows "d' = d \<or> d' = upd_worker wid (\<lambda>w. w\<lparr>wk_last_heartbeat_at := now,
           wk_status := (if wk_status w = DEAD then ALIVE else wk_status w)\<rparr>) d"
  using assms by (auto simp: heartbeat_def require_system_iff split: sum.splits if_splits)

lemma drain_cases:
  assumes "drain_worker cx wid d = (r, d')"
  shows "d' = d \<or> (\<exists>w\<in>set (workers d). wk_id w = wid \<and> wk_status w \<noteq> DEAD
           \<and> d' = upd_worker wid (\<lambda>w. w\<lparr>wk_status := DRAINING\<rparr>) d)"
proof (cases "get_worker wid d")
  case (Inl e)
  then show ?thesis using assms by (simp add: drain_worker_def require_system_iff split: if_splits)
next
  case (Inr w)
  with assms have "d' = d \<or> wk_status w \<noteq> DEAD \<and> d' = upd_worker wid (\<lambda>w. w\<lparr>wk_status := DRAINING\<rparr>) d"
    by (auto simp: drain_worker_def require_system_iff split: if_splits)
  with get_worker_Inr [OF Inr] show ?thesis by blast
qed

subsection \<open>Refinement of the task machine\<close>

lemma task_step_running:
  "dispatchable ty t \<Longrightarrow> 0 \<le> tk_attempt t \<Longrightarrow> task_step t (set_running wid now t)"
  by (auto simp: dispatchable_def task_step_def same_identity_def set_running_def)

lemma task_step_succeeded: "tk_status t = RUNNING \<Longrightarrow> task_step t (set_succeeded res now t)"
  by (simp add: task_step_def same_identity_def set_succeeded_def)

lemma task_step_failed: "tk_status t = RUNNING \<Longrightarrow> task_step t (set_failed code msg now t)"
  by (simp add: task_step_def same_identity_def set_failed_def)

lemma task_step_finish:
  "tk_status t = RUNNING \<Longrightarrow> f = set_succeeded res now \<or> f = set_failed code msg now
     \<Longrightarrow> task_step t (f t)"
  by (elim disjE) (simp_all only: task_step_succeeded task_step_failed)

lemma task_step_requeue: "running_on wid t \<Longrightarrow> task_step t (set_requeued t)"
  by (simp add: running_on_def task_step_def same_identity_def set_requeued_def)

lemma wf_running: "wf_task t \<Longrightarrow> dispatchable ty t \<Longrightarrow> wf_task (set_running wid now t)"
  by (auto simp: wf_task_def dispatchable_def set_running_def)

lemma wf_succeeded: "wf_task t \<Longrightarrow> wf_task (set_succeeded res now t)"
  by (simp add: wf_task_def set_succeeded_def)

lemma wf_failed: "wf_task t \<Longrightarrow> wf_task (set_failed code msg now t)"
  by (simp add: wf_task_def set_failed_def)

lemma wf_finish:
  "wf_task t \<Longrightarrow> f = set_succeeded res now \<or> f = set_failed code msg now \<Longrightarrow> wf_task (f t)"
  by (elim disjE) (simp_all only: wf_succeeded wf_failed)

lemma wf_requeue: "wf_task t \<Longrightarrow> running_on wid t \<Longrightarrow> wf_task (set_requeued t)"
  by (auto simp: wf_task_def running_on_def set_requeued_def)

lemma claim_wf:
  assumes "wf_db d" and "wf_db (other d)" and "wf_tasks d" and "wf_tasks (other d)"
    and "tasks_evolve d (other d)"
    and "claim_next_task cx wid lease typ locked now other d = (r, d')"
  shows "wf_db d'" and "wf_tasks d'" and "tasks_evolve d d' \<or> tasks_evolve (other d) d'"
proof -
  have "wf_db d' \<and> wf_tasks d' \<and> (tasks_evolve d d' \<or> tasks_evolve (other d) d')"
    using assms(6)
  proof (cases rule: claim_cases)
    case (got w t)
    have ts: "tasks d' = upd_where (\<lambda>s. tk_uuid s = tk_uuid t) (set_running wid now) (tasks (other d))"
      using got(11) by simp
    have wt: "wf_task t" using got(6) assms(4) by (simp add: wf_tasks_def)
    then have at: "0 \<le> tk_attempt t" by (simp add: wf_task_def)
    have "wf_db d'" unfolding got(11)
      by (intro wf_upd_worker wf_upd_task assms(2)) (simp_all add: set_running_def)
    moreover have "wf_tasks d'"
      by (rule one_task_wf [where f = "set_running wid now", OF assms(2,4) got(6) refl
            wf_running [OF wt got(7)] ts])
    moreover have "tasks_evolve (other d) d'"
      by (rule one_task_evolves [where f = "set_running wid now", OF assms(2) got(6) refl
            task_step_running [OF got(7) at] ts])
    ultimately show ?thesis by blast
  qed (use assms in auto)
  then show "wf_db d'" "wf_tasks d'" "tasks_evolve d d' \<or> tasks_evolve (other d) d'" by auto
qed

lemma finish_wf:
  assumes "wf_db d" and "wf_tasks d"
    and "complete_task cx wid uuid res now d = (r, d') \<or> fail_task cx wid uuid code msg now d = (r, d')"
  shows "wf_db d'" and "wf_tasks d'" and "tasks_evolve d d'"
proof -
  have "wf_db d' \<and> wf_tasks d' \<and> tasks_evolve d d'"
    using assms(3)
  proof (cases rule: finish_cases)
    case (finished t f)
    have ts: "tasks d' = upd_where (\<lambda>s. tk_uuid s = uuid) f (tasks d)"
      using finished(8) by simp
    have wt: "wf_task t" using finished(2) assms(2) by (simp add: wf_tasks_def)
    have "wf_db d'" unfolding finished(8)
      by (intro wf_decrement wf_upd_task assms(1))
        (use finished(6) in \<open>auto simp: set_succeeded_def set_failed_def\<close>)
    moreover have "wf_tasks d'"
      by (rule one_task_wf [where f = f, OF assms(1,2) finished(2,3) wf_finish [OF wt finished(6)] ts])
    moreover have "tasks_evolve d d'"
      by (rule one_task_evolves [where f = f, OF assms(1) finished(2,3)
            task_step_finish [OF finished(4,6)] ts])
    ultimately show ?thesis by blast
  qed (use assms in auto)
  then show "wf_db d'" "wf_tasks d'" "tasks_evolve d d'" by auto
qed

lemma tasks_reap_worker [simp]:
  "tasks (reap_worker wid d) = upd_where (running_on wid) set_requeued (tasks d)"
  "workers (reap_worker wid d) =
     upd_where (\<lambda>w. wk_id w = wid) (\<lambda>w. w\<lparr>wk_status := DEAD, wk_in_flight := 0\<rparr>) (workers d)"
  by (simp_all add: reap_worker_def upd_worker_def)

lemma wf_db_reap_worker: "wf_db d \<Longrightarrow> wf_db (reap_worker wid d)"
  unfolding reap_worker_def by (intro wf_upd_worker wf_upd_tasks) (simp_all add: uk_defs set_requeued_def)

lemma reap_worker_wf:
  assumes "wf_db d" and "wf_tasks d"
  shows "wf_db (reap_worker wid d)" and "wf_tasks (reap_worker wid d)"
    and "tasks_evolve d (reap_worker wid d)"
proof -
  show "wf_db (reap_worker wid d)" by (rule wf_db_reap_worker [OF assms(1)])
  show "wf_tasks (reap_worker wid d)"
    by (rule wf_tasks_upd [OF assms(2) tasks_reap_worker(1)])
      (use assms(2) wf_requeue in \<open>auto simp: wf_tasks_def\<close>)
  show "tasks_evolve d (reap_worker wid d)"
    by (rule tasks_evolve_upd [OF tasks_reap_worker(1)]) (rule task_step_requeue)
qed

lemma reap_loop_invariant:
  assumes "reap_loop wids d = (out, d')" and "Q d"
    and "\<And>wid d. wid \<in> set wids \<Longrightarrow> Q d \<Longrightarrow> Q (reap_worker wid d)"
  shows "Q d'"
  using assms
proof (induction wids arbitrary: d out)
  case Nil
  then show ?case by simp
next
  case (Cons wid wids)
  obtain out' where "reap_loop wids (reap_worker wid d) = (out', d')"
    using Cons.prems(1) by (auto simp: Let_def split: prod.splits)
  then show ?case using Cons.IH Cons.prems(2,3) by simp
qed

lemma reap_loop_wf:
  assumes "reap_loop wids d = (out, d')" and "wf_db d" and "wf_tasks d"
  shows "wf_db d'" and "wf_tasks d'" and "tasks_evolve\<^sup>*\<^sup>* d d'"
proof -
  have "wf_db d' \<and> wf_tasks d' \<and> tasks_evolve\<^sup>*\<^sup>* d d'"
    by (rule reap_loop_invariant [where Q = "\<lambda>x. wf_db x \<and> wf_tasks x \<and> tasks_evolve\<^sup>*\<^sup>* d x", OF assms(1)])
      (use assms reap_worker_wf in \<open>auto intro: rtranclp.rtrancl_into_rtrancl\<close>)
  then show "wf_db d'" "wf_tasks d'" "tasks_evolve\<^sup>*\<^sup>* d d'" by auto
qed

lemma reap_cases:
  assumes "reap_dead_workers cx timeout locked now d = (r, d')"
  obtains (refused) "d' = d" "r = Inl SchedulerNotSystemError" "\<not> is_system cx"
    | (reaped) out where "is_system cx" "r = Inr out"
        "reap_loop (map wk_id (filter (\<lambda>w. stale now timeout w \<and> \<not> locked (wk_id w)) (workers d))) d
           = (out, d')"
  using assms
  by (auto simp: reap_dead_workers_def require_system_iff Let_def split: if_splits prod.splits)

definition running_set :: "db \<Rightarrow> task_row set" where
  "running_set d = {t \<in> set (tasks d). tk_status t = RUNNING}"

lemma running_set_reap_worker:
  "running_set (reap_worker wid d) = {t \<in> running_set d. tk_worker t \<noteq> Some wid}"
  by (auto simp: running_set_def upd_where_in running_on_def set_requeued_def split: if_splits
      dest: arg_cong [where f = tk_status])

lemma reap_loop_requeues:
  assumes "reap_loop wids d = ((reaped, requeued), d')"
  shows "reaped = wids"
    and "running_set d' = {t \<in> running_set d. \<forall>w\<in>set wids. tk_worker t \<noteq> Some w}"
    and "set requeued = tk_uuid ` {t \<in> running_set d. \<exists>w\<in>set wids. tk_worker t = Some w}"
proof -
  have "reaped = wids
    \<and> running_set d' = {t \<in> running_set d. \<forall>w\<in>set wids. tk_worker t \<noteq> Some w}
    \<and> set requeued = tk_uuid ` {t \<in> running_set d. \<exists>w\<in>set wids. tk_worker t = Some w}"
    using assms
  proof (induction wids arbitrary: d reaped requeued)
    case Nil
    then show ?case by auto
  next
    case (Cons wid wids)
    obtain ra re where rest: "reap_loop wids (reap_worker wid d) = ((ra, re), d')"
      and out: "reaped = wid # ra" "requeued = map tk_uuid (filter (running_on wid) (tasks d)) @ re"
      using Cons.prems by (auto simp: Let_def split: prod.splits)
    have now: "set (filter (running_on wid) (tasks d)) = {t \<in> running_set d. tk_worker t = Some wid}"
      by (auto simp: running_on_def running_set_def)
    show ?case
      using Cons.IH [OF rest] out now by (auto simp: running_set_reap_worker simp del: set_filter)
  qed
  then show "reaped = wids"
    and "running_set d' = {t \<in> running_set d. \<forall>w\<in>set wids. tk_worker t \<noteq> Some w}"
    and "set requeued = tk_uuid ` {t \<in> running_set d. \<exists>w\<in>set wids. tk_worker t = Some w}"
    by blast+
qed

section \<open>Properties\<close>

definition worker0 :: worker_row where
  "worker0 = new_worker ''w1'' ''lifecycle'' None ''L1'' 1 None t0"

definition fleet0 :: "task_row list \<Rightarrow> db" where
  "fleet0 ts = db0\<lparr>tasks := ts, workers := [worker0]\<rparr>"

lemma worker0 [simp]: "wk_id worker0 = ''w1''" "wk_lease worker0 = ''L1''" "wk_status worker0 = ALIVE"
  "wk_capacity worker0 = 1" "wk_in_flight worker0 = 0"
  by (simp_all add: worker0_def new_worker_def)

lemma fleet0 [simp]: "tasks (fleet0 ts) = ts" "workers (fleet0 ts) = [worker0]"
  "datasets (fleet0 ts) = [dataset0]" "is_system system_cx"
  "get_worker ''w1'' (fleet0 ts) = Inr worker0"
  by (simp_all add: fleet0_def is_system_def system_cx_def system_principal_def get_worker_def
      select_worker_def)

lemma wf_fleet0: "unique_on uk_task_uuid ts \<Longrightarrow> unique_on uk_idempotency_key ts \<Longrightarrow> wf_db (fleet0 ts)"
  by (simp add: fleet0_def wf_db_def unique_on_Cons clash_iff)

lemma dispatchable0 [simp]: "dispatchable None task0"
  by (simp add: dispatchable_def opt_eq_def)


lemma claim0: "claim_next_task system_cx ''w1'' ''L1'' None (\<lambda>_. False) t0 (\<lambda>x. x) (fleet0 [task0])
    = (Inr (Some (set_running ''w1'' t0 task0)),
       upd_worker ''w1'' (\<lambda>w. w\<lparr>wk_in_flight := 1\<rparr>) (upd_task ''a'' (set_running ''w1'' t0) (fleet0 [task0])))"
  by (simp add: claim_next_task_def require_system_iff rls_task Let_def)


text \<open>C9: dispatch makes progress.  If the worker is registered, ALIVE, below capacity and
  presents its lease, and some dispatchable task is not locked, then the claim returns a task.\<close>

theorem claim_next_task_progress:
  assumes "is_system cx" and "get_worker wid d = Inr w" and "wk_status w = ALIVE"
    and "wk_in_flight w < wk_capacity w" and "s \<in> set (tasks (other d))" and "dispatchable ty s"
    and "\<not> locked (tk_uuid s)"
  shows "\<exists>t. fst (claim_next_task cx wid (wk_lease w) ty locked now other d) = Inr (Some t)"
proof -
  define rs where "rs = filter (\<lambda>t. dispatchable ty t \<and> \<not> locked (tk_uuid t)) (tasks (other d))"
  have "s \<in> set (sort_key urgency rs)" using assms(5-7) by (simp add: rs_def)
  then obtain t ts where "sort_key urgency rs = t # ts" by (cases "sort_key urgency rs") auto
  then show ?thesis using assms(1-4)
    by (simp add: claim_next_task_def require_system_iff rls_task rs_def Let_def)
qed

theorem claim_next_task_progress_witness:
  "\<exists>t. fst (claim_next_task system_cx ''w1'' (wk_lease worker0) None (\<lambda>_. False) t0 (\<lambda>x. x) (fleet0 [task0]))
     = Inr (Some t)"
  by (rule claim_next_task_progress [where s = task0]) simp_all


definition task1 :: task_row where
  "task1 = new_task ''b'' COMPACTION ''u1'' ''acme'' 7 None None 3 t0"

definition fleet2 :: db where
  "fleet2 = db0\<lparr>tasks := [task0, task1], workers := [worker0\<lparr>wk_capacity := 2\<rparr>]\<rparr>"


text \<open>C7: only the owner finishes a task.  \<open>complete_task\<close> and \<open>fail_task\<close> succeed exactly when
  the task exists, is RUNNING and owned by the calling worker; then it is SUCCEEDED
  (respectively FAILED with the given error) and the worker's slot is given back.  In every
  other case they raise \<open>TaskTransitionError\<close> and change nothing, so a cancelled, reaped or
  re-dispatched task is never overwritten by its previous worker.\<close>

theorem only_owner_finishes:
  assumes "wf_db d" and "is_system cx"
  shows "complete_task cx wid uuid res now d =
      (case find (\<lambda>t. tk_uuid t = uuid \<and> tk_status t = RUNNING \<and> tk_worker t = Some wid) (tasks d) of
         Some t \<Rightarrow> (Inr (set_succeeded res now t),
                    decrement_in_flight wid (upd_task uuid (set_succeeded res now) d))
       | None \<Rightarrow> (Inl (TaskTransitionError uuid), d))
    \<and> fail_task cx wid uuid code msg now d =
      (case find (\<lambda>t. tk_uuid t = uuid \<and> tk_status t = RUNNING \<and> tk_worker t = Some wid) (tasks d) of
         Some t \<Rightarrow> (Inr (set_failed code msg now t),
                    decrement_in_flight wid (upd_task uuid (set_failed code msg now) d))
       | None \<Rightarrow> (Inl (TaskTransitionError uuid), d))"
proof (cases "\<exists>t\<in>set (tasks d). tk_uuid t = uuid")
  case False
  then have "filter (\<lambda>t. tk_uuid t = uuid) (tasks d) = []" by (auto simp: filter_empty_conv)
  moreover have "find (\<lambda>t. tk_uuid t = uuid \<and> tk_status t = RUNNING \<and> tk_worker t = Some wid) (tasks d) = None"
    using False by (auto simp: find_None_iff)
  ultimately show ?thesis using assms(2)
    by (simp add: complete_task_def fail_task_def require_system_iff sched_get_task_def rls_task)
next
  case True
  then obtain t where t: "t \<in> set (tasks d)" "tk_uuid t = uuid" by blast
  have get: "sched_get_task cx uuid d = Inr t"
    using one_task_filter [OF assms(1) t] assms(2) by (simp add: sched_get_task_def rls_task)
  have only: "s = t" if "s \<in> set (tasks d)" "tk_uuid s = uuid" for s
    using task_by_uuid [OF assms(1) that(1) t(1)] that(2) t(2) by simp
  show ?thesis
  proof (cases "find (\<lambda>t. tk_uuid t = uuid \<and> tk_status t = RUNNING \<and> tk_worker t = Some wid) (tasks d)")
    case None
    then have "tk_worker t \<noteq> Some wid \<or> tk_status t \<noteq> RUNNING" using t by (auto simp: find_None_iff)
    then show ?thesis using None get assms(2) by (auto simp: complete_task_def fail_task_def require_system_iff)
  next
    case (Some s)
    from find_in [OF Some] only have "s = t" "tk_worker t = Some wid" "tk_status t = RUNNING" by auto
    then show ?thesis using Some get assms(2) by (simp add: complete_task_def fail_task_def require_system_iff)
  qed
qed

theorem only_owner_finishes_witness:
  "complete_task system_cx ''w2'' ''a'' None t0 (fleet0 [set_running ''w1'' t0 task0])
     = (Inl (TaskTransitionError ''a''), fleet0 [set_running ''w1'' t0 task0])"
  using only_owner_finishes [OF wf_fleet0, of "[set_running ''w1'' t0 task0]" system_cx "''w2''" "''a''" None t0]
  by (simp add: unique_on_Cons clash_iff set_running_def)



text \<open>Scheduler primitives are closed to tenants.  For a request without a principal or with
  a tenant principal every primitive raises \<open>SchedulerNotSystemError\<close> and changes nothing.\<close>

theorem scheduler_closed_to_tenants:
  assumes "cx_principal cx = None \<or> (\<exists>p. cx_principal cx = Some p \<and> \<not> p_is_system p)"
  shows "register_worker cx a leases nows other n d = (Inl SchedulerNotSystemError, d)
    \<and> heartbeat cx wid lease now d = (Inl SchedulerNotSystemError, d)
    \<and> drain_worker cx wid d = (Inl SchedulerNotSystemError, d)
    \<and> claim_next_task cx wid lease ty locked now other' d = (Inl SchedulerNotSystemError, d)
    \<and> complete_task cx wid uuid res now d = (Inl SchedulerNotSystemError, d)
    \<and> fail_task cx wid uuid code msg now d = (Inl SchedulerNotSystemError, d)
    \<and> reap_dead_workers cx timeout locked now_us d = (Inl SchedulerNotSystemError, d)"
  using assms
  by (auto intro: sys_register.refused_none sys_register.refused_tenant sys_heartbeat.refused_none
      sys_heartbeat.refused_tenant sys_drain.refused_none sys_drain.refused_tenant
      sys_claim.refused_none sys_claim.refused_tenant sys_complete.refused_none sys_complete.refused_tenant
      sys_fail.refused_none sys_fail.refused_tenant sys_reap.refused_none sys_reap.refused_tenant)

theorem scheduler_closed_to_tenants_witness:
  "claim_next_task acme_cx ''w1'' ''L1'' None (\<lambda>_. False) t0 (\<lambda>x. x) (fleet0 [task0])
     = (Inl SchedulerNotSystemError, fleet0 [task0])"
proof -
  have "cx_principal acme_cx = None \<or> (\<exists>p. cx_principal acme_cx = Some p \<and> \<not> p_is_system p)"
    by (simp add: acme_def)
  from scheduler_closed_to_tenants [OF this] show ?thesis by blast
qed

text \<open>Leases fence off a restarted worker.  After a registered worker registers again under a
  new lease, heartbeats and claims that present the old lease raise
  \<open>WorkerLeaseMismatchError\<close> and change nothing.\<close>

theorem old_lease_is_fenced:
  assumes "is_system cx" and "get_worker (wa_id a) d = Inr w" and "leases n \<noteq> old"
    and "register_worker cx a leases nows other n d = (r, d')"
  shows "heartbeat cx (wa_id a) old now d' = (Inl (WorkerLeaseMismatchError (wa_id a)), d')
    \<and> claim_next_task cx (wa_id a) old ty locked now other' d' = (Inl (WorkerLeaseMismatchError (wa_id a)), d')"
proof -
  have sel: "filter (\<lambda>w. wk_id w = wa_id a) (workers d) = [w]"
    using assms(2) by (auto simp: get_worker_def select_worker_def one_or_none_def
        split: sum.splits option.splits list.splits)
  have d': "d' = upd_worker (wa_id a) (refreshed_worker a (leases n) (nows n)) d"
    using assms(1,4) sel by (simp add: register_worker.simps [of cx a] require_system_iff select_worker_def)
  have "filter (\<lambda>w. wk_id w = wa_id a) (upd_where (\<lambda>w. wk_id w = wa_id a) f ws)
      = map f (filter (\<lambda>w. wk_id w = wa_id a) ws)" if "\<And>w. wk_id (f w) = wk_id w" for f ws
    using that by (induction ws) simp_all
  from this [of "refreshed_worker a (leases n) (nows n)" "workers d"]
  have "get_worker (wa_id a) d' = Inr (refreshed_worker a (leases n) (nows n) w)"
    using sel d' by (simp add: get_worker_def select_worker_def refreshed_worker_def)
  then show ?thesis using assms(1,3)
    by (simp add: heartbeat_def claim_next_task_def require_system_iff refreshed_worker_def)
qed

theorem old_lease_is_fenced_witness:
  "heartbeat system_cx ''w1'' ''L1'' t0 (snd (register_worker system_cx
       \<lparr>wa_id = ''w1'', wa_type = ''lifecycle'', wa_host = None, wa_capacity = 1, wa_labels = None\<rparr>
       (\<lambda>_. ''L2'') (\<lambda>_. t0) (\<lambda>_ x. x) 0 (fleet0 [])))
   = (Inl (WorkerLeaseMismatchError ''w1''), snd (register_worker system_cx
       \<lparr>wa_id = ''w1'', wa_type = ''lifecycle'', wa_host = None, wa_capacity = 1, wa_labels = None\<rparr>
       (\<lambda>_. ''L2'') (\<lambda>_. t0) (\<lambda>_ x. x) 0 (fleet0 [])))"
  using old_lease_is_fenced [of system_cx
      "\<lparr>wa_id = ''w1'', wa_type = ''lifecycle'', wa_host = None, wa_capacity = 1, wa_labels = None\<rparr>"
      "fleet0 []" worker0 "\<lambda>_. ''L2''" 0 "''L1''" "\<lambda>_. t0" "\<lambda>_ x. x" _ _ t0, OF _ _ _ surjective_pairing]
  by simp

end
