(* ===== verification/Fleet.thy ===== *)
theory Fleet
  imports Scheduler
begin

text \<open>
  Invariants that tie the worker registry to the task table: \<open>in_flight\<close> stays
  between 0 and the capacity (\<open>wf_workers\<close>), every RUNNING task is owned by a
  registered worker that is not DEAD (\<open>attended\<close>), and \<open>in_flight\<close> is the number
  of RUNNING tasks of the worker (\<open>accounted\<close>).  Each operation of the task
  service and the scheduler is shown to keep them; re-registration of a worker that
  still owns RUNNING tasks is the one that breaks \<open>accounted\<close>.
\<close>

definition wf_workers :: "db \<Rightarrow> bool" where
  "wf_workers d \<longleftrightarrow>
     (\<forall>w\<in>set (workers d). 0 \<le> wk_in_flight w \<and> wk_in_flight w \<le> max 0 (wk_capacity w))"

definition attended :: "db \<Rightarrow> bool" where
  "attended d \<longleftrightarrow>
     (\<forall>t\<in>running_set d. \<exists>w\<in>set (workers d). tk_worker t = Some (wk_id w) \<and> wk_status w \<noteq> DEAD)"

definition load :: "string \<Rightarrow> db \<Rightarrow> int" where
  "load wid d = int (length (filter (running_on wid) (tasks d)))"

definition accounted :: "db \<Rightarrow> bool" where
  "accounted d \<longleftrightarrow>
     (\<forall>w\<in>set (workers d). wk_id w \<noteq> [] \<and> wk_in_flight w = load (wk_id w) d)"

section \<open>Bounds of \<open>in_flight\<close>\<close>

lemma wf_workers_upd:
  assumes "wf_workers d"
    and "\<And>w. w \<in> set (workers d) \<Longrightarrow> wk_id w = wid \<Longrightarrow>
        0 \<le> wk_in_flight (f w) \<and> wk_in_flight (f w) \<le> max 0 (wk_capacity (f w))"
  shows "wf_workers (upd_worker wid f d)"
  using assms by (auto simp: wf_workers_def upd_where_in)

lemma wf_workers_same: "workers d' = workers d \<Longrightarrow> wf_workers d' = wf_workers d"
  by (simp add: wf_workers_def)

lemma wf_workers_decrement: "wf_workers d \<Longrightarrow> wf_workers (decrement_in_flight wid d)"
  unfolding decrement_in_flight_def
  by (rule wf_workers_upd) (auto simp: wf_workers_def dest!: bspec)

lemma wf_workers_cancel:
  assumes "wf_workers d" and "cancel_task cx uuid now d = (r, d')"
  shows "wf_workers d'"
proof -
  from cancel_task_cases [OF assms(2)] consider "d' = d"
    | f obj where "d' = upd_task uuid f d" | f wid where "d' = upd_task uuid f (decrement_in_flight wid d)"
    by auto
  then show ?thesis
    using assms(1) wf_workers_decrement [OF assms(1)]
    by cases (simp_all add: wf_workers_same [OF upd_task_sel(2)])
qed

lemma wf_workers_finish:
  assumes "wf_workers d"
    and "complete_task cx wid uuid res now d = (r, d') \<or> fail_task cx wid uuid code msg now d = (r, d')"
  shows "wf_workers d'"
  using assms(2)
proof (cases rule: finish_cases)
  case (finished t f)
  then show ?thesis
    using assms(1) by (simp add: wf_workers_decrement wf_workers_same [OF upd_task_sel(2)])
qed (simp add: assms(1))

lemma worker_by_id:
  "wf_db d \<Longrightarrow> v \<in> set (workers d) \<Longrightarrow> w \<in> set (workers d) \<Longrightarrow> wk_id v = wk_id w \<Longrightarrow> v = w"
  using unique_on_eqI [of uk_worker_id "workers d" v w "wk_id w"]
  by (simp add: wf_db_def uk_worker_id_def)

lemma wf_workers_claim:
  assumes "wf_db d" and "wf_workers d"
    and "claim_next_task cx wid lease ty locked now (\<lambda>x. x) d = (r, d')"
  shows "wf_workers d'"
  using assms(3)
proof (cases rule: claim_cases)
  case (got w t)
  note w = get_worker_Inr [OF got(2)]
  have "wf_workers (upd_worker wid (\<lambda>x. x\<lparr>wk_in_flight := wk_in_flight w + 1\<rparr>)
          (upd_task (tk_uuid t) (set_running wid now) d))"
  proof (rule wf_workers_upd)
    show "wf_workers (upd_task (tk_uuid t) (set_running wid now) d)"
      using assms(2) by (simp add: wf_workers_same [OF upd_task_sel(2)])
    fix v assume "v \<in> set (workers (upd_task (tk_uuid t) (set_running wid now) d))" "wk_id v = wid"
    then have "v = w" using worker_by_id [OF assms(1) _ w(1)] w(2) by simp
    then show "0 \<le> wk_in_flight (v\<lparr>wk_in_flight := wk_in_flight w + 1\<rparr>) \<and>
       wk_in_flight (v\<lparr>wk_in_flight := wk_in_flight w + 1\<rparr>)
         \<le> max 0 (wk_capacity (v\<lparr>wk_in_flight := wk_in_flight w + 1\<rparr>))"
      using assms(2) w(1) got(5) by (auto simp: wf_workers_def dest!: bspec)
  qed
  then show ?thesis using got(11) by simp
qed (use assms in auto)

lemma wf_workers_reap_worker: "wf_workers d \<Longrightarrow> wf_workers (reap_worker wid d)"
  by (auto simp: wf_workers_def upd_where_in)

lemma wf_workers_insert:
  "wf_workers d \<Longrightarrow> insert_worker (new_worker i ty h l c la now) d = Inr d' \<Longrightarrow> wf_workers d'"
  by (auto simp: wf_workers_def insert_worker_def new_worker_def split: if_splits)

lemma wf_workers_refresh:
  "wf_workers d \<Longrightarrow> wf_workers (upd_worker wid (refreshed_worker a lease now) d)"
  by (rule wf_workers_upd) (auto simp: refreshed_worker_def)

lemma wf_workers_register:
  assumes "wf_workers d" and "register_worker cx a leases nows (\<lambda>_ x. x) n d = (r, d')"
  shows "wf_workers d'"
  by (rule register_cases [OF assms(2), of wf_workers])
    (use assms(1) wf_workers_insert wf_workers_refresh in auto)

section \<open>RUNNING tasks have a live owner\<close>

lemma attended_mono:
  assumes "attended d"
    and "\<And>t. t \<in> running_set d' \<Longrightarrow> \<exists>s\<in>running_set d. tk_worker s = tk_worker t"
    and "\<And>w. w \<in> set (workers d) \<Longrightarrow> wk_status w \<noteq> DEAD \<Longrightarrow>
        \<exists>w'\<in>set (workers d'). wk_id w' = wk_id w \<and> wk_status w' \<noteq> DEAD"
  shows "attended d'"
  unfolding attended_def
proof
  fix t assume "t \<in> running_set d'"
  then obtain s where s: "s \<in> running_set d" "tk_worker s = tk_worker t" using assms(2) by blast
  then obtain w where "w \<in> set (workers d)" "tk_worker s = Some (wk_id w)" "wk_status w \<noteq> DEAD"
    using assms(1) by (auto simp: attended_def)
  with assms(3) s(2) show "\<exists>w\<in>set (workers d'). tk_worker t = Some (wk_id w) \<and> wk_status w \<noteq> DEAD"
    by metis
qed

lemma upd_worker_live:
  assumes "w \<in> set (workers d)" and "wk_status w \<noteq> DEAD"
    and "\<And>w. wk_id (f w) = wk_id w" and "\<And>w. wk_status w \<noteq> DEAD \<Longrightarrow> wk_status (f w) \<noteq> DEAD"
  shows "\<exists>w'\<in>set (workers (upd_worker wid f d)). wk_id w' = wk_id w \<and> wk_status w' \<noteq> DEAD"
  using assms by (intro bexI [of _ "if wk_id w = wid then f w else w"]) (auto simp: upd_where_in)

lemma running_set_upd_worker [simp]: "running_set (upd_worker wid f d) = running_set d"
  by (simp add: running_set_def)

lemma attended_upd_worker:
  assumes "attended d"
    and "\<And>w. wk_id (f w) = wk_id w" and "\<And>w. wk_status w \<noteq> DEAD \<Longrightarrow> wk_status (f w) \<noteq> DEAD"
  shows "attended (upd_worker wid f d)"
  by (rule attended_mono [OF assms(1)]) (use upd_worker_live assms(2,3) in auto)

lemma attended_decrement: "attended d \<Longrightarrow> attended (decrement_in_flight wid d)"
  unfolding decrement_in_flight_def by (rule attended_upd_worker) simp_all

lemma running_set_stop:
  "(\<And>t. tk_status (f t) \<noteq> RUNNING) \<Longrightarrow> running_set (upd_task uuid f d) \<subseteq> running_set d"
  by (auto simp: running_set_def upd_where_in split: if_splits)

lemma attended_stop:
  assumes "attended d" and "\<And>t. tk_status (f t) \<noteq> RUNNING"
  shows "attended (upd_task uuid f d)"
  by (rule attended_mono [OF assms(1)]) (use running_set_stop [of f uuid d, OF assms(2)] in auto)

lemma attended_cancel:
  assumes "attended d" and "cancel_task cx uuid now d = (r, d')"
  shows "attended d'"
proof -
  from cancel_task_cases [OF assms(2)] obtain d1 where
    "d' = d \<or> (d1 = d \<or> (\<exists>w. d1 = decrement_in_flight w d)) \<and> d' = upd_task uuid (set_cancelled now) d1"
    by blast
  then show ?thesis
    using assms(1) attended_stop [of _ "set_cancelled now" uuid] attended_decrement [OF assms(1)]
    by (auto simp: set_cancelled_def)
qed

lemma attended_retry:
  assumes "attended d" and "retry_task cx uuid d = (r, d')"
  shows "attended d'"
  using retry_task_cases [OF assms(2)] assms(1) attended_stop [OF assms(1), of set_retried uuid]
  by (auto simp: set_retried_def)

lemma attended_finish:
  assumes "attended d"
    and "complete_task cx wid uuid res now d = (r, d') \<or> fail_task cx wid uuid code msg now d = (r, d')"
  shows "attended d'"
  using assms(2)
proof (cases rule: finish_cases)
  case (finished t f)
  then show ?thesis
    using attended_decrement [OF attended_stop [OF assms(1), of f uuid], of wid]
    by (auto simp: set_succeeded_def set_failed_def)
qed (simp add: assms(1))

lemma attended_claim:
  assumes "attended d" and "claim_next_task cx wid lease ty locked now (\<lambda>x. x) d = (r, d')"
  shows "attended d'"
  using assms(2)
proof (cases rule: claim_cases)
  case (got w t)
  note w = get_worker_Inr [OF got(2)]
  have "attended (upd_task (tk_uuid t) (set_running wid now) d)"
    unfolding attended_def
  proof
    fix s assume "s \<in> running_set (upd_task (tk_uuid t) (set_running wid now) d)"
    then have "s \<in> running_set d \<or> tk_worker s = Some wid"
      by (auto simp: running_set_def upd_where_in set_running_def)
    then show "\<exists>v\<in>set (workers (upd_task (tk_uuid t) (set_running wid now) d)).
        tk_worker s = Some (wk_id v) \<and> wk_status v \<noteq> DEAD"
      using assms(1) w got(4) by (auto simp: attended_def)
  qed
  then show ?thesis unfolding got(11) by (rule attended_upd_worker) simp_all
qed (use assms in auto)

lemma attended_reap_worker:
  assumes "attended d"
  shows "attended (reap_worker wid d)"
  unfolding attended_def running_set_reap_worker
proof
  fix t assume "t \<in> {t \<in> running_set d. tk_worker t \<noteq> Some wid}"
  then obtain w where w: "w \<in> set (workers d)" "tk_worker t = Some (wk_id w)" "wk_status w \<noteq> DEAD"
      "wk_id w \<noteq> wid"
    using assms by (auto simp: attended_def)
  then have "w \<in> set (workers (reap_worker wid d))" by (auto simp: upd_where_in)
  then show "\<exists>w\<in>set (workers (reap_worker wid d)). tk_worker t = Some (wk_id w) \<and> wk_status w \<noteq> DEAD"
    using w by blast
qed

lemma attended_register:
  assumes "attended d" and "register_worker cx a leases nows (\<lambda>_ x. x) n d = (r, d')"
  shows "attended d'"
proof (rule register_cases [OF assms(2), of attended])
  fix k d0
  assume d0: "attended d0"
  show "attended (upd_worker (wa_id a) (refreshed_worker a (leases k) (nows k)) d0)"
    by (rule attended_upd_worker [OF d0]) (simp_all add: refreshed_worker_def)
  fix d2
  assume ins: "insert_worker (new_worker (wa_id a) (wa_type a) (wa_host a) (leases k) (wa_capacity a)
      (wa_labels a) (nows k)) d0 = Inr d2"
  then have "running_set d2 = running_set d0" "set (workers d0) \<subseteq> set (workers d2)"
    by (auto simp: insert_worker_def running_set_def split: if_splits)
  then show "attended d2" using d0 by (fastforce simp: attended_def)
qed (use assms(1) in simp_all)

lemma attended_heartbeat:
  assumes "attended d" and "heartbeat cx wid lease now d = (r, d')"
  shows "attended d'"
  using heartbeat_cases [OF assms(2)] assms(1) by (auto intro!: attended_upd_worker)

lemma attended_drain:
  assumes "attended d" and "drain_worker cx wid d = (r, d')"
  shows "attended d'"
  using drain_cases [OF assms(2)] assms(1) by (auto intro!: attended_upd_worker)

section \<open>\<open>in_flight\<close> counts the RUNNING tasks\<close>

lemma load_upd:
  assumes "wf_db d" and "t \<in> set (tasks d)" and "tk_uuid t = uuid"
  shows "load wid (upd_task uuid f d)
    = load wid d + (if running_on wid (f t) then 1 else 0) - (if running_on wid t then 1 else 0)"
  using count_upd_where [OF one_task_filter [OF assms]] by (simp add: load_def)

lemma load_upd_worker [simp]:
  "load w (upd_worker u f d) = load w d" "load w (decrement_in_flight u d) = load w d"
  by (simp_all add: load_def)

lemma load_nonneg: "t \<in> set (tasks d) \<Longrightarrow> running_on wid t \<Longrightarrow> 1 \<le> load wid d"
proof -
  assume t: "t \<in> set (tasks d)" "running_on wid t"
  then have "filter (running_on wid) (tasks d) \<noteq> []" by (auto simp: filter_empty_conv)
  then show ?thesis by (cases "filter (running_on wid) (tasks d)") (simp_all add: load_def)
qed

text \<open>Every transition that changes loads and counters by the same amounts keeps them equal.\<close>

lemma accounted_upd:
  assumes "accounted d" and "workers d' = upd_where (\<lambda>w. wk_id w = wid) f (workers d)"
    and "\<And>w. w \<noteq> wid \<Longrightarrow> w \<noteq> [] \<Longrightarrow> load w d' = load w d"
    and "\<And>w. w \<in> set (workers d) \<Longrightarrow> wk_id w = wid \<Longrightarrow>
        wk_id (f w) = wid \<and> wk_in_flight (f w) = load wid d'"
  shows "accounted d'"
  unfolding accounted_def
proof
  fix v assume "v \<in> set (workers d')"
  then obtain w where w: "w \<in> set (workers d)" "v = (if wk_id w = wid then f w else w)"
    using assms(2) by (auto simp: upd_where_in)
  then have old: "wk_id w \<noteq> [] \<and> wk_in_flight w = load (wk_id w) d"
    using assms(1) by (simp add: accounted_def)
  show "wk_id v \<noteq> [] \<and> wk_in_flight v = load (wk_id v) d'"
  proof (cases "wk_id w = wid")
    case True
    then show ?thesis using w old assms(4) by auto
  next
    case False
    then show ?thesis using w old assms(3) by simp
  qed
qed

lemma accounted_finish:
  assumes "wf_db d" and "accounted d"
    and "complete_task cx wid uuid res now d = (r, d') \<or> fail_task cx wid uuid code msg now d = (r, d')"
  shows "accounted d'"
  using assms(3)
proof (cases rule: finish_cases)
  case (finished t f)
  have run: "running_on w t \<longleftrightarrow> w = wid" for w
    using finished(4,5) by (auto simp: running_on_def)
  have stop: "\<not> running_on w (f t)" for w
    using finished(6) by (auto simp: running_on_def set_succeeded_def set_failed_def)
  have loads: "load w d' = load w d - (if w = wid then 1 else 0)" for w
    using load_upd [OF assms(1) finished(2,3), of w f] run stop finished(8) by simp
  show ?thesis
  proof (rule accounted_upd [OF assms(2), of _ wid])
    show "workers d' = upd_where (\<lambda>w. wk_id w = wid)
        (\<lambda>w. w\<lparr>wk_in_flight := (if wk_in_flight w > 0 then wk_in_flight w - 1 else 0)\<rparr>) (workers d)"
      using finished(8) by (simp add: decrement_in_flight_def)
    show "load w d' = load w d" if "w \<noteq> wid" for w using loads that by simp
    show "wk_id (w\<lparr>wk_in_flight := (if wk_in_flight w > 0 then wk_in_flight w - 1 else 0)\<rparr>) = wid \<and>
        wk_in_flight (w\<lparr>wk_in_flight := (if wk_in_flight w > 0 then wk_in_flight w - 1 else 0)\<rparr>) = load wid d'"
      if "w \<in> set (workers d)" "wk_id w = wid" for w
      using that assms(2) loads load_nonneg [OF finished(2), of wid] run
      by (auto simp: accounted_def dest!: bspec)
  qed
qed (simp add: assms(2))

lemma accounted_claim:
  assumes "wf_db d" and "accounted d"
    and "claim_next_task cx wid lease ty locked now (\<lambda>x. x) d = (r, d')"
  shows "accounted d'"
  using assms(3)
proof (cases rule: claim_cases)
  case (got w t)
  note w = get_worker_Inr [OF got(2)]
  have loads: "load v d' = load v d + (if v = wid then 1 else 0)" for v
    using load_upd [OF assms(1) got(6) refl, of v "set_running wid now"] got(7,11)
    by (auto simp: running_on_def set_running_def dispatchable_def)
  show ?thesis
  proof (rule accounted_upd [OF assms(2), of _ wid])
    show "workers d' = upd_where (\<lambda>w. wk_id w = wid) (\<lambda>x. x\<lparr>wk_in_flight := wk_in_flight w + 1\<rparr>)
        (workers d)"
      using got(11) by simp
    show "load v d' = load v d" if "v \<noteq> wid" for v using loads that by simp
    show "wk_id (v\<lparr>wk_in_flight := wk_in_flight w + 1\<rparr>) = wid \<and>
        wk_in_flight (v\<lparr>wk_in_flight := wk_in_flight w + 1\<rparr>) = load wid d'"
      if "v \<in> set (workers d)" "wk_id v = wid" for v
      using that assms(2) loads w by (auto simp: accounted_def dest!: bspec)
  qed
qed (use assms in auto)

lemma load_reap_worker: "load v (reap_worker wid d) = (if v = wid then 0 else load v d)"
proof -
  have runs: "running_on u (set_requeued t) = False" "running_on wid t \<Longrightarrow> running_on u t = (u = wid)" for t u
    by (auto simp: running_on_def set_requeued_def)
  have "filter (running_on v) (upd_where (running_on wid) set_requeued ts)
      = (if v = wid then [] else filter (running_on v) ts)" for ts
    by (induction ts) (auto simp: runs)
  then show ?thesis by (simp add: load_def)
qed

lemma accounted_reap_worker: "accounted d \<Longrightarrow> accounted (reap_worker wid d)"
  by (rule accounted_upd [where wid = wid]) (auto simp: load_reap_worker)

text \<open>The capacity really bounds the concurrency of a worker.\<close>

lemma accounted_capacity:
  assumes "wf_workers d" and "accounted d" and "w \<in> set (workers d)"
  shows "load (wk_id w) d \<le> max 0 (wk_capacity w)"
  using assms by (auto simp: wf_workers_def accounted_def dest!: bspec)

lemma accounted_same: "workers d' = workers d \<Longrightarrow> (\<And>w. load w d' = load w d) \<Longrightarrow> accounted d' = accounted d"
  by (simp add: accounted_def)

lemma load_upd_task_idle:
  assumes "wf_db d" and "t \<in> set (tasks d)" and "tk_uuid t = uuid" and "tk_status t \<noteq> RUNNING"
    and "tk_status (f t) \<noteq> RUNNING"
  shows "load w (upd_task uuid f d) = load w d"
  using load_upd [OF assms(1-3), of w f] assms(4,5) by (simp add: running_on_def)

lemma accounted_retry:
  assumes "wf_db d" and "accounted d" and "retry_task cx uuid d = (r, d')"
  shows "accounted d'"
proof -
  from retry_task_cases [OF assms(3)] consider "d' = d"
    | t where "get_task cx uuid d = Inr t" "tk_status t = FAILED" "d' = upd_task uuid set_retried d"
    by blast
  then show ?thesis
  proof cases
    case (2 t)
    have "load w d' = load w d" for w
      unfolding 2(3) by (rule load_upd_task_idle [OF assms(1) get_task_Inr(1,2) [OF 2(1)]])
        (simp_all add: 2(2) set_retried_def)
    then show ?thesis using assms(2) 2(3) by (simp add: accounted_def)
  qed (use assms(2) in simp)
qed

lemma accounted_release:
  assumes "wf_db d" and "accounted d" and "t \<in> set (tasks d)" and "tk_uuid t = uuid"
    and "running_on wid t" and "\<And>s. tk_status (f s) \<noteq> RUNNING"
  shows "accounted (decrement_in_flight wid (upd_task uuid f d))"
proof -
  let ?d = "decrement_in_flight wid (upd_task uuid f d)"
  have run: "running_on w t \<longleftrightarrow> w = wid" for w using assms(5) by (auto simp: running_on_def)
  have loads: "load w ?d = load w d - (if w = wid then 1 else 0)" for w
    using load_upd [OF assms(1,3,4), of w f] run assms(6) by (simp add: running_on_def)
  show ?thesis
  proof (rule accounted_upd [OF assms(2), of _ wid])
    show "workers ?d = upd_where (\<lambda>w. wk_id w = wid)
        (\<lambda>w. w\<lparr>wk_in_flight := (if wk_in_flight w > 0 then wk_in_flight w - 1 else 0)\<rparr>) (workers d)"
      by (simp add: decrement_in_flight_def)
    show "load w ?d = load w d" if "w \<noteq> wid" for w using loads that by simp
    show "wk_id (w\<lparr>wk_in_flight := (if wk_in_flight w > 0 then wk_in_flight w - 1 else 0)\<rparr>) = wid \<and>
        wk_in_flight (w\<lparr>wk_in_flight := (if wk_in_flight w > 0 then wk_in_flight w - 1 else 0)\<rparr>) = load wid ?d"
      if "w \<in> set (workers d)" "wk_id w = wid" for w
      using that assms(2) loads load_nonneg [OF assms(3,5)]
      by (auto simp: accounted_def dest!: bspec)
  qed
qed

lemma decrement_commute: "upd_task u f (decrement_in_flight w d) = decrement_in_flight w (upd_task u f d)"
  by (simp add: upd_task_def decrement_in_flight_def upd_worker_def)

lemma accounted_cancel:
  assumes "wf_db d" and "accounted d" and "wf_tasks d" and "cancel_task cx uuid now d = (r, d')"
  shows "accounted d'"
proof (cases "get_task cx uuid d")
  case (Inl e)
  then show ?thesis using assms(2,4) by (simp add: cancel_task_def)
next
  case (Inr t)
  note t = get_task_Inr(1,2) [OF Inr]
  have stop: "tk_status (set_cancelled now s) \<noteq> RUNNING" for s by (simp add: set_cancelled_def)
  have d': "d' = snd (cancel_task cx uuid now d)" using assms(4) by simp
  show ?thesis
  proof (cases "tk_status t = RUNNING")
    case run: True
    have "wf_task t" using assms(3) t(1) by (simp add: wf_tasks_def)
    with run obtain wid where wid: "tk_worker t = Some wid"
      by (auto simp: wf_task_def)
    show ?thesis
    proof (cases "wid = []")
      case False
      then have "d' = decrement_in_flight wid (upd_task uuid (set_cancelled now) d)"
        unfolding d' using Inr run wid
        by (simp add: cancel_task_def CANCELLABLE_STATES_def truthy_def decrement_commute)
      then show ?thesis
        using accounted_release [OF assms(1,2) t, of wid, OF _ stop] run wid by (simp add: running_on_def)
    next
      case True
      then have "d' = upd_task uuid (set_cancelled now) d"
        unfolding d' using Inr run wid
        by (simp add: cancel_task_def CANCELLABLE_STATES_def truthy_def)
      moreover have "load w (upd_task uuid (set_cancelled now) d) = load w d" if "w \<noteq> []" for w
        using load_upd [OF assms(1) t, of w "set_cancelled now"] that wid True stop
        by (simp add: running_on_def)
      ultimately show ?thesis using assms(2) by (simp add: accounted_def)
    qed
  next
    case False
    have "load w (upd_task uuid (set_cancelled now) d) = load w d" for w
      by (rule load_upd_task_idle [OF assms(1) t False stop])
    moreover have "d' = d \<or> d' = upd_task uuid (set_cancelled now) d"
      unfolding d' using Inr False by (simp add: cancel_task_def)
    ultimately show ?thesis using assms(2) by (auto simp: accounted_def)
  qed
qed

lemma accounted_upd_worker:
  assumes "accounted d" and "\<And>w. wk_id (f w) = wk_id w \<and> wk_in_flight (f w) = wk_in_flight w"
  shows "accounted (upd_worker wid f d)"
  by (rule accounted_upd [OF assms(1), of _ wid f]) (use assms in \<open>simp_all add: accounted_def\<close>)

lemma accounted_fresh_tasks:
  assumes "accounted d" and "workers d' = workers d" and "tasks d' = tasks d @ ts" and "\<forall>t\<in>set ts. fresh_task t"
  shows "accounted d'"
proof -
  have "filter (running_on w) ts = []" for w
    using assms(4) by (auto simp: filter_empty_conv running_on_def fresh_task_def)
  then have "load w d' = load w d" for w by (simp add: load_def assms(3))
  then show ?thesis using assms(1,2) by (simp add: accounted_def)
qed

section \<open>Properties\<close>

text \<open>Re-registration overcommits a worker.  \<open>register_worker\<close> clears \<open>in_flight\<close> but leaves
  the tasks of the old lease RUNNING, so a worker of capacity 1 that registers again claims a
  second task while the first is still RUNNING under its name: two RUNNING tasks, capacity 1.\<close>

definition reregistered :: db where
  "reregistered =
     snd (register_worker system_cx
       \<lparr>wa_id = ''w1'', wa_type = ''lifecycle'', wa_host = None, wa_capacity = 1, wa_labels = None\<rparr>
       (\<lambda>_. ''L2'') (\<lambda>_. t0) (\<lambda>_ x. x) 0
       (snd (claim_next_task system_cx ''w1'' ''L1'' None (\<lambda>_. False) t0 (\<lambda>x. x) (fleet0 [task0, task1]))))"

theorem reregistration_overcommits:
  "load ''w1'' (snd (claim_next_task system_cx ''w1'' ''L2'' None (\<lambda>_. False) t0 (\<lambda>x. x) reregistered)) = 2
 \<and> map wk_capacity (workers (snd (claim_next_task system_cx ''w1'' ''L2'' None (\<lambda>_. False) t0 (\<lambda>x. x)
      reregistered))) = [1]"
  by (simp add: reregistered_def register_worker.simps claim_next_task_def require_system_iff rls_task
      get_worker_def select_worker_def dispatchable_def opt_eq_def urgency_def task0_def task1_def
      new_task_def set_running_def refreshed_worker_def load_def running_on_def fleet0_def Let_def)

end
