(* ===== verification/Worker.thy ===== *)
theory Worker
  imports Fleet
begin

text \<open>
  The worker: one claim/execute/finalise cycle
  (\<open>src/lcp/workers/lifecycle_worker_service.py\<close>) and the daemon that repeats
  it (\<open>src/lcp/workers/lifecycle_worker.py\<close>).  An executor takes the task, its
  dataset and the database.  It returns the class name and text of the exception it
  raised, or a payload with the writes its session has not committed yet, and the
  database as other transactions left it meanwhile.  The session commits with
  \<open>complete_task\<close>; an exception of the executor or of \<open>complete_task\<close> rolls the
  uncommitted writes back.
\<close>

type_synonym exec_result = "(string \<times> string) + (params \<times> (db \<Rightarrow> db))"

type_synonym executor = "task_row \<Rightarrow> dataset_row \<Rightarrow> db \<Rightarrow> exec_result \<times> db"

type_synonym registry = "task_type \<Rightarrow> executor option"

record worker_config =
  wc_worker :: string
  wc_lease :: string
  wc_task_type :: "string option"

record tick_outcome =
  to_claimed :: bool
  to_task :: "string option"
  to_type :: "task_type option"
  to_final :: "task_status option"
  to_error :: "string option"

definition no_claim :: tick_outcome where
  "no_claim = \<lparr>to_claimed = False, to_task = None, to_type = None, to_final = None,
     to_error = None\<rparr>"

definition failed_tick :: "task_row \<Rightarrow> string \<Rightarrow> tick_outcome" where
  "failed_tick t err = \<lparr>to_claimed = True, to_task = Some (tk_uuid t), to_type = Some (tk_type t),
     to_final = Some FAILED, to_error = Some err\<rparr>"

definition succeeded_tick :: "task_row \<Rightarrow> tick_outcome" where
  "succeeded_tick t = \<lparr>to_claimed = True, to_task = Some (tk_uuid t), to_type = Some (tk_type t),
     to_final = Some SUCCEEDED, to_error = None\<rparr>"

definition select_dataset :: "rls_ctx \<Rightarrow> string \<Rightarrow> db \<Rightarrow> dataset_row option res" where
  "select_dataset cx uuid d =
     (case rls_rows cx ''dataset'' ds_tenant (filter (\<lambda>r. ds_uuid r = uuid) (datasets d)) of
        Inl e \<Rightarrow> Inl e | Inr rs \<Rightarrow> one_or_none rs)"

text \<open>\<open>fail_task\<close> followed by the FAILED outcome; its own exception propagates.\<close>

definition fail_and_report ::
  "rls_ctx \<Rightarrow> string \<Rightarrow> task_row \<Rightarrow> string \<Rightarrow> string \<Rightarrow> datetime \<Rightarrow> db \<Rightarrow> tick_outcome res \<times> db" where
  "fail_and_report cx wid task code msg now d =
     (case fail_task cx wid (tk_uuid task) code msg now d of
        (Inl e, d') \<Rightarrow> (Inl e, d')
      | (Inr _, d') \<Rightarrow> (Inr (failed_tick task code), d'))"

definition dispatch_and_finalize ::
  "rls_ctx \<Rightarrow> string \<Rightarrow> task_row \<Rightarrow> registry \<Rightarrow> datetime \<Rightarrow> db \<Rightarrow> tick_outcome res \<times> db" where
  "dispatch_and_finalize cx wid task executors now d =
     (case select_dataset cx (tk_dataset task) d of
        Inl e \<Rightarrow> (Inl e, d)
      | Inr None \<Rightarrow> fail_and_report cx wid task ''DatasetMissing''
          (''dataset '' @ tk_dataset task @ '' no longer exists; task is orphaned'') now d
      | Inr (Some dataset) \<Rightarrow>
          (case executors (tk_type task) of
             None \<Rightarrow> fail_and_report cx wid task ''UnknownTaskType''
               (''no executor registered for '' @ [CHR 0x27] @ task_type_str (tk_type task) @ [CHR 0x27]) now d
           | Some execute \<Rightarrow>
               (case execute task dataset d of
                  (Inl (name, msg), d1) \<Rightarrow>
                    fail_and_report cx wid task name (take 2048 msg) now d1
                | (Inr (payload, uncommitted), d1) \<Rightarrow>
                    (case complete_task cx wid (tk_uuid task) (Some payload) now (uncommitted d1) of
                       (Inl e, _) \<Rightarrow> (Inl e, d1)
                     | (Inr _, d2) \<Rightarrow> (Inr (succeeded_tick task), d2)))))"

text \<open>What the environment contributes to one iteration.\<close>

record tick_env =
  te_locked :: "string \<Rightarrow> bool"
  te_claim_at :: datetime
  te_other :: "db \<Rightarrow> db"
  te_finish_at :: datetime

definition run_iteration ::
  "rls_ctx \<Rightarrow> worker_config \<Rightarrow> registry \<Rightarrow> tick_env \<Rightarrow> db \<Rightarrow> tick_outcome res \<times> db" where
  "run_iteration cx config executors env d =
     (case claim_next_task cx (wc_worker config) (wc_lease config) (wc_task_type config)
             (te_locked env) (te_claim_at env) (te_other env) d of
        (Inl e, d1) \<Rightarrow> (Inl e, d1)
      | (Inr None, d1) \<Rightarrow> (Inr no_claim, d1)
      | (Inr (Some claimed), d1) \<Rightarrow>
          dispatch_and_finalize cx (wc_worker config) claimed executors (te_finish_at env) d1)"

section \<open>The daemon\<close>

text \<open>
  The drain loop, over a finite prefix of the environment: before each iteration
  \<open>shutdown\<close> is tested, what others commit while it sleeps is the first component of
  the input.  It stops at shutdown, at \<open>max_iterations\<close> (0 is for ever), when an
  iteration raises, or at the end of the prefix.
\<close>

datatype exit_reason = Shutdown | MaxIterations | Crashed lcp_error | StillRunning

fun drain_loop ::
  "rls_ctx \<Rightarrow> worker_config \<Rightarrow> registry \<Rightarrow> int \<Rightarrow> (bool \<times> (db \<Rightarrow> db) \<times> tick_env) list \<Rightarrow> int \<Rightarrow> db
     \<Rightarrow> exit_reason \<times> tick_outcome list \<times> db" where
  "drain_loop cx config executors max_iterations [] iteration d = (StillRunning, [], d)"
| "drain_loop cx config executors max_iterations ((shutdown, idle, env) # rest) iteration d =
     (if shutdown then (Shutdown, [], d)
      else case run_iteration cx config executors env (idle d) of
             (Inl e, d1) \<Rightarrow> (Crashed e, [], d1)
           | (Inr outcome, d1) \<Rightarrow>
               (if max_iterations \<noteq> 0 \<and> iteration + 1 \<ge> max_iterations
                then (MaxIterations, [outcome], d1)
                else let (why, outs, d2) =
                           drain_loop cx config executors max_iterations rest (iteration + 1) d1
                     in (why, outcome # outs, d2)))"

text \<open>One beat of \<open>_heartbeat_loop\<close>: every exception is logged and swallowed.\<close>

definition heartbeat_tick :: "rls_ctx \<Rightarrow> string \<Rightarrow> string \<Rightarrow> datetime \<Rightarrow> db \<Rightarrow> db" where
  "heartbeat_tick cx wid lease now d = snd (heartbeat cx wid lease now d)"

text \<open>How long the loop sleeps after an iteration, in the units of the command line.\<close>

definition sleep_seconds :: "'a \<Rightarrow> 'a \<Rightarrow> tick_outcome \<Rightarrow> 'a" where
  "sleep_seconds busy idle outcome = (if to_claimed outcome then busy else idle)"

section \<open>Lemmas\<close>

text \<open>What the worker asks of an executor to keep the database well formed.\<close>

definition session_view :: "exec_result \<Rightarrow> db \<Rightarrow> db" where
  "session_view r d = (case r of Inl _ \<Rightarrow> d | Inr (payload, uncommitted) \<Rightarrow> uncommitted d)"

definition executor_ok :: "executor \<Rightarrow> bool" where
  "executor_ok f \<longleftrightarrow> (\<forall>t ds d. wf_db d \<and> wf_tasks d \<longrightarrow>
     (\<forall>x \<in> {snd (f t ds d), session_view (fst (f t ds d)) (snd (f t ds d))}.
        wf_db x \<and> wf_tasks x \<and> tasks_evolve\<^sup>*\<^sup>* d x))"

lemma fail_and_report_db:
  "snd (fail_and_report cx wid t code msg now d) = snd (fail_task cx wid (tk_uuid t) code msg now d)"
  by (simp add: fail_and_report_def split: prod.splits sum.splits)

lemma fail_task_wf:
  assumes "wf_db d" and "wf_tasks d" and "d' = snd (fail_task cx wid u code msg now d)"
  shows "wf_db d' \<and> wf_tasks d' \<and> tasks_evolve d d'"
  using finish_wf [OF assms(1,2), of cx wid u None now "fst (fail_task cx wid u code msg now d)" d' code msg]
    assms(3) by simp

lemma complete_task_wf:
  assumes "wf_db d" and "wf_tasks d" and "d' = snd (complete_task cx wid u res now d)"
  shows "wf_db d' \<and> wf_tasks d' \<and> tasks_evolve d d'"
  using finish_wf [OF assms(1,2), of cx wid u res now "fst (complete_task cx wid u res now d)" d' "[]" "[]"]
    assms(3) by simp

lemma dispatch_wf:
  assumes "wf_db d" and "wf_tasks d" and "\<And>ty f. executors ty = Some f \<Longrightarrow> executor_ok f"
    and "d' = snd (dispatch_and_finalize cx wid task executors now d)"
  shows "wf_db d' \<and> wf_tasks d' \<and> tasks_evolve\<^sup>*\<^sup>* d d'"
proof -
  have fail: "wf_db x \<and> wf_tasks x \<and> tasks_evolve\<^sup>*\<^sup>* d x \<Longrightarrow>
      y = snd (fail_and_report cx wid task code msg now x) \<Longrightarrow>
      wf_db y \<and> wf_tasks y \<and> tasks_evolve\<^sup>*\<^sup>* d y" for x y code msg
    using fail_task_wf [of x y cx wid "tk_uuid task" code msg now]
    by (auto simp: fail_and_report_db intro: rtranclp.rtrancl_into_rtrancl)
  have complete: "wf_db x \<and> wf_tasks x \<and> tasks_evolve\<^sup>*\<^sup>* d x \<Longrightarrow>
      y = snd (complete_task cx wid (tk_uuid task) res now x) \<Longrightarrow>
      wf_db y \<and> wf_tasks y \<and> tasks_evolve\<^sup>*\<^sup>* d y" for x y res
    using complete_task_wf [of x y cx wid "tk_uuid task" res now]
    by (auto intro: rtranclp.rtrancl_into_rtrancl)
  have base: "wf_db d \<and> wf_tasks d \<and> tasks_evolve\<^sup>*\<^sup>* d d" using assms(1,2) by simp
  have exec: "wf_db x \<and> wf_tasks x \<and> tasks_evolve\<^sup>*\<^sup>* d x"
    if "executors (tk_type task) = Some f"
      "x = snd (f task ds d) \<or> x = session_view (fst (f task ds d)) (snd (f task ds d))" for f ds x
    using assms(3) [OF that(1)] that(2) base by (auto simp: executor_ok_def)
  show ?thesis
  proof (cases "select_dataset cx (tk_dataset task) d")
    case (Inl e)
    then show ?thesis using base assms(4) by (simp add: dispatch_and_finalize_def)
  next
    case (Inr ds)
    show ?thesis
    proof (cases "ds = None \<or> executors (tk_type task) = None")
      case True
      then show ?thesis using Inr assms(4) fail [OF base]
        by (auto simp: dispatch_and_finalize_def split: option.splits)
    next
      case False
      then obtain dset f where df: "ds = Some dset" "executors (tk_type task) = Some f" by auto
      obtain r d1 where run: "f task dset d = (r, d1)" by (cases "f task dset d")
      have d1: "wf_db d1 \<and> wf_tasks d1 \<and> tasks_evolve\<^sup>*\<^sup>* d d1" using exec [OF df(2), of d1 dset] run by simp
      have dv: "wf_db (session_view r d1) \<and> wf_tasks (session_view r d1) \<and> tasks_evolve\<^sup>*\<^sup>* d (session_view r d1)"
        using exec [OF df(2), of "session_view r d1" dset] run by simp
      show ?thesis
      proof (cases r)
        case (Inl e)
        then show ?thesis using Inr df run assms(4) fail [OF d1]
          by (simp add: dispatch_and_finalize_def split: prod.splits)
      next
        case r: (Inr pu)
        obtain payload uncommitted where pu: "pu = (payload, uncommitted)" by (cases pu)
        obtain cr cd where c: "complete_task cx wid (tk_uuid task) (Some payload) now (uncommitted d1) = (cr, cd)"
          by (cases "complete_task cx wid (tk_uuid task) (Some payload) now (uncommitted d1)")
        then have "d' = cd \<or> d' = d1" using Inr df run assms(4) r pu
          by (cases cr) (simp_all add: dispatch_and_finalize_def)
        then show ?thesis using complete [of "uncommitted d1" cd "Some payload"] c d1 dv r pu
          by (auto simp: session_view_def)
      qed
    qed
  qed
qed

text \<open>A reported outcome is what the task row says.\<close>

definition finalised :: "string \<Rightarrow> tick_outcome \<Rightarrow> db \<Rightarrow> bool" where
  "finalised wid out d \<longleftrightarrow>
     (\<exists>t\<in>set (tasks d). Some (tk_uuid t) = to_task out \<and> Some (tk_status t) = to_final out
        \<and> tk_worker t = Some wid)"

lemma finish_row:
  assumes "complete_task cx wid uuid res now d = (Inr r, d') \<or> fail_task cx wid uuid code msg now d = (Inr r, d')"
  shows "r \<in> set (tasks d')" and "tk_uuid r = uuid" and "tk_worker r = Some wid"
proof -
  have "r \<in> set (tasks d') \<and> tk_uuid r = uuid \<and> tk_worker r = Some wid"
    using assms
  proof (cases rule: finish_cases)
    case (finished t f)
    then show ?thesis
      by (auto simp: upd_where_in set_succeeded_def set_failed_def intro!: bexI [of _ t])
  qed auto
  then show "r \<in> set (tasks d')" "tk_uuid r = uuid" "tk_worker r = Some wid" by auto
qed

lemma complete_status: "complete_task cx wid uuid res now d = (Inr r, d') \<Longrightarrow> tk_status r = SUCCEEDED"
  by (auto simp: complete_task_def set_succeeded_def split: sum.splits if_splits)

lemma fail_status: "fail_task cx wid uuid code msg now d = (Inr r, d') \<Longrightarrow> tk_status r = FAILED"
  by (auto simp: fail_task_def set_failed_def split: sum.splits if_splits)

lemma fail_and_report_finalised:
  assumes "fail_and_report cx wid t code msg now d = (Inr out, d')"
  shows "out = failed_tick t code" and "finalised wid out d'"
proof -
  obtain r where r: "fail_task cx wid (tk_uuid t) code msg now d = (Inr r, d')" "out = failed_tick t code"
    using assms by (auto simp: fail_and_report_def split: prod.splits sum.splits)
  then show "out = failed_tick t code" by simp
  show "finalised wid out d'"
    using finish_row [OF disjI2, OF r(1)] fail_status [OF r(1)] r(2)
    by (auto simp: finalised_def failed_tick_def)
qed

lemma dispatch_finalised:
  assumes "dispatch_and_finalize cx wid task executors now d = (Inr out, d')"
  shows "finalised wid out d'" and "to_claimed out" and "to_task out = Some (tk_uuid task)"
    and "to_final out = Some SUCCEEDED \<or> to_final out = Some FAILED"
proof -
  consider code msg x where "fail_and_report cx wid task code msg now x = (Inr out, d')"
    | p x r where "complete_task cx wid (tk_uuid task) (Some p) now x = (Inr r, d')" "out = succeeded_tick task"
    using assms
    by (auto simp: dispatch_and_finalize_def split: sum.splits option.splits prod.splits)
  then have "finalised wid out d' \<and> to_claimed out \<and> to_task out = Some (tk_uuid task)
      \<and> (to_final out = Some SUCCEEDED \<or> to_final out = Some FAILED)"
  proof cases
    case 1
    from fail_and_report_finalised [OF 1] show ?thesis by (simp add: failed_tick_def)
  next
    case 2
    from finish_row [OF disjI1, OF 2(1)] complete_status [OF 2(1)] 2(2)
    show ?thesis by (auto simp: finalised_def succeeded_tick_def)
  qed
  then show "finalised wid out d'" "to_claimed out" "to_task out = Some (tk_uuid task)"
    "to_final out = Some SUCCEEDED \<or> to_final out = Some FAILED" by auto
qed

section \<open>Properties\<close>


definition config0 :: worker_config where
  "config0 = \<lparr>wc_worker = ''w1'', wc_lease = ''L1'', wc_task_type = None\<rparr>"

definition env0 :: tick_env where
  "env0 = \<lparr>te_locked = \<lambda>_. False, te_claim_at = t0, te_other = (\<lambda>x. x), te_finish_at = t0\<rparr>"

definition ok_registry :: registry where
  "ok_registry ty = Some (\<lambda>t ds d. (Inr ([(''rows'', JInt 1)], \<lambda>x. x), d))"

text \<open>An executor during which the tenant cancels the task.\<close>

definition cancelled_registry :: registry where
  "cancelled_registry ty = Some (\<lambda>t ds d. (Inr ([], \<lambda>x. x), snd (cancel_task acme_cx (tk_uuid t) t0 d)))"




end
