(* ===== verification/Steps.thy ===== *)
theory Steps
  imports Fleet
begin

text \<open>
  The effect most operations have on the task and worker tables: none, but for new
  PENDING tasks (\<open>mild\<close>).  A mild step keeps every invariant of the control plane and is a
  step of the abstract task machine; the operations that are not mild (claim, finish,
  cancel, retry, reap and the worker registry) have their own lemmas in Scheduler, Tasks
  and Fleet.
\<close>

definition grows :: "db \<Rightarrow> db \<Rightarrow> bool" where
  "grows d d' \<longleftrightarrow> workers d' = workers d
     \<and> (\<exists>ts. tasks d' = tasks d @ ts \<and> (\<forall>t\<in>set ts. fresh_task t))"

definition mild :: "db \<Rightarrow> db \<Rightarrow> bool" where
  "mild d d' \<longleftrightarrow> grows d d' \<and> (wf_db d \<longrightarrow> wf_db d')"

lemma grows_refl [simp]: "grows d d"
  by (simp add: grows_def)

lemma grows_trans: "grows a b \<Longrightarrow> grows b c \<Longrightarrow> grows a c"
  by (auto simp: grows_def)

lemma grows_same: "workers d' = workers d \<Longrightarrow> tasks d' = tasks d \<Longrightarrow> grows d d'"
  by (simp add: grows_def)

lemma grows_insert_task: "insert_task t d = Inr d' \<Longrightarrow> fresh_task t \<Longrightarrow> grows d d'"
  by (auto simp: grows_def insert_task_def split: if_splits)

lemma mild_refl [simp]: "mild d d"
  by (simp add: mild_def)

lemma mild_trans: "mild a b \<Longrightarrow> mild b c \<Longrightarrow> mild a c"
  by (auto simp: mild_def intro: grows_trans)

lemma mild_same: "workers d' = workers d \<Longrightarrow> tasks d' = tasks d \<Longrightarrow> (wf_db d \<Longrightarrow> wf_db d') \<Longrightarrow> mild d d'"
  by (simp add: mild_def grows_same)

lemma mild_insert_task: "insert_task t d = Inr d' \<Longrightarrow> fresh_task t \<Longrightarrow> mild d d'"
  by (auto simp: mild_def grows_insert_task intro: wf_insert_task)

lemma grows_tasks_evolve:
  assumes "grows d d'"
  shows "tasks_evolve d d'"
proof -
  obtain ts where ts: "tasks d' = tasks d @ ts" "\<forall>t\<in>set ts. fresh_task t"
    using assms by (auto simp: grows_def)
  have "list_all2 task_step (tasks d) (tasks d)" by (simp add: list_all2_same)
  then show ?thesis using ts by (auto simp: tasks_evolve_def)
qed

lemma grows_wf_tasks: "grows d d' \<Longrightarrow> wf_tasks d \<Longrightarrow> wf_tasks d'"
  by (auto simp: grows_def wf_tasks_def wf_fresh)

lemma mild_good_step: "mild d d' \<Longrightarrow> good_step d d'"
  by (auto simp: mild_def good_step_def grows_wf_tasks intro: grows_tasks_evolve)

lemma grows_running_set: "grows d d' \<Longrightarrow> running_set d' = running_set d"
  by (auto simp: grows_def running_set_def fresh_task_def)

lemma grows_wf_workers: "grows d d' \<Longrightarrow> wf_workers d' = wf_workers d"
  using wf_workers_same [of d' d] by (auto simp: grows_def)

lemma grows_attended: "grows d d' \<Longrightarrow> attended d' = attended d"
  by (auto simp: attended_def grows_running_set) (auto simp: grows_def)

lemma grows_accounted: "grows d d' \<Longrightarrow> accounted d \<Longrightarrow> accounted d'"
  by (auto simp: grows_def intro: accounted_fresh_tasks)

lemma mild_submit_task: "mild d (snd (submit_task cx q uuid now (\<lambda>x. x) d))"
proof -
  obtain r d' where run: "submit_task cx q uuid now (\<lambda>x. x) d = (r, d')" by fastforce
  with submit_task_cases [OF run] show ?thesis by (auto intro: mild_insert_task)
qed

end
