(* ===== verification/Executors.thy ===== *)
theory Executors
  imports Gravitino Embeddings Calendar Indexes Worker Steps "HOL-Library.AList" "HOL-Library.List_Lexorder"
begin

text \<open>
  The task executors, \<open>src/lcp/workers/executors/\<close>, one definition per \<open>execute\<close>, and
  the default registry of \<open>base.py\<close>.  An executor is a computation over the outside
  world \<open>'w\<close> (the Lance storage and the HTTP services): it raises, or returns its payload
  with the writes the session holds uncommitted.  \<open>run_exec\<close> is the worker's
  view of one: an exception becomes its class name and text, and no write is kept.  The clock reading, the settings and the third-party packages are the fields of
  \<open>exec_env\<close>; a JSON value of a kind the documented parameters of a task never have is
  answered with an exception.
\<close>

section \<open>The environment\<close>

record ('h, 'w) exec_env =
  ee_settings :: settings
  ee_lance :: "('h, 'w) lance"
  ee_push :: "'w pusher"
  ee_is_gravitino_error :: "lcp_error \<Rightarrow> bool"
  ee_now :: datetime
  ee_uuid :: string
  ee_repr :: "json \<Rightarrow> string"
  ee_str_exc :: "lcp_error \<Rightarrow> string"
  ee_to_table :: "'h \<Rightarrow> json \<Rightarrow> string option \<Rightarrow> 'w \<Rightarrow> params list res"
  ee_post :: "rat \<Rightarrow> json \<Rightarrow> json \<Rightarrow> (string \<times> json) list \<Rightarrow> ('w, json) io"
  ee_float_array :: "json list \<Rightarrow> unit res"

type_synonym 'w exec = "task_row \<Rightarrow> dataset_row \<Rightarrow> db \<Rightarrow> ('w, params \<times> (db \<Rightarrow> db)) io"

definition no_writes :: "db \<Rightarrow> db" where
  "no_writes d = d"

text \<open>\<open>str(v)\<close>; floats, lists and dicts print as \<open>repr\<close> prints them.\<close>

fun py_str :: "(json \<Rightarrow> string) \<Rightarrow> json \<Rightarrow> string" where
  "py_str repr JNull = ''None''"
| "py_str repr (JBool b) = (if b then ''True'' else ''False'')"
| "py_str repr (JInt i) = dec_int i"
| "py_str repr (JStr s) = s"
| "py_str repr v = repr v"

definition text_of :: "json \<Rightarrow> string res" where
  "text_of v = (case v of JStr s \<Rightarrow> Inr s | _ \<Rightarrow> Inl TypeError)"

definition KeyError :: lcp_error where
  "KeyError = OtherError ''KeyError''"

definition storage_options_of :: "('h, 'w, 'z) exec_env_scheme \<Rightarrow> storage_options option" where
  "storage_options_of E = Some (build_storage_options (ee_settings E))"

text \<open>\<open>type(exc).__name__\<close>.\<close>

fun exc_name :: "lcp_error \<Rightarrow> string" where
  "exc_name PermissionError = ''PermissionError''"
| "exc_name RuntimeError = ''RuntimeError''"
| "exc_name NotSystemPrincipalError = ''NotSystemPrincipalError''"
| "exc_name SchedulerNotSystemError = ''SchedulerNotSystemError''"
| "exc_name PlannerNotSystemError = ''PlannerNotSystemError''"
| "exc_name WatcherNotSystemError = ''WatcherNotSystemError''"
| "exc_name AuthenticationError = ''AuthenticationError''"
| "exc_name MultipleResultsFound = ''MultipleResultsFound''"
| "exc_name IntegrityError = ''IntegrityError''"
| "exc_name DatasetAlreadyExistsError = ''DatasetAlreadyExistsError''"
| "exc_name RuleValidationError = ''RuleValidationError''"
| "exc_name ValueError = ''ValueError''"
| "exc_name TypeError = ''TypeError''"
| "exc_name (ValueErrorText _) = ''ValueError''"
| "exc_name (ColumnNotFoundError _) = ''ColumnNotFoundError''"
| "exc_name (DimensionMismatchError _) = ''DimensionMismatchError''"
| "exc_name GravitinoDisabledError = ''GravitinoDisabledError''"
| "exc_name (DatasetNotFoundError _) = ''DatasetNotFoundError''"
| "exc_name (TaskNotFoundError _) = ''TaskNotFoundError''"
| "exc_name (TaskTransitionError _) = ''TaskTransitionError''"
| "exc_name (WorkerNotFoundError _) = ''WorkerNotFoundError''"
| "exc_name (WorkerLeaseMismatchError _) = ''WorkerLeaseMismatchError''"
| "exc_name (IndexTransitionError _) = ''IndexTransitionError''"
| "exc_name (RuleDisabledError _) = ''RuleDisabledError''"
| "exc_name (IndexNotFoundError _ _) = ''IndexNotFoundError''"
| "exc_name (IndexAlreadyExistsError _ _) = ''IndexAlreadyExistsError''"
| "exc_name (PolicyNotFoundError _ _) = ''PolicyNotFoundError''"
| "exc_name (PolicyAlreadyExistsError _ _) = ''PolicyAlreadyExistsError''"
| "exc_name (RuleNotFoundError _ _) = ''RuleNotFoundError''"
| "exc_name (RuleAlreadyExistsError _ _) = ''RuleAlreadyExistsError''"
| "exc_name (GravitinoAPIError _ _) = ''GravitinoAPIError''"
| "exc_name (OtherError n) = n"

text \<open>
  The worker's view of an executor started in world \<open>w\<close>: its exceptions by class name and
  text, its writes uncommitted; no other transaction commits while it runs.
\<close>

definition run_exec :: "('h, 'w, 'z) exec_env_scheme \<Rightarrow> 'w \<Rightarrow> 'w exec \<Rightarrow> executor" where
  "run_exec E w f task dataset d =
     (case f task dataset d w of
        (Inl e, _) \<Rightarrow> (Inl (exc_name e, ee_str_exc E e), d)
      | (Inr result, _) \<Rightarrow> (Inr result, d))"

section \<open>What the worker relies on\<close>

text \<open>
  What an executor may have changed when it returns: \<open>tame\<close> executors add nothing but
  PENDING tasks to the tables the scheduler uses.  The executors of this repository write
  through their session only; \<open>lawful_executor\<close> is what such an executor owes.
\<close>

definition tame :: "executor \<Rightarrow> bool" where
  "tame f \<longleftrightarrow> (\<forall>t ds d. mild d (snd (f t ds d)) \<and> mild d (session_view (fst (f t ds d)) (snd (f t ds d))))"

lemma tame_executor_ok:
  assumes "tame f"
  shows "executor_ok f"
  unfolding executor_ok_def
proof (intro allI impI ballI)
  fix t ds d x
  assume "wf_db d \<and> wf_tasks d" and "x \<in> {snd (f t ds d), session_view (fst (f t ds d)) (snd (f t ds d))}"
  moreover from this have "mild d x" using assms by (auto simp: tame_def)
  ultimately show "wf_db x \<and> wf_tasks x \<and> tasks_evolve\<^sup>*\<^sup>* d x"
    using mild_good_step [of d x] by (simp add: good_step_def)
qed

locale lawful_executor =
  fixes f :: "'w exec"
  assumes writes_mild: "f task dataset d w = (Inr (payload, writes), w') \<Longrightarrow> mild d (writes d)"
begin

lemma tame: "tame (run_exec E w f)"
  unfolding tame_def
proof (intro allI)
  fix t ds d
  show "mild d (snd (run_exec E w f t ds d))
      \<and> mild d (session_view (fst (run_exec E w f t ds d)) (snd (run_exec E w f t ds d)))"
    using writes_mild [of t ds d w]
    by (auto simp: run_exec_def session_view_def split: prod.split sum.split)
qed

end

section \<open>TTL_DELETE and COMPACTION\<close>

definition ttl_delete :: "('h, 'w, 'z) exec_env_scheme \<Rightarrow> 'w exec" where
  "ttl_delete E task dataset d =
     (let ttl = get_or (opt_params (tk_params task)) ''ttl_days'' JNull;
          now = (ee_now E)\<lparr>dt_micro := 0\<rparr>; cfg = ee_settings E in
      if ttl = JNull then io_raise ValueError
      else io_bind (io_res (int_of_json ttl)) (\<lambda>days.
           io_bind (io_res (minus_days now days)) (\<lambda>cutoff.
             let predicate = ''created_at < timestamp '' @ [CHR 0x27] @ isoformat cutoff @ [CHR 0x27];
                 preview = ''created_at < (now - INTERVAL '' @ py_str (ee_repr E) ttl @ '' DAY)'' in
             if lance_storage_endpoint cfg = []
             then io_return
               ([(''executor'', JStr ''TtlDeleteExecutor''), (''mode'', JStr ''stub''),
                 (''dataset_uuid'', JStr (ds_uuid dataset)), (''storage_uri'', JStr (ds_storage_uri dataset)),
                 (''ttl_days'', ttl), (''predicate_preview'', JStr preview),
                 (''would_call'', JStr ''lance.LanceDataset.delete''),
                 (''executed_at'', JStr (isoformat now))], no_writes)
             else io_bind (delete_rows (ee_lance E) cfg (ds_storage_uri dataset) predicate
                             (storage_options_of E)) (\<lambda>rows_after.
               io_return
               ([(''executor'', JStr ''TtlDeleteExecutor''), (''mode'', JStr ''real''),
                 (''dataset_uuid'', JStr (ds_uuid dataset)), (''storage_uri'', JStr (ds_storage_uri dataset)),
                 (''ttl_days'', ttl), (''predicate'', JStr predicate), (''predicate_preview'', JStr preview),
                 (''rows_after'', JInt rows_after), (''executed_at'', JStr (isoformat now))], no_writes)))))"

definition LANCE_COMPACT_KWARGS :: "string list" where
  "LANCE_COMPACT_KWARGS = [''target_rows_per_fragment'', ''materialize_deletions'']"

definition stats_json :: "compaction_stats \<Rightarrow> json" where
  "stats_json st =
     JObj [(''fragments_removed'', JInt (cs_fragments_removed st)),
           (''fragments_added'', JInt (cs_fragments_added st)),
           (''files_removed'', JInt (cs_files_removed st)), (''files_added'', JInt (cs_files_added st))]"

definition compaction :: "('h, 'w, 'z) exec_env_scheme \<Rightarrow> 'w exec" where
  "compaction E task dataset d =
     (let threshold = py_or (get_or (opt_params (tk_params task)) ''threshold'' JNull) (JObj []);
          now = ee_now E; cfg = ee_settings E in
      if lance_storage_endpoint cfg = []
      then io_return
        ([(''executor'', JStr ''CompactionExecutor''), (''mode'', JStr ''stub''),
          (''dataset_uuid'', JStr (ds_uuid dataset)), (''storage_uri'', JStr (ds_storage_uri dataset)),
          (''threshold'', threshold),
          (''would_call'', JStr ''lance.LanceDataset.optimize.compact_files''),
          (''executed_at'', JStr (isoformat now))], no_writes)
      else io_bind (io_res (as_dict threshold)) (\<lambda>items.
        let kwargs = filter (\<lambda>kv. List.member LANCE_COMPACT_KWARGS (fst kv)) items;
            ignored = sort_key (\<lambda>s. map (of_char :: char \<Rightarrow> nat) s)
                        (filter (\<lambda>k. \<not> List.member LANCE_COMPACT_KWARGS k) (map fst items)) in
        io_bind (compact_files (ee_lance E) cfg (ds_storage_uri dataset) (storage_options_of E)
                   (get_or kwargs ''target_rows_per_fragment'' JNull)
                   (get_or kwargs ''materialize_deletions'' JNull)) (\<lambda>st.
        io_return
        ([(''executor'', JStr ''CompactionExecutor''), (''mode'', JStr ''real''),
          (''dataset_uuid'', JStr (ds_uuid dataset)), (''storage_uri'', JStr (ds_storage_uri dataset)),
          (''threshold'', threshold), (''ignored_threshold_keys'', JList (map JStr ignored)),
          (''stats'', stats_json st), (''executed_at'', JStr (isoformat now))], no_writes))))"

section \<open>INDEX_BUILD\<close>

definition REQUIRED_PARAMS :: "string list" where
  "REQUIRED_PARAMS = [''index_name'', ''column_name'', ''index_type'']"

text \<open>
  The rows an executor promotes, by primary key: READY with a fresh stamp, and the seen
  version where one is known.
\<close>

definition promoted :: "datetime \<Rightarrow> int option \<Rightarrow> index_row \<Rightarrow> index_row" where
  "promoted now seen i =
     i\<lparr>ix_status := IX_READY, ix_last_optimized_at := Some now,
       ix_last_seen_version := (case seen of None \<Rightarrow> ix_last_seen_version i | Some v \<Rightarrow> Some v)\<rparr>"

definition promote :: "nat list \<Rightarrow> datetime \<Rightarrow> int option \<Rightarrow> db \<Rightarrow> db" where
  "promote ids now seen d =
     d\<lparr>indexes := upd_where (\<lambda>i. List.member ids (ix_id i)) (promoted now seen) (indexes d)\<rparr>"

definition push_index ::
  "('h, 'w, 'z) exec_env_scheme \<Rightarrow> dataset_row \<Rightarrow> string \<Rightarrow> string \<Rightarrow> ('w, bool) io" where
  "push_index E dataset name column =
     push_index_properties (ee_push E) (ee_is_gravitino_error E) (ee_settings E)
       (ds_schema dataset) (ds_table dataset) name ''READY'' column (Some (ee_now E))"

definition index_build :: "('h, 'w, 'z) exec_env_scheme \<Rightarrow> 'w exec" where
  "index_build E task dataset d =
     (let params = opt_params (tk_params task); now = ee_now E; cfg = ee_settings E;
          missing = filter (\<lambda>k. \<not> py_truthy (get_or params k JNull)) REQUIRED_PARAMS;
          index_params = py_or (get_or params ''params'' JNull) (JObj []) in
      if missing \<noteq> [] then io_raise ValueError
      else
      io_bind (io_res (text_of (get_or params ''index_name'' JNull))) (\<lambda>index_name.
      io_bind (io_res (text_of (get_or params ''column_name'' JNull))) (\<lambda>column_name.
      io_bind (io_res (text_of (get_or params ''index_type'' JNull))) (\<lambda>index_type.
      io_bind (io_res (maybe_get_index (ds_uuid dataset) index_name d)) (\<lambda>found.
      case found of
        None \<Rightarrow> io_raise ValueError
      | Some index_row \<Rightarrow>
          if lance_storage_endpoint cfg = []
          then io_bind (push_index E dataset index_name column_name) (\<lambda>pushed.
            io_return
            ([(''executor'', JStr ''IndexBuildExecutor''), (''mode'', JStr ''stub''),
              (''dataset_uuid'', JStr (ds_uuid dataset)), (''storage_uri'', JStr (ds_storage_uri dataset)),
              (''index_name'', JStr index_name), (''column_name'', JStr column_name),
              (''index_type'', JStr index_type), (''index_params'', index_params),
              (''would_call'', JStr ''lance.LanceDataset.create_index''),
              (''executed_at'', JStr (isoformat now)), (''gravitino_property_pushed'', JBool pushed)],
             promote [ix_id index_row] now None))
          else
            io_bind (io_res (case index_params of JObj kvs \<Rightarrow> Inr kvs | _ \<Rightarrow> Inl TypeError)) (\<lambda>kwargs.
            io_bind (lance_create_index (ee_lance E) cfg (ds_storage_uri dataset) column_name index_type
                       (storage_options_of E) True kwargs) (\<lambda>descriptor.
            io_bind (push_index E dataset index_name column_name) (\<lambda>pushed.
            io_return
            ([(''executor'', JStr ''IndexBuildExecutor''), (''mode'', JStr ''real''),
              (''dataset_uuid'', JStr (ds_uuid dataset)), (''storage_uri'', JStr (ds_storage_uri dataset)),
              (''index_name'', JStr index_name), (''column_name'', JStr column_name),
              (''index_type'', JStr index_type), (''index_params'', index_params),
              (''lance_descriptor'', JObj descriptor), (''executed_at'', JStr (isoformat now)),
              (''gravitino_property_pushed'', JBool pushed)],
             promote [ix_id index_row] now None)))))))))"

section \<open>INDEX_OPTIMIZE\<close>

definition extract_lance_version :: "task_row \<Rightarrow> int option" where
  "extract_lance_version task =
     (let v = get_or (opt_params (tk_params task)) ''lance_version'' JNull in
      if v = JNull then None else case int_of_json v of Inl _ \<Rightarrow> None | Inr i \<Rightarrow> Some i)"

fun push_all ::
  "('h, 'w, 'z) exec_env_scheme \<Rightarrow> dataset_row \<Rightarrow> index_row list \<Rightarrow> nat \<Rightarrow> ('w, nat) io" where
  "push_all E dataset [] n = io_return n"
| "push_all E dataset (i # is) n =
     io_bind (push_index E dataset (ix_name i) (ix_column i)) (\<lambda>pushed.
     push_all E dataset is (if pushed then n + 1 else n))"

definition optimizing_rows :: "dataset_row \<Rightarrow> db \<Rightarrow> index_row list" where
  "optimizing_rows dataset d =
     filter (\<lambda>i. ix_dataset i = ds_uuid dataset \<and> ix_status i = IX_OPTIMIZING) (indexes d)"

definition index_optimize :: "('h, 'w, 'z) exec_env_scheme \<Rightarrow> 'w exec" where
  "index_optimize E task dataset d =
     (let cfg = ee_settings E; now = ee_now E in
      io_bind
        (if lance_storage_endpoint cfg \<noteq> []
         then io_bind (optimize_indices (ee_lance E) cfg (ds_storage_uri dataset) (storage_options_of E))
                (\<lambda>r. io_return (Some r))
         else io_return None) (\<lambda>lance_run.
      let rows = optimizing_rows dataset d;
          seen = (case lance_run of Some (_, v) \<Rightarrow> Some v | None \<Rightarrow> extract_lance_version task) in
      io_bind (push_all E dataset rows 0) (\<lambda>pushes.
      io_return
        ([(''executor'', JStr ''IndexOptimizeExecutor''), (''mode'', JStr ''real''),
          (''dataset_uuid'', JStr (ds_uuid dataset)),
          (''indexes_promoted'', JList (map (\<lambda>i. JStr (ix_name i)) rows)),
          (''promoted_count'', JInt (int (length rows))), (''executed_at'', JStr (isoformat now)),
          (''gravitino_property_pushed_count'', JInt (int pushes))]
         @ (case lance_run of None \<Rightarrow> []
            | Some (n, v) \<Rightarrow> [(''lance_index_count'', JInt (int n)), (''post_optimize_version'', JInt v)]),
         promote (map ix_id rows) now seen))))"

section \<open>Lemmas\<close>

lemma no_writes [simp]: "no_writes d = d"
  by (simp add: no_writes_def)

lemma promote_sel [simp]:
  "tasks (promote ids now seen d) = tasks d" "datasets (promote ids now seen d) = datasets d"
  "workers (promote ids now seen d) = workers d" "policies (promote ids now seen d) = policies d"
  "rules (promote ids now seen d) = rules d"
  "indexes (promote ids now seen d)
     = upd_where (\<lambda>i. List.member ids (ix_id i)) (promoted now seen) (indexes d)"
  by (simp_all add: promote_def)

lemma wf_promote: "wf_db d \<Longrightarrow> wf_db (promote ids now seen d)"
  unfolding promote_def by (intro wf_upd_indexes) (simp_all add: uk_defs promoted_def)

lemma mild_promote: "mild d (promote ids now seen d)"
  by (rule mild_same) (simp_all add: wf_promote)

lemma ttl_delete_writes:
  assumes "ttl_delete E task dataset d w = (Inr (p, writes), w')"
  shows "writes = no_writes"
  using assms by (auto simp: ttl_delete_def Let_def io_bind_Inr split: if_splits)

lemma compaction_writes:
  assumes "compaction E task dataset d w = (Inr (p, writes), w')"
  shows "writes = no_writes"
  using assms by (auto simp: compaction_def Let_def io_bind_Inr split: if_splits)

text \<open>What a successful build did, in the order it did it.\<close>

lemma index_build_Inr:
  assumes "index_build E task dataset d w = (Inr (p, writes), w')"
  obtains name column itype row where
    "get_or (opt_params (tk_params task)) ''index_name'' JNull = JStr name"
    "get_or (opt_params (tk_params task)) ''column_name'' JNull = JStr column"
    "get_or (opt_params (tk_params task)) ''index_type'' JNull = JStr itype"
    "maybe_get_index (ds_uuid dataset) name d = Inr (Some row)"
    "writes = promote [ix_id row] (ee_now E) None"
    "lance_storage_endpoint (ee_settings E) = [] \<or>
       (\<exists>kwargs descriptor w1. lance_create_index (ee_lance E) (ee_settings E) (ds_storage_uri dataset)
          column itype (storage_options_of E) True kwargs w = (Inr descriptor, w1))"
  using assms
  by (auto simp: index_build_def Let_def io_bind_Inr text_of_def split: if_split_asm json.split_asm)
    ((auto simp: io_bind_Inr split: option.split_asm if_split_asm json.split_asm), blast+)

lemma index_build_writes:
  "index_build E task dataset d w = (Inr (p, writes), w') \<Longrightarrow> \<exists>ids now. writes = promote ids now None"
  by (erule index_build_Inr) blast

lemma index_optimize_Inr:
  assumes "index_optimize E task dataset d w = (Inr (p, writes), w')"
  obtains lance_run w1 where
    "if lance_storage_endpoint (ee_settings E) \<noteq> []
     then \<exists>r. lance_run = Some r \<and> optimize_indices (ee_lance E) (ee_settings E) (ds_storage_uri dataset)
                (storage_options_of E) w = (Inr r, w1)
     else lance_run = None \<and> w1 = w"
    "writes = promote (map ix_id (optimizing_rows dataset d)) (ee_now E)
       (case lance_run of Some (_, v) \<Rightarrow> Some v | None \<Rightarrow> extract_lance_version task)"
  using assms
  by (auto simp: index_optimize_def Let_def io_bind_Inr split: if_splits)

text \<open>The contract holds for the executors of this theory.\<close>

interpretation ttl_exec: lawful_executor "ttl_delete E" for E
  by unfold_locales (auto dest: ttl_delete_writes)

interpretation compaction_exec: lawful_executor "compaction E" for E
  by unfold_locales (auto dest: compaction_writes)

interpretation build_exec: lawful_executor "index_build E" for E
  by unfold_locales (auto dest: index_build_writes intro: mild_promote)

interpretation optimize_exec: lawful_executor "index_optimize E" for E
  by unfold_locales (auto elim!: index_optimize_Inr intro: mild_promote)

end
