(* ===== verification/Vectorize.thy ===== *)
theory Vectorize
  imports Executors
begin

text \<open>
  The two VECTORIZE executors: \<open>VectorizationExecutor\<close>
  (\<open>src/lcp/workers/executors/vectorize.py\<close>), which the default registry runs, and
  \<open>EmbeddingExecutor\<close> (\<open>src/lcp/workers/executors/embedding.py\<close>), which it imports and
  does not register; then the registry of \<open>base.py\<close> itself.
\<close>

section \<open>The HTTP vectorizer\<close>

text \<open>\<open>v[key]\<close> on a decoded JSON value with a text key, and \<open>len(v)\<close>.\<close>

fun py_item :: "json \<Rightarrow> string \<Rightarrow> json res" where
  "py_item (JObj kvs) k = (case map_of kvs k of None \<Rightarrow> Inl KeyError | Some v \<Rightarrow> Inr v)"
| "py_item _ k = Inl TypeError"

fun py_items :: "json list \<Rightarrow> string \<Rightarrow> json list res" where
  "py_items [] k = Inr []"
| "py_items (v # vs) k =
     (case py_item v k of
        Inl e \<Rightarrow> Inl e
      | Inr x \<Rightarrow> (case py_items vs k of Inl e \<Rightarrow> Inl e | Inr xs \<Rightarrow> Inr (x # xs)))"

fun py_len :: "json \<Rightarrow> nat option" where
  "py_len (JList xs) = Some (length xs)"
| "py_len (JObj kvs) = Some (length kvs)"
| "py_len (JStr s) = Some (length s)"
| "py_len _ = None"

text \<open>One row: the non-null values of the source columns, as texts.\<close>

fun row_parts :: "(json \<Rightarrow> string) \<Rightarrow> json list \<Rightarrow> params \<Rightarrow> string list res" where
  "row_parts repr [] row = Inr []"
| "row_parts repr (JStr c # cols) row =
     (case map_of row c of
        None \<Rightarrow> Inl KeyError
      | Some v \<Rightarrow>
          (case row_parts repr cols row of
             Inl e \<Rightarrow> Inl e
           | Inr ps \<Rightarrow> Inr (if v = JNull then ps else py_str repr v # ps)))"
| "row_parts repr (_ # cols) row = Inl TypeError"

fun row_texts :: "(json \<Rightarrow> string) \<Rightarrow> json list \<Rightarrow> params list \<Rightarrow> string list res" where
  "row_texts repr cols [] = Inr []"
| "row_texts repr cols (r # rs) =
     (case row_parts repr cols r of
        Inl e \<Rightarrow> Inl e
      | Inr ps \<Rightarrow>
          (case row_texts repr cols rs of Inl e \<Rightarrow> Inl e | Inr ts \<Rightarrow> Inr (join_text '' '' ps # ts)))"

text \<open>The request headers; a header written twice keeps the last value.\<close>

definition req_headers :: "(json \<Rightarrow> string) \<Rightarrow> json \<Rightarrow> json \<Rightarrow> (string \<times> json) list res" where
  "req_headers repr api_key api_key_header =
     (let base = [(''Content-Type'', JStr ''application/json'')] in
      if \<not> py_truthy api_key then Inr base
      else case api_key_header of
             JStr h \<Rightarrow>
               Inr (if lower h = ''authorization''
                    then AList.update ''Authorization'' (JStr (''Bearer '' @ py_str repr api_key)) base
                    else AList.update h api_key base)
           | _ \<Rightarrow> Inl (OtherError ''AttributeError''))"

definition embeddings_of :: "json \<Rightarrow> json list res" where
  "embeddings_of data =
     (case py_item data ''data'' of
        Inl e \<Rightarrow> Inl e
      | Inr items \<Rightarrow> (case iter_json items of Inl e \<Rightarrow> Inl e | Inr xs \<Rightarrow> py_items xs ''embedding''))"

definition batch_slices :: "int \<Rightarrow> 'a list \<Rightarrow> 'a list list res" where
  "batch_slices n xs = (if n = 0 then Inl ValueError else Inr (if n < 0 then [] else chunks (nat n) xs))"

text \<open>The batch loop: a failed batch is padded with empty vectors and reported.\<close>

fun post_batches ::
  "('h, 'w, 'z) exec_env_scheme \<Rightarrow> json \<Rightarrow> json \<Rightarrow> (string \<times> json) list \<Rightarrow> string list list \<Rightarrow> nat
     \<Rightarrow> json list \<Rightarrow> string list \<Rightarrow> 'w \<Rightarrow> (json list \<times> nat \<times> string list) \<times> 'w" where
  "post_batches E endpoint model headers [] sent embs errs w = ((embs, sent, errs), w)"
| "post_batches E endpoint model headers (b # bs) sent embs errs w =
     (case ee_post E (embedding_request_timeout_seconds (ee_settings E)) endpoint
             (JObj [(''input'', JList (map JStr b)), (''model'', model)]) headers w of
        (r, w1) \<Rightarrow>
          (case (case r of Inl e \<Rightarrow> Inl e | Inr data \<Rightarrow> embeddings_of data) of
             Inr es \<Rightarrow> post_batches E endpoint model headers bs (sent + 1) (embs @ es) errs w1
           | Inl e \<Rightarrow>
               post_batches E endpoint model headers bs (sent + 1) (embs @ map (\<lambda>_. JList []) b)
                 (errs @ [''batch '' @ dec_nat sent @ '': '' @ ee_str_exc E e]) w1))"

text \<open>
  The last step: the valid vectors are counted and converted; nothing is written to the
  dataset.
\<close>

definition rows_written :: "('h, 'w, 'z) exec_env_scheme \<Rightarrow> json list \<Rightarrow> nat res" where
  "rows_written E embs =
     (if list_ex (\<lambda>e. py_len e = None) embs then Inl TypeError
      else let vectors = filter (\<lambda>e. py_len e \<noteq> Some 0) embs in
        if vectors = [] then Inr 0
        else case ee_float_array E vectors of Inl e \<Rightarrow> Inl e | Inr _ \<Rightarrow> Inr (length vectors))"

definition unvectorized_rows ::
  "('h, 'w, 'z) exec_env_scheme \<Rightarrow> 'h \<Rightarrow> json \<Rightarrow> string \<Rightarrow> 'w \<Rightarrow> params list res" where
  "unvectorized_rows E ds source_columns target w =
     (case (case source_columns of
              JList cols \<Rightarrow> ee_to_table E ds (JList (JStr ''_rowid'' # cols)) (Some (target @ '' IS NULL'')) w
            | _ \<Rightarrow> Inl TypeError) of
        Inr rows \<Rightarrow> Inr rows
      | Inl _ \<Rightarrow> ee_to_table E ds source_columns None w)"

definition vectorize_sync ::
  "('h, 'w, 'z) exec_env_scheme \<Rightarrow> string \<Rightarrow> json \<Rightarrow> json \<Rightarrow> json \<Rightarrow> json \<Rightarrow> int \<Rightarrow> json \<Rightarrow> json
     \<Rightarrow> ('w, params) io" where
  "vectorize_sync E uri target source_columns model endpoint batch_size api_key api_key_header =
     io_bind (open_dataset (ee_lance E) (ee_settings E) uri (storage_options_of E)) (\<lambda>ds w.
       case unvectorized_rows E ds source_columns (py_str (ee_repr E) target) w of
         Inl e \<Rightarrow> (Inr [(''error'', JStr (''Failed to read dataset: '' @ ee_str_exc E e)),
                        (''rows_processed'', JInt 0)], w)
       | Inr [] \<Rightarrow> (Inr [(''rows_processed'', JInt 0), (''batches'', JInt 0),
                         (''status'', JStr ''no_new_rows'')], w)
       | Inr rows \<Rightarrow>
           io_bind (io_res (iter_json source_columns)) (\<lambda>cols.
           io_bind (io_res (row_texts (ee_repr E) cols rows)) (\<lambda>texts.
           io_bind (io_res (req_headers (ee_repr E) api_key api_key_header)) (\<lambda>headers.
           io_bind (io_res (batch_slices batch_size texts)) (\<lambda>batches w1.
             case post_batches E endpoint model headers batches 0 [] [] w1 of
               ((embs, sent, errs), w2) \<Rightarrow>
                 io_bind (io_res (rows_written E embs)) (\<lambda>written.
                 io_return
                   [(''rows_processed'', JInt (int written)), (''total_unvectorized'', JInt (int (length rows))),
                    (''batches'', JInt (int sent)),
                    (''errors'', if errs \<noteq> [] then JList (map JStr errs) else JNull),
                    (''status'', JStr ''completed'')]) w2)))) w)"

definition vectorization_executor :: "('h, 'w, 'z) exec_env_scheme \<Rightarrow> 'w exec" where
  "vectorization_executor E task dataset d =
     (let params = opt_params (tk_params task);
          source_columns = get_or params ''source_columns'' (JList []); cfg = ee_settings E in
      io_bind (io_res (int_of_json (get_or params ''batch_size'' (JInt 64)))) (\<lambda>batch_size.
      if \<not> py_truthy source_columns
      then io_return ([(''error'', JStr ''no source_columns specified''), (''rows_processed'', JInt 0)], no_writes)
      else
        let endpoint = py_or (get_or params ''model_endpoint'' (JStr [])) (JStr (embedding_default_endpoint cfg)) in
        if \<not> py_truthy endpoint
        then io_return ([(''error'', JStr ''no embedding endpoint configured''), (''rows_processed'', JInt 0)],
               no_writes)
        else
          io_bind (io_res (as_dict (py_or (get_or params ''extra'' JNull) (JObj [])))) (\<lambda>extra.
          io_bind (vectorize_sync E (ds_storage_uri dataset)
                     (get_or params ''target_column'' (JStr ''vector'')) source_columns
                     (get_or params ''model_name'' (JStr ''default'')) endpoint batch_size
                     (py_or (get_or extra ''api_key'' JNull) (JStr (embedding_api_key cfg)))
                     (py_or (get_or extra ''api_key_header'' JNull) (JStr (embedding_api_key_header cfg))))
            (\<lambda>result. io_return (result, no_writes)))))"

section \<open>The rule-driven vectorizer\<close>

text \<open>The model back ends of \<open>embeddings/\<close>; \<open>cache\<close> is the process-wide model cache.\<close>

record 'm models =
  md_installed :: bool
  md_load :: "string \<Rightarrow> 'm res"
  md_encode :: "'m \<Rightarrow> string list \<Rightarrow> rat list list res"
  md_cache :: "string \<rightharpoonup> 'm"

definition MOCK_MODEL_NAME :: string where
  "MOCK_MODEL_NAME = ''mock''"

definition encode_texts :: "'m models \<Rightarrow> string \<Rightarrow> string list \<Rightarrow> rat list list res" where
  "encode_texts M name texts =
     (if name = MOCK_MODEL_NAME then hash_embedding (map JStr texts) 384
      else fst (st_embedding (md_installed M) (md_load M) (md_encode M) (map JStr texts) name (md_cache M)))"

text \<open>\<open>_transform\<close>: the source columns of a batch, joined row by row without the nulls.\<close>

fun batch_columns :: "(string \<times> json list) list \<Rightarrow> string list \<Rightarrow> json list list res" where
  "batch_columns batch [] = Inr []"
| "batch_columns batch (c # cs) =
     (case map_of batch c of
        None \<Rightarrow> Inl KeyError
      | Some col \<Rightarrow>
          (case batch_columns batch cs of Inl e \<Rightarrow> Inl e | Inr cols \<Rightarrow> Inr (col # cols)))"

fun zip_rows :: "json list list \<Rightarrow> json list list res" where
  "zip_rows [] = Inr []"
| "zip_rows [col] = Inr (map (\<lambda>v. [v]) col)"
| "zip_rows (col # c # cols) =
     (case zip_rows (c # cols) of
        Inl e \<Rightarrow> Inl e
      | Inr rows \<Rightarrow> if length col \<noteq> length rows then Inl ValueError
                    else Inr (map (\<lambda>(v, r). v # r) (zip col rows)))"

fun strings_of :: "json list \<Rightarrow> string list" where
  "strings_of [] = []"
| "strings_of (JStr s # vs) = s # strings_of vs"
| "strings_of (_ # vs) = strings_of vs"

definition transform ::
  "'m models \<Rightarrow> string list \<Rightarrow> string \<Rightarrow> string \<Rightarrow> (string \<times> json list) list \<Rightarrow> rat list list res" where
  "transform M source_columns model separator batch =
     (case batch_columns batch source_columns of
        Inl e \<Rightarrow> Inl e
      | Inr cols \<Rightarrow>
          (case zip_rows cols of
             Inl e \<Rightarrow> Inl e
           | Inr rows \<Rightarrow> encode_texts M model (map (\<lambda>r. join_text separator (strings_of r)) rows)))"

definition build_batch_transform ::
  "'m models \<Rightarrow> string list \<Rightarrow> string \<Rightarrow> string \<Rightarrow> nat \<Rightarrow> string \<Rightarrow> column_udf" where
  "build_batch_transform M source_columns target model dm separator =
     \<lparr>udf_target = target, udf_dim = dm, udf_fun = transform M source_columns model separator\<rparr>"

definition validate_source_columns ::
  "('h, 'w, 'z) exec_env_scheme \<Rightarrow> string \<Rightarrow> string list \<Rightarrow> ('w, unit) io" where
  "validate_source_columns E uri source_columns =
     io_bind (read_dataset_schema (ee_lance E) (ee_settings E) uri (storage_options_of E)) (\<lambda>schema.
       if list_ex (\<lambda>c. \<not> List.member (map fst schema) c) source_columns then io_raise ValueError
       else if list_ex (\<lambda>c. map_of schema c \<noteq> Some ''string'') source_columns then io_raise ValueError
       else io_return ())"

text \<open>
  \<open>_maybe_submit_index_build\<close>: the flag and the rows the session adds.  A failure after the
  configuration was recognised is swallowed.
\<close>

definition auto_build_rows ::
  "string \<Rightarrow> datetime \<Rightarrow> dataset_row \<Rightarrow> string \<Rightarrow> string \<Rightarrow> string \<Rightarrow> params \<Rightarrow> db \<Rightarrow> db res" where
  "auto_build_rows uuid now dataset name target typ params d =
     (let row = new_index (ds_uuid dataset) name target typ (if params = [] then None else Some params) now in
      case insert_index row d of
        Inl e \<Rightarrow> Inl e
      | Inr d1 \<Rightarrow>
          insert_task
            (new_task uuid INDEX_BUILD (ds_uuid dataset) (ds_tenant dataset) 5
               (Some [(''index_name'', JStr name), (''column_name'', JStr target),
                      (''index_type'', JStr typ), (''params'', JObj params)])
               (Some (''auto_build:'' @ ds_uuid dataset @ ''/'' @ name @ '':'' @ dec_nat (next_index_id d)))
               3 now) d1)"

definition submit_auto_build ::
  "('h, 'w, 'z) exec_env_scheme \<Rightarrow> dataset_row \<Rightarrow> string \<Rightarrow> params \<Rightarrow> db \<Rightarrow> (bool \<times> (db \<Rightarrow> db)) res" where
  "submit_auto_build E dataset target config d =
     (case (text_of (get_or config ''index_name'' (JStr (''idx_'' @ target))),
            text_of (get_or config ''index_type'' (JStr ''IVF_PQ'')),
            as_dict (py_or (get_or config ''params'' JNull) (JObj []))) of
        (Inr name, Inr typ, Inr params) \<Rightarrow>
          (case maybe_get_index (ds_uuid dataset) name d of
             Inl e \<Rightarrow> Inl e
           | Inr (Some existing) \<Rightarrow> Inr (False, no_writes)
           | Inr None \<Rightarrow>
               let rows = auto_build_rows (ee_uuid E) (ee_now E) dataset name target typ params in
               (case rows d of
                  Inl e \<Rightarrow> Inl e
                | Inr _ \<Rightarrow> Inr (True, \<lambda>x. case rows x of Inl _ \<Rightarrow> x | Inr x' \<Rightarrow> x')))
      | _ \<Rightarrow> Inl TypeError)"

definition maybe_submit_index_build ::
  "('h, 'w, 'z) exec_env_scheme \<Rightarrow> dataset_row \<Rightarrow> string \<Rightarrow> params \<Rightarrow> db \<Rightarrow> (bool option \<times> (db \<Rightarrow> db)) res" where
  "maybe_submit_index_build E dataset target extra d =
     (let config = get_or extra ''index_config'' JNull in
      if \<not> py_truthy config then Inr (None, no_writes)
      else case as_dict config of
             Inl e \<Rightarrow> Inl e
           | Inr cfg \<Rightarrow>
               if \<not> py_truthy (get_or cfg ''auto_build'' JNull) then Inr (None, no_writes)
               else case submit_auto_build E dataset target cfg d of
                      Inl _ \<Rightarrow> Inr (None, no_writes)
                    | Inr (b, writes) \<Rightarrow> Inr (Some b, writes))"

definition embedding_executor :: "('h, 'w, 'z) exec_env_scheme \<Rightarrow> 'm models \<Rightarrow> 'w exec" where
  "embedding_executor E M task dataset d =
     (let rule_id = get_or (opt_params (tk_params task)) ''vectorization_rule_id'' JNull in
      if rule_id = JNull then io_raise ValueError
      else
      io_bind (io_res (int_of_json rule_id)) (\<lambda>rid.
      io_bind (io_res (one_or_none (filter (\<lambda>r. int (vr_id r) = rid \<and> vr_dataset r = ds_uuid dataset) (rules d))))
        (\<lambda>found. case found of
          None \<Rightarrow> io_raise ValueError
        | Some rule \<Rightarrow>
          if \<not> vr_enabled rule then io_raise ValueError
          else
          io_bind (case vr_source_columns rule of None \<Rightarrow> io_raise TypeError | Some cs \<Rightarrow> io_return cs) (\<lambda>cols.
          if cols = [] then io_raise ValueError
          else
          let extra = opt_params (vr_extra rule);
              separator = py_str (ee_repr E) (get_or extra ''concat_separator'' (JStr '' '')) in
          io_bind (validate_source_columns E (ds_storage_uri dataset) cols) (\<lambda>_.
          io_bind (io_res (encode_texts M (vr_model_name rule) [''__lcp_probe__''])) (\<lambda>probe.
          let dm = (case probe of [] \<Rightarrow> 0 | v # _ \<Rightarrow> length v) in
          io_bind (add_columns_from_func (ee_lance E) (ee_settings E) (ds_storage_uri dataset)
                     (build_batch_transform M cols (vr_target_column rule) (vr_model_name rule) dm separator)
                     (Some cols) (storage_options_of E)) (\<lambda>rows_after.
          io_bind (io_res (maybe_submit_index_build E dataset (vr_target_column rule) extra d)) (\<lambda>(submitted, writes).
          io_return
            ([(''executor'', JStr ''EmbeddingExecutor''),
              (''mode'', JStr (if vr_model_name rule = MOCK_MODEL_NAME then ''mock'' else ''real-model'')),
              (''dataset_uuid'', JStr (ds_uuid dataset)), (''storage_uri'', JStr (ds_storage_uri dataset)),
              (''vectorization_rule_id'', JInt rid), (''model_name'', JStr (vr_model_name rule)),
              (''model_version'', JStr (vr_model_version rule)),
              (''target_column'', JStr (vr_target_column rule)),
              (''source_columns'', JList (map JStr cols)), (''concat_separator'', JStr separator),
              (''batch_size'', JInt (vr_batch_size rule)), (''vector_dim'', JInt (int dm)),
              (''vector_count'', JInt rows_after),
              (''index_build_submitted'', (case submitted of None \<Rightarrow> JNull | Some b \<Rightarrow> JBool b)),
              (''executed_at'', JStr (isoformat (ee_now E)))], writes)))))))))"

section \<open>The default registry\<close>

definition build_default_registry :: "('h, 'w, 'z) exec_env_scheme \<Rightarrow> task_type \<Rightarrow> 'w exec option" where
  "build_default_registry E =
     (\<lambda>_. None)(TTL_DELETE \<mapsto> ttl_delete E, COMPACTION \<mapsto> compaction E, INDEX_BUILD \<mapsto> index_build E,
       INDEX_OPTIMIZE \<mapsto> index_optimize E, VECTORIZE \<mapsto> vectorization_executor E)"

definition default_executors :: "('h, 'w, 'z) exec_env_scheme \<Rightarrow> 'w \<Rightarrow> registry" where
  "default_executors E w ty = map_option (run_exec E w) (build_default_registry E ty)"

section \<open>Lemmas\<close>

lemma vectorization_executor_writes:
  assumes "vectorization_executor E task dataset d w = (Inr (p, writes), w')"
  shows "writes = no_writes"
  using assms by (auto simp: vectorization_executor_def Let_def io_bind_Inr split: if_split_asm)

text \<open>The only thing the HTTP vectorizer does to the world is to post batches.\<close>

lemma post_batches_world:
  assumes "\<And>t u b h w. st (snd (ee_post E t u b h w)) = st w"
  shows "st (snd (post_batches E endpoint model headers bs sent embs errs w)) = st w"
proof (induction bs arbitrary: sent embs errs w)
  case Nil
  then show ?case by simp
next
  case (Cons b bs)
  obtain r w1 where r: "ee_post E (embedding_request_timeout_seconds (ee_settings E)) endpoint
      (JObj [(''input'', JList (map JStr b)), (''model'', model)]) headers w = (r, w1)" by fastforce
  have "st w1 = st w" using assms r by (metis snd_conv)
  then show ?case using r Cons.IH by (simp split: sum.split)
qed

lemma vectorize_sync_world:
  assumes "\<And>t u b h w. st (snd (ee_post E t u b h w)) = st w"
  shows "st (snd (vectorize_sync E uri target cols model endpoint n key header w)) = st w"
proof -
  have post: "st w2 = st w1" if "post_batches E endpoint model headers bs 0 [] [] w1 = (x, w2)" for headers bs w1 x w2
    using post_batches_world [where st = st, OF assms, of endpoint model headers bs 0 "[]" "[]" w1] that by simp
  show ?thesis
    by (auto simp: vectorize_sync_def io_bind_def open_dataset_def post split: sum.splits list.splits prod.splits)
qed

lemma vectorization_executor_world:
  assumes "\<And>t u b h w. st (snd (ee_post E t u b h w)) = st w"
  shows "st (snd (vectorization_executor E task dataset d w)) = st w"
proof -
  have sync: "st w2 = st w1"
    if "vectorize_sync E uri target cols model endpoint n key header w1 = (x, w2)" for uri target cols model endpoint n key header w1 x w2
    using vectorize_sync_world [where st = st, OF assms, of uri target cols model endpoint n key header w1] that by simp
  show ?thesis
    by (auto simp: vectorization_executor_def Let_def io_bind_def sync split: sum.splits prod.splits)
qed

lemma mild_auto_build:
  assumes "auto_build_rows uuid now dataset name target itype params d = Inr d'"
  shows "mild d d'"
proof -
  obtain t d1 where t: "fresh_task t" "insert_task t d1 = Inr d'" and
    d1: "insert_index (new_index (ds_uuid dataset) name target itype (if params = [] then None else Some params) now) d = Inr d1"
    using assms by (auto simp: auto_build_rows_def Let_def split: sum.splits) (metis fresh_new_task)
  have "mild d d1"
    by (rule mild_same) (use d1 in \<open>auto simp: insert_index_def intro: wf_insert_index split: if_splits\<close>)
  with mild_insert_task [OF t(2,1)] show ?thesis by (blast intro: mild_trans)
qed

lemma auto_build_mild:
  assumes "maybe_submit_index_build E dataset target extra d = Inr (b, writes)"
  shows "mild x (writes x)"
proof -
  have "writes = no_writes \<or> (\<exists>uuid now name itype params. writes =
      (\<lambda>x. case auto_build_rows uuid now dataset name target itype params x of Inl _ \<Rightarrow> x | Inr x' \<Rightarrow> x'))"
    using assms
    by (auto simp: maybe_submit_index_build_def submit_auto_build_def Let_def
        split: if_split_asm sum.split_asm option.split_asm) blast
  then show ?thesis by (auto split: sum.split intro: mild_auto_build)
qed

lemma embedding_executor_writes:
  assumes "embedding_executor E M task dataset d w = (Inr (p, writes), w')"
  shows "\<exists>target extra b. maybe_submit_index_build E dataset target extra d = Inr (b, writes)"
  using assms
  by (auto simp: embedding_executor_def Let_def io_bind_Inr split: if_split_asm)
    (auto simp: io_bind_Inr Let_def split: option.split_asm if_split_asm prod.split_asm)

interpretation vectorize_exec: lawful_executor "vectorization_executor E" for E
  by unfold_locales (auto dest: vectorization_executor_writes)

interpretation embedding_exec: lawful_executor "embedding_executor E M" for E M
  by unfold_locales (auto dest!: embedding_executor_writes intro: auto_build_mild)

lemma default_executors_tame:
  "default_executors E w ty = Some f \<Longrightarrow> tame f"
  by (auto simp: default_executors_def build_default_registry_def ttl_exec.tame compaction_exec.tame
      build_exec.tame optimize_exec.tame vectorize_exec.tame split: if_split_asm)

end
