(* ===== verification/Planner.thy ===== *)
theory Planner
  imports Scheduler Rules
begin

text \<open>
  The lifecycle planner, \<open>src/lcp/services/lifecycle_planner_service.py\<close>: one pass
  scans the enabled policies and inserts the tasks that are due, deduplicated by an
  idempotency key per policy, task type and time bucket.  A pass runs in one
  transaction: \<open>pl_committed\<close> is what it started from, \<open>pl_work\<close> its uncommitted
  view.  A failed flush rolls the session back, which also expires every loaded
  object, and the next attribute read raises \<open>MissingGreenlet\<close> (the worker's own
  comment describes this); \<open>pl_expired\<close> tracks it.  \<open>uuids n\<close> is the n-th
  \<open>uuid4\<close> of the pass.
\<close>

section \<open>Keys\<close>

definition DEFAULT_DELTA_THRESHOLD :: int where
  "DEFAULT_DELTA_THRESHOLD = 10"

definition idempotency_key :: "nat \<Rightarrow> task_type \<Rightarrow> string \<Rightarrow> string \<Rightarrow> string" where
  "idempotency_key policy_id typ bucket tenant =
     tenant @ '':lifecycle:'' @ dec_nat policy_id @ '':'' @ task_type_str typ @ '':'' @ bucket"

definition auto_optimize_key :: "string \<Rightarrow> string \<Rightarrow> string \<Rightarrow> datetime \<Rightarrow> string" where
  "auto_optimize_key tenant ds name now =
     tenant @ '':auto-optimize:'' @ ds @ ''/'' @ name @ '':'' @ fmt_hour now"

section \<open>One pass\<close>

record pstate =
  pl_committed :: db
  pl_work :: db
  pl_expired :: bool
  pl_fresh :: nat
  pl_emitted :: "string list"
  pl_dups :: nat

definition andthen :: "pstate res \<Rightarrow> (pstate \<Rightarrow> pstate res) \<Rightarrow> pstate res" where
  "andthen m f = (case m of Inl e \<Rightarrow> Inl e | Inr s \<Rightarrow> f s)"

text \<open>Reading an attribute of a loaded object.\<close>

definition live :: "(pstate \<Rightarrow> pstate res) \<Rightarrow> pstate \<Rightarrow> pstate res" where
  "live f s = (if pl_expired s then Inl (OtherError ''MissingGreenlet'') else f s)"

record emission =
  em_key :: string
  em_type :: task_type
  em_dataset :: string
  em_tenant :: string
  em_params :: params

definition emission_task :: "string \<Rightarrow> datetime \<Rightarrow> emission \<Rightarrow> task_row" where
  "emission_task uuid now e =
     new_task uuid (em_type e) (em_dataset e) (em_tenant e) 5 (Some (em_params e))
       (Some (em_key e)) 3 now"

text \<open>Pre-check of the key, INSERT, and the duplicate branch of a failed flush.\<close>

definition emit :: "rls_ctx \<Rightarrow> (nat \<Rightarrow> string) \<Rightarrow> datetime \<Rightarrow> emission \<Rightarrow> pstate \<Rightarrow> pstate res" where
  "emit cx uuids now e s =
     (case select_by_key cx (em_key e) (pl_work s) of
        Inl err \<Rightarrow> Inl err
      | Inr (Some _) \<Rightarrow> Inr (s\<lparr>pl_dups := pl_dups s + 1\<rparr>)
      | Inr None \<Rightarrow>
          let uuid = uuids (pl_fresh s); s1 = s\<lparr>pl_fresh := pl_fresh s + 1\<rparr> in
          case insert_task (emission_task uuid now e) (pl_work s) of
            Inr d' \<Rightarrow> Inr (s1\<lparr>pl_work := d', pl_emitted := pl_emitted s @ [uuid]\<rparr>)
          | Inl _ \<Rightarrow> Inr (s1\<lparr>pl_work := pl_committed s, pl_expired := True,
                             pl_dups := pl_dups s + 1\<rparr>))"

definition try_emit_task ::
  "rls_ctx \<Rightarrow> (nat \<Rightarrow> string) \<Rightarrow> datetime \<Rightarrow> policy_row \<Rightarrow> dataset_row \<Rightarrow> task_type \<Rightarrow> string \<Rightarrow> params
     \<Rightarrow> pstate \<Rightarrow> pstate res" where
  "try_emit_task cx uuids now policy ds typ bucket pars =
     emit cx uuids now
       \<lparr>em_key = idempotency_key (lp_id policy) typ bucket (ds_tenant ds), em_type = typ,
        em_dataset = ds_uuid ds, em_tenant = ds_tenant ds, em_params = pars\<rparr>"

definition opt_str :: "string option \<Rightarrow> string" where
  "opt_str s = (case s of None \<Rightarrow> [] | Some x \<Rightarrow> x)"

definition vectorize_params :: "policy_row \<Rightarrow> rule_row \<Rightarrow> params" where
  "vectorize_params policy rule =
     [(''target_column'', JStr (vr_target_column rule)),
      (''source_columns'', (case vr_source_columns rule of None \<Rightarrow> JNull
                            | Some cs \<Rightarrow> JList (map JStr cs))),
      (''model_name'', JStr (vr_model_name rule)),
      (''model_version'', JStr (vr_model_version rule)),
      (''model_endpoint'', JStr (opt_str (vr_model_endpoint rule))),
      (''batch_size'', JInt (vr_batch_size rule)),
      (''policy_name'', JStr (lp_name policy)),
      (''rule_id'', JInt (int (vr_id rule)))]"

fun for_each :: "('x \<Rightarrow> pstate \<Rightarrow> pstate res) \<Rightarrow> 'x list \<Rightarrow> pstate \<Rightarrow> pstate res" where
  "for_each f [] s = Inr s"
| "for_each f (x # xs) s = andthen (live (f x) s) (for_each f xs)"

definition hot_indexes :: "dataset_row \<Rightarrow> db \<Rightarrow> index_row list" where
  "hot_indexes ds d =
     filter (\<lambda>i. ix_dataset i = ds_uuid ds \<and> ix_status i = IX_READY
               \<and> ix_delta_count i \<ge> DEFAULT_DELTA_THRESHOLD) (indexes d)"

definition emit_auto_optimize ::
  "rls_ctx \<Rightarrow> (nat \<Rightarrow> string) \<Rightarrow> datetime \<Rightarrow> policy_row \<Rightarrow> dataset_row \<Rightarrow> index_row \<Rightarrow> pstate \<Rightarrow> pstate res"
where
  "emit_auto_optimize cx uuids now policy ds idx =
     emit cx uuids now
       \<lparr>em_key = auto_optimize_key (ds_tenant ds) (ds_uuid ds) (ix_name idx) now,
        em_type = INDEX_OPTIMIZE, em_dataset = ds_uuid ds, em_tenant = ds_tenant ds,
        em_params = [(''index_name'', JStr (ix_name idx)), (''policy_name'', JStr (lp_name policy)),
          (''trigger'', JStr ''delta_threshold''), (''delta_count'', JInt (ix_delta_count idx))]\<rparr>"

definition enabled_rules :: "dataset_row \<Rightarrow> db \<Rightarrow> rule_row list" where
  "enabled_rules ds d = filter (\<lambda>r. vr_dataset r = ds_uuid ds \<and> vr_enabled r) (rules d)"

definition stamp_policy :: "datetime \<Rightarrow> policy_row \<Rightarrow> pstate \<Rightarrow> pstate" where
  "stamp_policy now policy s =
     s\<lparr>pl_work := (pl_work s)\<lparr>policies :=
         upd_where (\<lambda>p. lp_id p = lp_id policy) (\<lambda>p. p\<lparr>lp_last_run_at := Some now\<rparr>)
           (policies (pl_work s))\<rparr>\<rparr>"

definition plan_for_policy ::
  "rls_ctx \<Rightarrow> (nat \<Rightarrow> string) \<Rightarrow> datetime \<Rightarrow> policy_row \<Rightarrow> dataset_row \<Rightarrow> pstate \<Rightarrow> pstate res" where
  "plan_for_policy cx uuids now policy ds s0 =
     andthen (live (\<lambda>s. case lp_ttl_days policy of
         None \<Rightarrow> Inr s
       | Some ttl \<Rightarrow> try_emit_task cx uuids now policy ds TTL_DELETE (fmt_day now)
           [(''ttl_days'', JInt ttl), (''policy_name'', JStr (lp_name policy))] s) s0) (\<lambda>s1.
     andthen (live (\<lambda>s. case lp_compaction_threshold policy of
         None \<Rightarrow> Inr s
       | Some [] \<Rightarrow> Inr s
       | Some thr \<Rightarrow> try_emit_task cx uuids now policy ds COMPACTION (fmt_day now)
           [(''threshold'', JObj thr), (''policy_name'', JStr (lp_name policy))] s) s1) (\<lambda>s2.
     andthen (live (\<lambda>s.
         if truthy (lp_index_optimize_cron policy)
         then try_emit_task cx uuids now policy ds INDEX_OPTIMIZE (fmt_hour now)
           [(''cron'', JStr (the (lp_index_optimize_cron policy))),
            (''policy_name'', JStr (lp_name policy))] s
         else Inr s) s2) (\<lambda>s3.
     andthen (live (\<lambda>s.
         if \<not> truthy (lp_index_optimize_cron policy)
         then for_each (emit_auto_optimize cx uuids now policy ds) (hot_indexes ds (pl_work s)) s
         else Inr s) s3) (\<lambda>s4.
     andthen (live (\<lambda>s.
         for_each (\<lambda>rule. try_emit_task cx uuids now policy ds VECTORIZE (fmt_hour now)
             (vectorize_params policy rule)) (enabled_rules ds (pl_work s)) s) s4) (\<lambda>s5.
     Inr (stamp_policy now policy s5))))))"

definition plan_policy ::
  "rls_ctx \<Rightarrow> (nat \<Rightarrow> string) \<Rightarrow> datetime \<Rightarrow> policy_row \<Rightarrow> pstate \<Rightarrow> pstate res" where
  "plan_policy cx uuids now policy s =
     (case rls_rows cx ''dataset'' ds_tenant
             (filter (\<lambda>r. ds_uuid r = lp_dataset policy) (datasets (pl_work s))) of
        Inl e \<Rightarrow> Inl e
      | Inr rs \<Rightarrow>
          (case one_or_none rs of
             Inl e \<Rightarrow> Inl e
           | Inr None \<Rightarrow> Inr s
           | Inr (Some ds) \<Rightarrow> plan_for_policy cx uuids now policy ds s))"

definition fetch_enabled_policies :: "db \<Rightarrow> policy_row list" where
  "fetch_enabled_policies d = sort_key lp_id (filter lp_enabled (policies d))"

record planner_tick =
  pt_scanned :: nat
  pt_emitted :: "string list"
  pt_skipped :: nat

definition plan_once ::
  "rls_ctx \<Rightarrow> (nat \<Rightarrow> string) \<Rightarrow> datetime \<Rightarrow> db \<Rightarrow> planner_tick res \<times> db" where
  "plan_once cx uuids now d =
     (case require_system PlannerNotSystemError cx of
        Inl e \<Rightarrow> (Inl e, d)
      | Inr _ \<Rightarrow>
          let ps = fetch_enabled_policies d;
              s0 = \<lparr>pl_committed = d, pl_work = d, pl_expired = False, pl_fresh = 0,
                    pl_emitted = [], pl_dups = 0\<rparr>
          in case for_each (plan_policy cx uuids now) ps s0 of
               Inl e \<Rightarrow> (Inl e, d)
             | Inr s \<Rightarrow>
                 (Inr \<lparr>pt_scanned = length ps, pt_emitted = pl_emitted s, pt_skipped = pl_dups s\<rparr>,
                  if pl_emitted s \<noteq> [] \<or> pl_dups s > 0 then pl_work s else d))"

interpretation sys_plan: system_only "\<lambda>cx. plan_once cx uuids now" PlannerNotSystemError
  for uuids now
  by unfold_locales (simp add: plan_once_def require_system_def)

section \<open>Reference: the list of emissions that are due\<close>

definition policy_emissions :: "datetime \<Rightarrow> policy_row \<Rightarrow> dataset_row \<Rightarrow> db \<Rightarrow> emission list" where
  "policy_emissions now policy ds d =
     (let item = (\<lambda>typ bucket pars.
            \<lparr>em_key = idempotency_key (lp_id policy) typ bucket (ds_tenant ds), em_type = typ,
             em_dataset = ds_uuid ds, em_tenant = ds_tenant ds, em_params = pars\<rparr>)
      in (case lp_ttl_days policy of None \<Rightarrow> []
          | Some ttl \<Rightarrow> [item TTL_DELETE (fmt_day now)
                 [(''ttl_days'', JInt ttl), (''policy_name'', JStr (lp_name policy))]])
       @ (case lp_compaction_threshold policy of None \<Rightarrow> [] | Some [] \<Rightarrow> []
          | Some thr \<Rightarrow> [item COMPACTION (fmt_day now)
                 [(''threshold'', JObj thr), (''policy_name'', JStr (lp_name policy))]])
       @ (if truthy (lp_index_optimize_cron policy)
          then [item INDEX_OPTIMIZE (fmt_hour now)
                 [(''cron'', JStr (the (lp_index_optimize_cron policy))),
                  (''policy_name'', JStr (lp_name policy))]]
          else map (\<lambda>idx. \<lparr>em_key = auto_optimize_key (ds_tenant ds) (ds_uuid ds) (ix_name idx) now,
                 em_type = INDEX_OPTIMIZE, em_dataset = ds_uuid ds, em_tenant = ds_tenant ds,
                 em_params = [(''index_name'', JStr (ix_name idx)),
                   (''policy_name'', JStr (lp_name policy)), (''trigger'', JStr ''delta_threshold''),
                   (''delta_count'', JInt (ix_delta_count idx))]\<rparr>) (hot_indexes ds d))
       @ map (\<lambda>rule. item VECTORIZE (fmt_hour now) (vectorize_params policy rule)) (enabled_rules ds d))"

definition due_emissions :: "datetime \<Rightarrow> db \<Rightarrow> emission list" where
  "due_emissions now d =
     concat (map (\<lambda>p. case find (\<lambda>r. ds_uuid r = lp_dataset p) (datasets d) of
                        None \<Rightarrow> [] | Some ds \<Rightarrow> policy_emissions now p ds d)
               (fetch_enabled_policies d))"

text \<open>Which of them become tasks: those whose key no task has yet.\<close>

fun emit_spec :: "(nat \<Rightarrow> string) \<Rightarrow> datetime \<Rightarrow> emission list \<Rightarrow> nat \<Rightarrow> task_row list \<Rightarrow> task_row list" where
  "emit_spec uuids now [] n ts = []"
| "emit_spec uuids now (e # es) n ts =
     (if list_ex (\<lambda>t. tk_key t = Some (em_key e)) ts then emit_spec uuids now es n ts
      else emission_task (uuids n) now e
             # emit_spec uuids now es (Suc n) (ts @ [emission_task (uuids n) now e]))"

section \<open>Lemmas\<close>

lemma emission_task_sel [simp]:
  "tk_uuid (emission_task u now e) = u" "tk_key (emission_task u now e) = Some (em_key e)"
  "tk_tenant (emission_task u now e) = em_tenant e" "tk_type (emission_task u now e) = em_type e"
  "fresh_task (emission_task u now e)"
  by (simp_all add: emission_task_def new_task_def fresh_task_def)

lemma emit_spec_append:
  "emit_spec uuids now (xs @ ys) n ts = emit_spec uuids now xs n ts
     @ emit_spec uuids now ys (n + length (emit_spec uuids now xs n ts)) (ts @ emit_spec uuids now xs n ts)"
  by (induction xs arbitrary: n ts) simp_all

lemma emit_spec_length: "length (emit_spec uuids now es n ts) \<le> length es"
proof (induction es arbitrary: n ts)
  case (Cons e es)
  from Cons [of n ts] Cons [of "Suc n" "ts @ [emission_task (uuids n) now e]"] show ?case by simp
qed simp

lemma emit_spec_covers:
  "e \<in> set es \<Longrightarrow> \<exists>t\<in>set (ts @ emit_spec uuids now es n ts). tk_key t = Some (em_key e)"
proof (induction es arbitrary: n ts)
  case (Cons a es)
  show ?case
  proof (cases "list_ex (\<lambda>t. tk_key t = Some (em_key a)) ts")
    case True
    then show ?thesis using Cons by (auto simp: list_ex_iff)
  next
    case False
    have "e = a \<or> e \<in> set es" using Cons.prems by simp
    then show ?thesis
    proof
      assume "e = a"
      then show ?thesis using False by simp
    next
      assume "e \<in> set es"
      from Cons.IH [OF this, of "ts @ [emission_task (uuids n) now a]" "Suc n"]
      show ?thesis using False by auto
    qed
  qed
qed simp

lemma emit_spec_none:
  "(\<And>e. e \<in> set es \<Longrightarrow> \<exists>t\<in>set ts. tk_key t = Some (em_key e)) \<Longrightarrow> emit_spec uuids now es n ts = []"
  by (induction es) (auto simp: list_ex_iff)

lemma emit_spec_from:
  "t \<in> set (emit_spec uuids now es n ts) \<Longrightarrow>
     (\<exists>e\<in>set es. \<exists>m\<ge>n. t = emission_task (uuids m) now e) \<and> (\<forall>s\<in>set ts. tk_key s \<noteq> tk_key t)"
proof (induction es arbitrary: n ts)
  case (Cons a es)
  show ?case
  proof (cases "list_ex (\<lambda>t. tk_key t = Some (em_key a)) ts")
    case True
    then show ?thesis using Cons by auto
  next
    case False
    then have "t = emission_task (uuids n) now a \<or>
        t \<in> set (emit_spec uuids now es (Suc n) (ts @ [emission_task (uuids n) now a]))"
      using Cons.prems by simp
    then show ?thesis
    proof
      assume "t = emission_task (uuids n) now a"
      then show ?thesis using False by (auto simp: list_ex_iff)
    next
      assume "t \<in> set (emit_spec uuids now es (Suc n) (ts @ [emission_task (uuids n) now a]))"
      from Cons.IH [OF this] obtain e m where "e \<in> set es" "Suc n \<le> m"
          "t = emission_task (uuids m) now e" and rest: "\<forall>s\<in>set ts. tk_key s \<noteq> tk_key t"
        by auto
      then have "\<exists>e\<in>set (a # es). \<exists>m\<ge>n. t = emission_task (uuids m) now e"
        by (intro bexI [of _ e] exI [of _ m]) simp_all
      with rest show ?thesis by blast
    qed
  qed
qed simp

text \<open>A pass whose UUIDs are new meets no failed flush; of the policies it only stamps
  \<open>last_run_at\<close>.\<close>

definition erase :: "policy_row \<Rightarrow> policy_row" where
  "erase p = p\<lparr>lp_last_run_at := None\<rparr>"

definition planning :: "(nat \<Rightarrow> string) \<Rightarrow> db \<Rightarrow> pstate \<Rightarrow> bool" where
  "planning uuids d s \<longleftrightarrow>
     \<not> pl_expired s \<and> wf_db (pl_work s) \<and> datasets (pl_work s) = datasets d
   \<and> indexes (pl_work s) = indexes d \<and> rules (pl_work s) = rules d
   \<and> map erase (policies (pl_work s)) = map erase (policies d)
   \<and> (\<forall>t\<in>set (tasks (pl_work s)). \<forall>m\<ge>pl_fresh s. tk_uuid t \<noteq> uuids m)"

definition planned :: "(nat \<Rightarrow> string) \<Rightarrow> datetime \<Rightarrow> emission list \<Rightarrow> pstate \<Rightarrow> pstate \<Rightarrow> bool" where
  "planned uuids now es s s' \<longleftrightarrow>
     (let news = emit_spec uuids now es (pl_fresh s) (tasks (pl_work s))
      in tasks (pl_work s') = tasks (pl_work s) @ news
       \<and> pl_emitted s' = pl_emitted s @ map tk_uuid news
       \<and> pl_fresh s' = pl_fresh s + length news
       \<and> pl_dups s' + length news = pl_dups s + length es)"

lemma planned_nil: "planned uuids now [] s s"
  by (simp add: planned_def)

lemma planned_append:
  assumes "planned uuids now xs s s1" and "planned uuids now ys s1 s2"
  shows "planned uuids now (xs @ ys) s s2"
  using assms by (simp add: planned_def Let_def emit_spec_append)

lemma insert_fresh_task:
  assumes "planning uuids d s" and "\<not> list_ex (\<lambda>t. tk_key t = Some (em_key e)) (tasks (pl_work s))"
  shows "insert_task (emission_task (uuids (pl_fresh s)) now e) (pl_work s)
    = Inr ((pl_work s)\<lparr>tasks := tasks (pl_work s) @ [emission_task (uuids (pl_fresh s)) now e]\<rparr>)"
  using assms by (auto simp: insert_task_def clash_iff uk_defs list_ex_iff planning_def)

lemma emit_ok:
  assumes "is_system cx" and "inj uuids" and "planning uuids d s"
  shows "\<exists>s'. emit cx uuids now e s = Inr s' \<and> planning uuids d s' \<and> planned uuids now [e] s s'"
proof (cases "list_ex (\<lambda>t. tk_key t = Some (em_key e)) (tasks (pl_work s))")
  case True
  then obtain t where t: "t \<in> set (tasks (pl_work s))" "tk_key t = Some (em_key e)"
    by (auto simp: list_ex_iff)
  have "select_by_key cx (em_key e) (pl_work s) = Inr (Some t)"
    by (rule select_by_key_hit) (use t assms in \<open>simp_all add: planning_def\<close>)
  then show ?thesis using True assms(3) by (simp add: emit_def planned_def planning_def)
next
  case False
  then have "filter (\<lambda>t. tk_key t = Some (em_key e)) (tasks (pl_work s)) = []"
    by (auto simp: filter_empty_conv list_ex_iff)
  then have none: "select_by_key cx (em_key e) (pl_work s) = Inr None"
    using assms(1) by (simp add: select_by_key_def rls_task)
  note ins = insert_fresh_task [OF assms(3) False, of now]
  have "wf_db (pl_work s)" using assms(3) by (simp add: planning_def)
  from wf_insert_task [OF this ins]
  show ?thesis
    using none ins False assms(2,3)
    by (auto simp: emit_def planned_def planning_def inj_eq Let_def)
qed

text \<open>Sequencing: \<open>steps f es\<close> says that \<open>f\<close> performs the emissions \<open>es\<close>.\<close>

definition steps :: "(nat \<Rightarrow> string) \<Rightarrow> datetime \<Rightarrow> db \<Rightarrow> (pstate \<Rightarrow> pstate res) \<Rightarrow> emission list \<Rightarrow> bool" where
  "steps uuids now d f es \<longleftrightarrow>
     (\<forall>s. planning uuids d s \<longrightarrow>
        (\<exists>s'. f s = Inr s' \<and> planning uuids d s' \<and> planned uuids now es s s'))"

lemma steps_skip: "steps uuids now d Inr []"
  by (simp add: steps_def planned_nil)

lemma steps_emit:
  "is_system cx \<Longrightarrow> inj uuids \<Longrightarrow> steps uuids now d (emit cx uuids now e) [e]"
  by (simp add: steps_def emit_ok)

lemma steps_live: "steps uuids now d f es \<Longrightarrow> steps uuids now d (live f) es"
  by (simp add: steps_def live_def planning_def)

lemma steps_andthen:
  assumes "steps uuids now d f xs" and "steps uuids now d g ys"
  shows "steps uuids now d (\<lambda>s. andthen (f s) g) (xs @ ys)"
  unfolding steps_def
proof (intro allI impI)
  fix s assume s: "planning uuids d s"
  from assms(1) s obtain s1 where s1: "f s = Inr s1" "planning uuids d s1" "planned uuids now xs s s1"
    unfolding steps_def by blast
  from assms(2) s1(2) obtain s2 where s2: "g s1 = Inr s2" "planning uuids d s2" "planned uuids now ys s1 s2"
    unfolding steps_def by blast
  show "\<exists>s'. andthen (f s) g = Inr s' \<and> planning uuids d s' \<and> planned uuids now (xs @ ys) s s'"
    using s1(1) s2 planned_append [OF s1(3) s2(3)] by (simp add: andthen_def)
qed

lemma steps_for_each:
  assumes "\<And>x. x \<in> set xs \<Longrightarrow> steps uuids now d (f x) (g x)"
  shows "steps uuids now d (for_each f xs) (concat (map g xs))"
  using assms
proof (induction xs)
  case Nil
  have "for_each f [] = Inr" by (rule ext) simp
  then show ?case by (simp add: steps_skip)
next
  case (Cons x xs)
  have "for_each f (x # xs) = (\<lambda>s. andthen (live (f x) s) (for_each f xs))" by (rule ext) simp
  then show ?case
    using steps_andthen [OF steps_live Cons.IH] Cons.prems by simp
qed

lemma steps_cong: "f = g \<Longrightarrow> steps uuids now d g es \<Longrightarrow> steps uuids now d f es"
  by simp

text \<open>What a step reads from its own view is what the pass started from.\<close>

lemma steps_view:
  assumes "\<And>s. planning uuids d s \<Longrightarrow> f s = g s" and "steps uuids now d g es"
  shows "steps uuids now d f es"
  using assms by (simp add: steps_def)

lemma steps_stamp: "steps uuids now d (\<lambda>s. Inr (stamp_policy now' policy s)) []"
proof -
  have "wf_db (d0\<lparr>policies := upd_where (\<lambda>p. lp_id p = lp_id policy) (\<lambda>p. p\<lparr>lp_last_run_at := Some now'\<rparr>)
      (policies d0)\<rparr>)" if "wf_db d0" for d0
    by (rule wf_upd_policies [OF that]) (simp add: uk_defs)
  moreover have "map erase (upd_where P (\<lambda>p. p\<lparr>lp_last_run_at := Some now'\<rparr>) ps) = map erase ps" for P ps
    by (rule map_upd_where) (simp add: erase_def)
  ultimately show ?thesis by (simp add: steps_def planning_def planned_def stamp_policy_def)
qed

definition auto_emission :: "datetime \<Rightarrow> policy_row \<Rightarrow> dataset_row \<Rightarrow> index_row \<Rightarrow> emission" where
  "auto_emission now policy ds idx =
     \<lparr>em_key = auto_optimize_key (ds_tenant ds) (ds_uuid ds) (ix_name idx) now,
      em_type = INDEX_OPTIMIZE, em_dataset = ds_uuid ds, em_tenant = ds_tenant ds,
      em_params = [(''index_name'', JStr (ix_name idx)), (''policy_name'', JStr (lp_name policy)),
        (''trigger'', JStr ''delta_threshold''), (''delta_count'', JInt (ix_delta_count idx))]\<rparr>"

definition rule_emission :: "datetime \<Rightarrow> policy_row \<Rightarrow> dataset_row \<Rightarrow> rule_row \<Rightarrow> emission" where
  "rule_emission now policy ds rule =
     \<lparr>em_key = idempotency_key (lp_id policy) VECTORIZE (fmt_hour now) (ds_tenant ds),
      em_type = VECTORIZE, em_dataset = ds_uuid ds, em_tenant = ds_tenant ds,
      em_params = vectorize_params policy rule\<rparr>"

lemma concat_map_single: "concat (map (\<lambda>x. [f x]) xs) = map f xs"
  by (induction xs) simp_all

lemma steps_auto:
  assumes "is_system cx" and "inj uuids"
  shows "steps uuids now d
      (\<lambda>s. for_each (emit_auto_optimize cx uuids now policy ds) (hot_indexes ds (pl_work s)) s)
      (map (auto_emission now policy ds) (hot_indexes ds d))"
proof (rule steps_view)
  show "for_each (emit_auto_optimize cx uuids now policy ds) (hot_indexes ds (pl_work s)) s
      = for_each (emit_auto_optimize cx uuids now policy ds) (hot_indexes ds d) s"
    if "planning uuids d s" for s using that by (simp add: planning_def hot_indexes_def)
  have "emit_auto_optimize cx uuids now policy ds idx = emit cx uuids now (auto_emission now policy ds idx)"
    for idx unfolding emit_auto_optimize_def auto_emission_def ..
  then show "steps uuids now d (for_each (emit_auto_optimize cx uuids now policy ds) (hot_indexes ds d))
      (map (auto_emission now policy ds) (hot_indexes ds d))"
    using steps_for_each [of "hot_indexes ds d" uuids now d "emit_auto_optimize cx uuids now policy ds"
        "\<lambda>i. [auto_emission now policy ds i]"] steps_emit [OF assms]
    by (simp add: concat_map_single)
qed

lemma steps_rules:
  assumes "is_system cx" and "inj uuids"
  shows "steps uuids now d
      (\<lambda>s. for_each (\<lambda>rule. try_emit_task cx uuids now policy ds VECTORIZE (fmt_hour now)
             (vectorize_params policy rule)) (enabled_rules ds (pl_work s)) s)
      (map (rule_emission now policy ds) (enabled_rules ds d))"
proof (rule steps_view)
  let ?f = "\<lambda>rule. try_emit_task cx uuids now policy ds VECTORIZE (fmt_hour now) (vectorize_params policy rule)"
  show "for_each ?f (enabled_rules ds (pl_work s)) s = for_each ?f (enabled_rules ds d) s"
    if "planning uuids d s" for s using that by (simp add: planning_def enabled_rules_def)
  have "?f rule = emit cx uuids now (rule_emission now policy ds rule)" for rule
    unfolding try_emit_task_def rule_emission_def ..
  then show "steps uuids now d (for_each ?f (enabled_rules ds d))
      (map (rule_emission now policy ds) (enabled_rules ds d))"
    using steps_for_each [of "enabled_rules ds d" uuids now d ?f "\<lambda>r. [rule_emission now policy ds r]"]
      steps_emit [OF assms] by (simp add: concat_map_single)
qed

lemma steps_if: "(b \<Longrightarrow> steps uuids now d f xs) \<Longrightarrow> (\<not> b \<Longrightarrow> steps uuids now d g ys) \<Longrightarrow>
    steps uuids now d (\<lambda>s. if b then f s else g s) (if b then xs else ys)"
  by simp

lemma steps_plan_for_policy:
  assumes "is_system cx" and "inj uuids"
  shows "steps uuids now d (plan_for_policy cx uuids now policy ds) (policy_emissions now policy ds d)"
proof -
  define item where "item ty bucket pars =
      \<lparr>em_key = idempotency_key (lp_id policy) ty bucket (ds_tenant ds), em_type = ty,
       em_dataset = ds_uuid ds, em_tenant = ds_tenant ds, em_params = pars\<rparr>" for ty bucket pars
  have one: "steps uuids now d (try_emit_task cx uuids now policy ds ty bucket pars) [item ty bucket pars]"
    for ty bucket pars unfolding try_emit_task_def item_def by (rule steps_emit [OF assms])
  note skip = steps_skip [of uuids now d]
  have ttl: "steps uuids now d (\<lambda>s. case lp_ttl_days policy of None \<Rightarrow> Inr s
       | Some ttl \<Rightarrow> try_emit_task cx uuids now policy ds TTL_DELETE (fmt_day now)
           [(''ttl_days'', JInt ttl), (''policy_name'', JStr (lp_name policy))] s)
      (case lp_ttl_days policy of None \<Rightarrow> []
          | Some ttl \<Rightarrow> [item TTL_DELETE (fmt_day now)
                 [(''ttl_days'', JInt ttl), (''policy_name'', JStr (lp_name policy))]])"
    by (cases "lp_ttl_days policy") (simp_all add: one skip)
  have comp: "steps uuids now d (\<lambda>s. case lp_compaction_threshold policy of None \<Rightarrow> Inr s | Some [] \<Rightarrow> Inr s
       | Some thr \<Rightarrow> try_emit_task cx uuids now policy ds COMPACTION (fmt_day now)
           [(''threshold'', JObj thr), (''policy_name'', JStr (lp_name policy))] s)
      (case lp_compaction_threshold policy of None \<Rightarrow> [] | Some [] \<Rightarrow> []
          | Some thr \<Rightarrow> [item COMPACTION (fmt_day now)
                 [(''threshold'', JObj thr), (''policy_name'', JStr (lp_name policy))]])"
    by (cases "lp_compaction_threshold policy") (simp_all add: one skip split: list.split)
  define cron_items where "cron_items = (if truthy (lp_index_optimize_cron policy)
      then [item INDEX_OPTIMIZE (fmt_hour now) [(''cron'', JStr (the (lp_index_optimize_cron policy))),
             (''policy_name'', JStr (lp_name policy))]] else [])"
  define auto_items where "auto_items = (if \<not> truthy (lp_index_optimize_cron policy)
      then map (auto_emission now policy ds) (hot_indexes ds d) else [])"
  have cron: "steps uuids now d (\<lambda>s. if truthy (lp_index_optimize_cron policy)
         then try_emit_task cx uuids now policy ds INDEX_OPTIMIZE (fmt_hour now)
           [(''cron'', JStr (the (lp_index_optimize_cron policy))), (''policy_name'', JStr (lp_name policy))] s
         else Inr s) cron_items"
    unfolding cron_items_def by (rule steps_if [OF one skip])
  have auto: "steps uuids now d (\<lambda>s. if \<not> truthy (lp_index_optimize_cron policy)
         then for_each (emit_auto_optimize cx uuids now policy ds) (hot_indexes ds (pl_work s)) s
         else Inr s) auto_items"
    unfolding auto_items_def by (rule steps_if [OF steps_auto [OF assms] skip])
  have emissions: "policy_emissions now policy ds d =
      (case lp_ttl_days policy of None \<Rightarrow> []
          | Some ttl \<Rightarrow> [item TTL_DELETE (fmt_day now)
                 [(''ttl_days'', JInt ttl), (''policy_name'', JStr (lp_name policy))]])
    @ (case lp_compaction_threshold policy of None \<Rightarrow> [] | Some [] \<Rightarrow> []
          | Some thr \<Rightarrow> [item COMPACTION (fmt_day now)
                 [(''threshold'', JObj thr), (''policy_name'', JStr (lp_name policy))]])
    @ cron_items @ auto_items @ map (rule_emission now policy ds) (enabled_rules ds d) @ []"
    by (simp add: policy_emissions_def item_def cron_items_def auto_items_def auto_emission_def
        rule_emission_def Let_def split: option.split list.split)
  show ?thesis unfolding emissions
    by (rule steps_cong [OF _ steps_andthen [OF steps_live [OF ttl] steps_andthen [OF steps_live [OF comp]
        steps_andthen [OF steps_live [OF cron] steps_andthen [OF steps_live [OF auto]
        steps_andthen [OF steps_live [OF steps_rules [OF assms]]
          steps_stamp [of uuids now d now policy]]]]]]])
      (rule ext, simp only: plan_for_policy_def)
qed

lemma dataset_lookup:
  assumes "wf_db d"
  shows "one_or_none (filter (\<lambda>r. ds_uuid r = u) (datasets d)) = Inr (find (\<lambda>r. ds_uuid r = u) (datasets d))"
proof (rule one_or_none_key)
  have "List.map_filter uk_dataset_uuid rs = map ds_uuid rs" for rs
    by (induction rs) (simp_all add: List.map_filter_simps uk_dataset_uuid_def)
  then show "distinct (map ds_uuid (datasets d))"
    using assms by (simp add: wf_db_def unique_on_def)
qed

lemma steps_plan_policy:
  assumes "is_system cx" and "inj uuids" and "wf_db d"
  shows "steps uuids now d (plan_policy cx uuids now policy)
    (case find (\<lambda>r. ds_uuid r = lp_dataset policy) (datasets d) of
       None \<Rightarrow> [] | Some ds \<Rightarrow> policy_emissions now policy ds d)"
proof (rule steps_view)
  show "plan_policy cx uuids now policy s =
      (case find (\<lambda>r. ds_uuid r = lp_dataset policy) (datasets d) of
         None \<Rightarrow> Inr s | Some ds \<Rightarrow> plan_for_policy cx uuids now policy ds s)" if "planning uuids d s" for s
  proof -
    have "datasets (pl_work s) = datasets d" using that by (simp add: planning_def)
    then show ?thesis
      using assms(1) dataset_lookup [OF assms(3)]
      by (simp add: plan_policy_def rls_dataset split: option.split)
  qed
  show "steps uuids now d (\<lambda>s. case find (\<lambda>r. ds_uuid r = lp_dataset policy) (datasets d) of
         None \<Rightarrow> Inr s | Some ds \<Rightarrow> plan_for_policy cx uuids now policy ds s)
      (case find (\<lambda>r. ds_uuid r = lp_dataset policy) (datasets d) of
         None \<Rightarrow> [] | Some ds \<Rightarrow> policy_emissions now policy ds d)"
    by (cases "find (\<lambda>r. ds_uuid r = lp_dataset policy) (datasets d)")
      (simp_all add: steps_skip steps_plan_for_policy assms(1,2))
qed

definition fresh_uuids :: "(nat \<Rightarrow> string) \<Rightarrow> db \<Rightarrow> bool" where
  "fresh_uuids uuids d \<longleftrightarrow> inj uuids \<and> (\<forall>t\<in>set (tasks d). \<forall>n. tk_uuid t \<noteq> uuids n)"

text \<open>A pass does exactly the due emissions whose key is still free.\<close>

lemma plan_once_spec:
  fixes now :: datetime
  assumes "wf_db d" and "is_system cx" and "fresh_uuids uuids d"
  defines "due \<equiv> due_emissions now d"
  defines "news \<equiv> emit_spec uuids now due 0 (tasks d)"
  obtains d' where "plan_once cx uuids now d =
       (Inr \<lparr>pt_scanned = length (fetch_enabled_policies d), pt_emitted = map tk_uuid news,
              pt_skipped = length due - length news\<rparr>, d')"
    and "tasks d' = tasks d @ news" and "wf_db d'" and "datasets d' = datasets d"
    and "indexes d' = indexes d" and "rules d' = rules d"
    and "map erase (policies d') = map erase (policies d)"
proof -
  define s0 where "s0 = \<lparr>pl_committed = d, pl_work = d, pl_expired = False, pl_fresh = 0,
                    pl_emitted = [], pl_dups = 0\<rparr>"
  have s0: "planning uuids d s0" using assms(1,3) by (simp add: planning_def s0_def fresh_uuids_def)
  have "steps uuids now d (for_each (plan_policy cx uuids now) (fetch_enabled_policies d)) due"
    unfolding due_def due_emissions_def
    by (rule steps_for_each) (use assms in \<open>simp add: steps_plan_policy fresh_uuids_def\<close>)
  with s0 obtain s where run: "for_each (plan_policy cx uuids now) (fetch_enabled_policies d) s0 = Inr s"
    and s: "planning uuids d s" and pl: "planned uuids now due s0 s"
    unfolding steps_def by blast
  have news: "tasks (pl_work s) = tasks d @ news" "pl_emitted s = map tk_uuid news"
    "pl_dups s + length news = length due"
    using pl by (simp_all add: planned_def s0_def news_def Let_def)
  define d' where "d' = (if pl_emitted s \<noteq> [] \<or> pl_dups s > 0 then pl_work s else d)"
  have "plan_once cx uuids now d = (Inr \<lparr>pt_scanned = length (fetch_enabled_policies d),
      pt_emitted = map tk_uuid news, pt_skipped = length due - length news\<rparr>, d')"
    using assms(2) run news by (simp add: plan_once_def require_system_iff s0_def d'_def Let_def)
  moreover have "tasks d' = tasks d @ news" using news by (auto simp: d'_def)
  moreover have "wf_db d'" "datasets d' = datasets d" "indexes d' = indexes d" "rules d' = rules d"
    "map erase (policies d') = map erase (policies d)"
    using s assms(1) by (auto simp: d'_def planning_def)
  ultimately show thesis by (rule that)
qed

text \<open>What is due depends on the policies only up to \<open>last_run_at\<close>, and on the time only
  through its day and hour.\<close>

lemma map_sort_key_erase: "map erase (sort_key lp_id ps) = sort_key lp_id (map erase ps)"
proof -
  have "map erase (insort_key lp_id p ps) = insort_key lp_id (erase p) (map erase ps)" for p ps
    by (induction ps) (simp_all add: erase_def)
  then show ?thesis by (induction ps) (simp_all add: sort_key_def)
qed

lemma fetch_erase:
  "map erase (fetch_enabled_policies d) = sort_key lp_id (filter lp_enabled (map erase (policies d)))"
proof -
  have "map erase (filter lp_enabled ps) = filter lp_enabled (map erase ps)" for ps
    by (induction ps) (simp_all add: erase_def)
  then show ?thesis by (simp add: fetch_enabled_policies_def map_sort_key_erase)
qed

lemma emissions_erase:
  assumes "fmt_day now' = fmt_day now" and "fmt_hour now' = fmt_hour now"
    and "indexes d' = indexes d" and "rules d' = rules d"
  shows "policy_emissions now' (erase p) ds d' = policy_emissions now p ds d"
  using assms
  by (simp add: policy_emissions_def erase_def vectorize_params_def auto_optimize_key_def hot_indexes_def
      enabled_rules_def Let_def split: option.split list.split)

lemma due_erase:
  assumes "fmt_day now' = fmt_day now" and "fmt_hour now' = fmt_hour now"
    and "datasets d' = datasets d" and "indexes d' = indexes d" and "rules d' = rules d"
    and "map erase (policies d') = map erase (policies d)"
  shows "due_emissions now' d' = due_emissions now d"
proof -
  define g where "g n x p = (case find (\<lambda>r. ds_uuid r = lp_dataset p) (datasets x) of
                        None \<Rightarrow> [] | Some ds \<Rightarrow> policy_emissions n p ds x)" for n x p
  have g: "g now' d' (erase p) = g now d p" "g now d (erase p) = g now d p" for p
    using emissions_erase [OF assms(1,2,4,5)] emissions_erase [of now now d d] assms(3)
    by (simp_all add: g_def erase_def split: option.split)
  have gd: "g now' d' p = g now' d' (erase p)" for p
    using emissions_erase [of now' now' d' d'] by (simp add: g_def erase_def split: option.split)
  have "due_emissions now' d' = concat (map (g now' d') (map erase (fetch_enabled_policies d')))"
    unfolding due_emissions_def g_def [symmetric] using gd by (simp add: comp_def)
  also have "\<dots> = concat (map (g now' d') (map erase (fetch_enabled_policies d)))"
    by (simp only: fetch_erase assms(6))
  also have "\<dots> = due_emissions now d"
    unfolding due_emissions_def g_def [symmetric] by (simp add: comp_def g)
  finally show ?thesis .
qed

section \<open>Properties\<close>

text \<open>C18: what one planner pass does.  Under the system principal, on a well-formed store and with
  new UUIDs, a pass appends exactly one PENDING task per due emission whose idempotency key no
  task has yet, in order, reports exactly their UUIDs and counts the rest as duplicates, leaves
  every existing task as it is, and of the policies changes nothing but \<open>last_run_at\<close>.\<close>

theorem planner_pass_exact:
  assumes "wf_db d" and "is_system cx" and "fresh_uuids uuids d"
  shows "\<exists>d'. plan_once cx uuids now d =
       (Inr \<lparr>pt_scanned = length (filter lp_enabled (policies d)),
             pt_emitted = map tk_uuid (emit_spec uuids now (due_emissions now d) 0 (tasks d)),
             pt_skipped = length (due_emissions now d)
               - length (emit_spec uuids now (due_emissions now d) 0 (tasks d))\<rparr>, d')
    \<and> tasks d' = tasks d @ emit_spec uuids now (due_emissions now d) 0 (tasks d)
    \<and> wf_db d' \<and> datasets d' = datasets d \<and> indexes d' = indexes d \<and> rules d' = rules d
    \<and> map erase (policies d') = map erase (policies d)"
proof -
  from plan_once_spec [OF assms, of now] obtain d' where
    "plan_once cx uuids now d = (Inr \<lparr>pt_scanned = length (fetch_enabled_policies d),
       pt_emitted = map tk_uuid (emit_spec uuids now (due_emissions now d) 0 (tasks d)),
       pt_skipped = length (due_emissions now d)
         - length (emit_spec uuids now (due_emissions now d) 0 (tasks d))\<rparr>, d')"
    "tasks d' = tasks d @ emit_spec uuids now (due_emissions now d) 0 (tasks d)"
    "wf_db d'" "datasets d' = datasets d" "indexes d' = indexes d" "rules d' = rules d"
    "map erase (policies d') = map erase (policies d)" by blast
  then show ?thesis by (simp add: fetch_enabled_policies_def)
qed

definition uuids0 :: "nat \<Rightarrow> string" where
  "uuids0 n = ''u'' @ dec_nat n"

lemma inj_uuids0: "inj uuids0"
  by (rule injI) (simp add: uuids0_def)

theorem planner_pass_exact_witness:
  "\<exists>d'. plan_once system_cx uuids0 t0 policies0 =
       (Inr \<lparr>pt_scanned = 1, pt_emitted = [''u0''], pt_skipped = 0\<rparr>, d')
    \<and> map tk_type (tasks d') = [TTL_DELETE]"
proof -
  have due: "due_emissions t0 policies0 = [\<lparr>em_key = idempotency_key 1 TTL_DELETE (fmt_day t0) ''acme'',
      em_type = TTL_DELETE, em_dataset = ''u1'', em_tenant = ''acme'',
      em_params = [(''ttl_days'', JInt 7), (''policy_name'', JStr ''p'')]\<rparr>]"
    by (simp add: due_emissions_def fetch_enabled_policies_def policy_emissions_def policy0_def new_policy_def
        policy_request0_def truthy_def hot_indexes_def enabled_rules_def policies0_def)
  have u0: "uuids0 0 = ''u0''" by (simp add: uuids0_def dec_nat.simps digit_def char_of_def bit_0)
  have fresh: "fresh_uuids uuids0 policies0" by (simp add: fresh_uuids_def inj_uuids0)
  from planner_pass_exact [OF policies0(4) fleet0(4) fresh, of t0] show ?thesis
    by (auto simp: due u0)
qed

text \<open>C19: planning is idempotent within the hour.  A second pass in the same day and hour, with
  whatever UUIDs, over the store the first one left, emits nothing, leaves the tasks as they
  are and counts every due emission as a duplicate.\<close>

theorem planner_idempotent:
  assumes "wf_db d" and "is_system cx" and "fresh_uuids uuids d"
    and "plan_once cx uuids now d = (r, d1)" and "fresh_uuids uuids' d1"
    and "wf_dt now" and "wf_dt now'" and "dt_hour now' = dt_hour now"
    and "dt_year now' = dt_year now" and "dt_month now' = dt_month now" and "dt_day now' = dt_day now"
  shows "\<exists>d2. plan_once cx uuids' now' d1 =
      (Inr \<lparr>pt_scanned = length (filter lp_enabled (policies d)), pt_emitted = [],
             pt_skipped = length (due_emissions now d)\<rparr>, d2) \<and> tasks d2 = tasks d1"
proof -
  from plan_once_spec [OF assms(1-3), of now] obtain d' where d': "plan_once cx uuids now d =
       (Inr \<lparr>pt_scanned = length (fetch_enabled_policies d),
             pt_emitted = map tk_uuid (emit_spec uuids now (due_emissions now d) 0 (tasks d)),
             pt_skipped = length (due_emissions now d)
               - length (emit_spec uuids now (due_emissions now d) 0 (tasks d))\<rparr>, d')"
    "tasks d' = tasks d @ emit_spec uuids now (due_emissions now d) 0 (tasks d)" "wf_db d'"
    "datasets d' = datasets d" "indexes d' = indexes d" "rules d' = rules d"
    "map erase (policies d') = map erase (policies d)" by blast
  have d1: "d1 = d'" using assms(4) d'(1) by simp
  have day: "fmt_day now' = fmt_day now" using assms(6,7,9-11) fmt_day_eq_iff by blast
  have hour: "fmt_hour now' = fmt_hour now" using assms(6-8) day fmt_hour_eq_iff by blast
  have due: "due_emissions now' d1 = due_emissions now d"
    unfolding d1 by (rule due_erase [OF day hour d'(4-7)])
  have "emit_spec uuids' now' (due_emissions now' d1) 0 (tasks d1) = []"
    unfolding due by (rule emit_spec_none) (simp only: d1 d'(2) emit_spec_covers)
  moreover have "length (fetch_enabled_policies d1) = length (filter lp_enabled (policies d))"
  proof -
    have "length (map erase (fetch_enabled_policies d1)) = length (map erase (fetch_enabled_policies d))"
      by (simp only: fetch_erase d1 d'(7))
    then show ?thesis by (simp add: fetch_enabled_policies_def)
  qed
  moreover obtain d2 where "plan_once cx uuids' now' d1 =
       (Inr \<lparr>pt_scanned = length (fetch_enabled_policies d1),
             pt_emitted = map tk_uuid (emit_spec uuids' now' (due_emissions now' d1) 0 (tasks d1)),
             pt_skipped = length (due_emissions now' d1)
               - length (emit_spec uuids' now' (due_emissions now' d1) 0 (tasks d1))\<rparr>, d2)"
    "tasks d2 = tasks d1 @ emit_spec uuids' now' (due_emissions now' d1) 0 (tasks d1)"
    using plan_once_spec [OF _ assms(2,5), of now'] d'(3) d1 by blast
  ultimately show ?thesis using due by simp
qed

definition uuids1 :: "nat \<Rightarrow> string" where
  "uuids1 n = ''v'' @ dec_nat n"

theorem planner_idempotent_witness:
  "\<exists>d2. plan_once system_cx uuids1 t0 (snd (plan_once system_cx uuids0 t0 policies0)) =
      (Inr \<lparr>pt_scanned = length (filter lp_enabled (policies policies0)), pt_emitted = [],
             pt_skipped = length (due_emissions t0 policies0)\<rparr>, d2)
    \<and> tasks d2 = tasks (snd (plan_once system_cx uuids0 t0 policies0))"
proof -
  let ?d1 = "snd (plan_once system_cx uuids0 t0 policies0)"
  have fresh: "fresh_uuids uuids0 policies0" by (simp add: fresh_uuids_def inj_uuids0)
  from plan_once_spec [OF policies0(4) fleet0(4) fresh, of t0]
  have "tasks ?d1 = tasks policies0 @ emit_spec uuids0 t0 (due_emissions t0 policies0) 0 (tasks policies0)"
    by (metis snd_conv)
  then have "\<exists>e m. t = emission_task (uuids0 m) t0 e" if "t \<in> set (tasks ?d1)" for t
    using that emit_spec_from by fastforce
  then have "tk_uuid t \<noteq> uuids1 n" if "t \<in> set (tasks ?d1)" for t n
    using that by (fastforce simp: uuids0_def uuids1_def)
  then have fresh1: "fresh_uuids uuids1 ?d1" by (auto simp: fresh_uuids_def uuids1_def intro!: injI)
  have "wf_dt t0" by (simp add: wf_dt_def t0_def DT_def)
  from planner_idempotent [OF policies0(4) fleet0(4) fresh surjective_pairing fresh1 this this]
  show ?thesis by blast
qed

text \<open>Planner keys fit their column.  For a tenant id of at most 64 characters, a BIGINT policy
  id and a date Python can represent, the key of every task type the planner emits per policy is
  at most 128 characters long, the size of \<open>task.idempotency_key\<close>.\<close>

theorem planner_key_fits:
  assumes "length tenant \<le> 64" and "i < 2 ^ 63" and "wf_dt now"
    and "typ \<in> {TTL_DELETE, COMPACTION, INDEX_OPTIMIZE, VECTORIZE}"
  shows "length (idempotency_key i typ (fmt_day now) tenant) \<le> 128
       \<and> length (idempotency_key i typ (fmt_hour now) tenant) \<le> 128"
proof -
  have "i < 10 ^ Suc 18" using assms(2) by simp
  then have "length (dec_nat i) \<le> 19" using dec_nat_Suc_len [of i 18] by simp
  moreover have "length (task_type_str typ) \<le> 14" using assms(4) by auto
  ultimately show ?thesis
    using assms(1) by (simp add: idempotency_key_def length_fmt_day [OF assms(3)] length_fmt_hour [OF assms(3)])
qed

theorem planner_key_fits_witness:
  "length (idempotency_key 7 VECTORIZE (fmt_day t0) ''acme'') \<le> 128
 \<and> length (idempotency_key 7 VECTORIZE (fmt_hour t0) ''acme'') \<le> 128"
  by (rule planner_key_fits) (simp_all add: wf_dt_def t0_def DT_def)

text \<open>Planner keys identify their origin.  Two planner keys are equal only if tenant, policy,
  task type and time bucket all are, even when a tenant id contains the separator; so tasks of
  different tenants, policies or buckets never suppress each other.\<close>

theorem planner_key_injective:
  assumes "CHR '':'' \<notin> set bucket" and "CHR '':'' \<notin> set bucket'"
  shows "idempotency_key i typ bucket tenant = idempotency_key i' typ' bucket' tenant'
     \<longleftrightarrow> i = i' \<and> typ = typ' \<and> bucket = bucket' \<and> tenant = tenant'"
proof -
  have ty: "CHR '':'' \<notin> set (task_type_str x)" "task_type_str x = task_type_str y \<longleftrightarrow> x = y" for x y
    by (cases x; cases y; simp)+
  have shape: "idempotency_key j x b t = (((t @ '':lifecycle'') @ CHR '':'' # dec_nat j) @ CHR '':'' # task_type_str x)
      @ CHR '':'' # b" for j x b t
    by (simp add: idempotency_key_def)
  show ?thesis
    unfolding shape colon_sep_right [OF assms] colon_sep_right [OF ty(1) ty(1)]
      colon_sep_right [OF dec_nat_no_colon dec_nat_no_colon]
    by (auto simp: ty(2))
qed

theorem planner_key_injective_witness:
  "idempotency_key 1 COMPACTION (fmt_day t0) ''a:lifecycle:1'' = idempotency_key 1 COMPACTION (fmt_day t0) ''a''
     \<longleftrightarrow> (1::nat) = 1 \<and> COMPACTION = COMPACTION \<and> fmt_day t0 = fmt_day t0 \<and> ''a:lifecycle:1'' = ''a''"
  by (rule planner_key_injective) (rule fmt_day_no_colon)+

end
