(* ===== verification/Watcher.thy ===== *)
theory Watcher
  imports Planner Indexes "HOL-Library.Char_ord" "HOL-Library.List_Lexorder"
begin

text \<open>
  The event-driven index watcher, \<open>src/lcp/services/index_watcher_service.py\<close>: the
  pure decision over the three signals and the pass that reads live statistics of every
  watched READY index and enqueues \<open>INDEX_OPTIMIZE\<close> tasks.  Reading the statistics
  (Lance) is the parameter \<open>read_stats\<close>, given the position of the call; durations
  are exact rationals where the code divides floats.  The session is treated as in the
  planner: a failed flush rolls the pass back and expires the loaded objects.
\<close>

section \<open>The decision\<close>

datatype trigger_reason = UnindexedRows | VersionDrift | Stale

fun reason_str :: "trigger_reason \<Rightarrow> string" where
  "reason_str UnindexedRows = ''unindexed_rows''"
| "reason_str VersionDrift = ''version_drift''"
| "reason_str Stale = ''stale''"

record trigger_decision =
  td_reason :: "trigger_reason option"
  td_unindexed :: "int option"
  td_drift :: int
  td_stale :: rat

definition at_least :: "int option \<Rightarrow> int option \<Rightarrow> bool" where
  "at_least v threshold =
     (case (v, threshold) of (Some x, Some t) \<Rightarrow> x \<ge> t | _ \<Rightarrow> False)"

definition decide_trigger ::
  "int option \<Rightarrow> int \<Rightarrow> int option \<Rightarrow> datetime option \<Rightarrow> datetime \<Rightarrow> policy_row \<Rightarrow> trigger_decision" where
  "decide_trigger unindexed latest seen optimized now policy =
     (let seen_version = (case seen of None \<Rightarrow> 0 | Some v \<Rightarrow> v);
          drift = max 0 (latest - seen_version);
          stale_min = (case optimized of None \<Rightarrow> 0
                       | Some t \<Rightarrow> rat_of_int (dt_us now - dt_us t) / 60000000);
          decision = (\<lambda>r. \<lparr>td_reason = r, td_unindexed = unindexed, td_drift = drift,
                            td_stale = stale_min\<rparr>)
      in if at_least unindexed (lp_min_unindexed_rows policy) then decision (Some UnindexedRows)
         else if at_least (Some drift) (lp_min_version_drift policy) then decision (Some VersionDrift)
         else if (case lp_stale_minutes policy of None \<Rightarrow> False
                  | Some m \<Rightarrow> optimized \<noteq> None \<and> stale_min \<ge> rat_of_int m)
         then decision (Some Stale)
         else decision None)"

section \<open>The pass\<close>

record live_stats =
  st_unindexed :: "int option"
  st_latest :: int

record watch_report =
  wr_scanned :: nat
  wr_enqueued :: nat
  wr_no_dataset :: nat
  wr_below :: nat
  wr_open_failed :: nat
  wr_idempotent :: nat
  wr_keys :: "string list"

definition empty_report :: watch_report where
  "empty_report = \<lparr>wr_scanned = 0, wr_enqueued = 0, wr_no_dataset = 0, wr_below = 0,
     wr_open_failed = 0, wr_idempotent = 0, wr_keys = []\<rparr>"

record wstate =
  ws_committed :: db
  ws_work :: db
  ws_expired :: bool
  ws_fresh :: nat
  ws_report :: watch_report

definition require_watcher_system :: "rls_ctx \<Rightarrow> unit res" where
  "require_watcher_system cx =
     (case get_current_tenant (cx_principal cx) of
        None \<Rightarrow> Inl WatcherNotSystemError
      | Some p \<Rightarrow> if \<not> p_is_system p then Inl WatcherNotSystemError else Inr ())"

text \<open>The inner join; an index occurs once per enabled watching policy of its dataset.\<close>

definition fetch_candidates :: "rls_ctx \<Rightarrow> db \<Rightarrow> (index_row \<times> dataset_row \<times> policy_row) list res" where
  "fetch_candidates cx d =
     (case rls_rows cx ''dataset'' ds_tenant (datasets d) of
        Inl e \<Rightarrow> Inl e
      | Inr dss \<Rightarrow>
          Inr (sort_key (\<lambda>(i, _, _). (ix_dataset i, ix_name i))
            (concat (map (\<lambda>i. concat (map (\<lambda>ds.
               map (\<lambda>p. (i, ds, p))
                 (filter (\<lambda>p. lp_dataset p = ix_dataset i \<and> lp_enabled p \<and> lp_watch_enabled p)
                    (policies d)))
               (filter (\<lambda>ds. ds_uuid ds = ix_dataset i) dss)))
             (filter (\<lambda>i. ix_status i = IX_READY) (indexes d))))))"

definition watcher_key :: "nat \<Rightarrow> int \<Rightarrow> trigger_reason \<Rightarrow> string" where
  "watcher_key i latest reason =
     ''watcher:'' @ dec_nat i @ '':INDEX_OPTIMIZE:v'' @ dec_int latest @ '':'' @ reason_str reason"

text \<open>Python's \<open>round(x, 3)\<close>: to the nearest thousandth, ties to even.\<close>

definition round3 :: "rat \<Rightarrow> rat" where
  "round3 x =
     (let y = x * 1000; f = \<lfloor>y\<rfloor>; r = y - rat_of_int f;
          n = (if r < 1/2 then f else if r > 1/2 then f + 1 else if even f then f else f + 1)
      in rat_of_int n / 1000)"

definition watch_params :: "index_row \<Rightarrow> trigger_decision \<Rightarrow> trigger_reason \<Rightarrow> int \<Rightarrow> params" where
  "watch_params idx dec reason latest =
     [(''index_name'', JStr (ix_name idx)), (''trigger_reason'', JStr (reason_str reason)),
      (''lance_version'', JInt latest),
      (''unindexed_rows'', (case td_unindexed dec of None \<Rightarrow> JNull | Some n \<Rightarrow> JInt n)),
      (''version_drift'', JInt (td_drift dec)), (''stale_minutes'', JFloat (round3 (td_stale dec))),
      (''source'', JStr ''index_watcher'')]"

definition flip_optimizing :: "nat \<Rightarrow> datetime \<Rightarrow> db \<Rightarrow> db" where
  "flip_optimizing i now d =
     d\<lparr>indexes := upd_where (\<lambda>x. ix_id x = i)
         (\<lambda>x. x\<lparr>ix_status := IX_OPTIMIZING, ix_last_optimized_at := Some now\<rparr>) (indexes d)\<rparr>"

definition try_emit_optimize_task ::
  "rls_ctx \<Rightarrow> (nat \<Rightarrow> string) \<Rightarrow> datetime \<Rightarrow> index_row \<Rightarrow> dataset_row \<Rightarrow> trigger_decision \<Rightarrow> trigger_reason
     \<Rightarrow> int \<Rightarrow> wstate \<Rightarrow> ((bool \<times> string) \<times> wstate) res" where
  "try_emit_optimize_task cx uuids now idx ds dec reason latest s =
     (let key = watcher_key (ix_id idx) latest reason in
      case select_by_key cx key (ws_work s) of
        Inl e \<Rightarrow> Inl e
      | Inr (Some _) \<Rightarrow> Inr ((False, key), s)
      | Inr None \<Rightarrow>
          let d1 = flip_optimizing (ix_id idx) now (ws_work s);
              task = new_task (uuids (ws_fresh s)) INDEX_OPTIMIZE (ds_uuid ds) (ds_tenant ds) 5
                       (Some (watch_params idx dec reason latest)) (Some key) 3 now;
              s1 = s\<lparr>ws_fresh := ws_fresh s + 1\<rparr>
          in case insert_task task d1 of
               Inr d2 \<Rightarrow> Inr ((True, key), s1\<lparr>ws_work := d2\<rparr>)
             | Inl _ \<Rightarrow> Inr ((False, key), s1\<lparr>ws_work := ws_committed s, ws_expired := True\<rparr>))"

definition count :: "(watch_report \<Rightarrow> watch_report) \<Rightarrow> wstate \<Rightarrow> wstate" where
  "count f s = s\<lparr>ws_report := f (ws_report s)\<rparr>"

text \<open>
  One candidate.  The index object is shared by the rows of the join that mention it, so
  its columns are read from the pass's own view; after a rollback the first attribute
  read raises.
\<close>

definition watch_row ::
  "rls_ctx \<Rightarrow> (nat \<Rightarrow> string) \<Rightarrow> datetime \<Rightarrow> (nat \<Rightarrow> string \<Rightarrow> string \<Rightarrow> live_stats option res) \<Rightarrow> nat
     \<Rightarrow> index_row \<times> dataset_row \<times> policy_row \<Rightarrow> wstate \<Rightarrow> wstate res" where
  "watch_row cx uuids now read_stats n row s =
     (let (i0, ds, policy) = row;
          s1 = count (\<lambda>r. r\<lparr>wr_scanned := wr_scanned r + 1\<rparr>) s
      in if ws_expired s then Inl (OtherError ''MissingGreenlet'')
         else case find (\<lambda>x. ix_id x = ix_id i0) (indexes (ws_work s)) of
                None \<Rightarrow> Inl (OtherError ''ObjectDeletedError'')
              | Some idx \<Rightarrow>
         (case read_stats n (ds_storage_uri ds) (ix_name idx) of
            Inl _ \<Rightarrow> Inr (count (\<lambda>r. r\<lparr>wr_open_failed := wr_open_failed r + 1\<rparr>) s1)
          | Inr None \<Rightarrow> Inr (count (\<lambda>r. r\<lparr>wr_no_dataset := wr_no_dataset r + 1\<rparr>) s1)
          | Inr (Some stats) \<Rightarrow>
              let dec = decide_trigger (st_unindexed stats) (st_latest stats)
                          (ix_last_seen_version idx) (ix_last_optimized_at idx) now policy
              in case td_reason dec of
                   None \<Rightarrow> Inr (count (\<lambda>r. r\<lparr>wr_below := wr_below r + 1\<rparr>) s1)
                 | Some reason \<Rightarrow>
                     (case try_emit_optimize_task cx uuids now idx ds dec reason (st_latest stats) s1 of
                        Inl e \<Rightarrow> Inl e
                      | Inr ((emitted, key), s2) \<Rightarrow>
                          Inr (if emitted
                               then count (\<lambda>r. r\<lparr>wr_enqueued := wr_enqueued r + 1,
                                                 wr_keys := wr_keys r @ [key]\<rparr>) s2
                               else count (\<lambda>r. r\<lparr>wr_idempotent := wr_idempotent r + 1\<rparr>) s2))))"

fun watch_loop ::
  "rls_ctx \<Rightarrow> (nat \<Rightarrow> string) \<Rightarrow> datetime \<Rightarrow> (nat \<Rightarrow> string \<Rightarrow> string \<Rightarrow> live_stats option res) \<Rightarrow> nat
     \<Rightarrow> (index_row \<times> dataset_row \<times> policy_row) list \<Rightarrow> wstate \<Rightarrow> wstate res" where
  "watch_loop cx uuids now read_stats n [] s = Inr s"
| "watch_loop cx uuids now read_stats n (row # rows) s =
     (case watch_row cx uuids now read_stats n row s of
        Inl e \<Rightarrow> Inl e
      | Inr s1 \<Rightarrow> watch_loop cx uuids now read_stats (Suc n) rows s1)"

definition run_watch_pass ::
  "rls_ctx \<Rightarrow> (nat \<Rightarrow> string) \<Rightarrow> datetime \<Rightarrow> (nat \<Rightarrow> string \<Rightarrow> string \<Rightarrow> live_stats option res) \<Rightarrow> db
     \<Rightarrow> watch_report res \<times> db" where
  "run_watch_pass cx uuids now read_stats d =
     (case require_watcher_system cx of
        Inl e \<Rightarrow> (Inl e, d)
      | Inr _ \<Rightarrow>
         (case fetch_candidates cx d of
            Inl e \<Rightarrow> (Inl e, d)
          | Inr rows \<Rightarrow>
              let s0 = \<lparr>ws_committed = d, ws_work = d, ws_expired = False, ws_fresh = 0,
                        ws_report = empty_report\<rparr>
              in case watch_loop cx uuids now read_stats 0 rows s0 of
                   Inl e \<Rightarrow> (Inl e, d)
                 | Inr s \<Rightarrow> (Inr (ws_report s),
                            if wr_scanned (ws_report s) > 0 then ws_work s else d)))"

interpretation sys_watch: system_only
  "\<lambda>cx. run_watch_pass cx uuids now read_stats" WatcherNotSystemError
  for uuids now read_stats
  by unfold_locales
    (auto simp: run_watch_pass_def require_watcher_system_def require_system_context_def
      get_current_tenant_def split: option.splits if_splits)

section \<open>Lemmas\<close>

lemma decide_trigger_reason:
  "td_reason (decide_trigger u latest seen opt now p) = Some UnindexedRows \<longleftrightarrow>
     at_least u (lp_min_unindexed_rows p)"
  "td_reason (decide_trigger u latest seen opt now p) = Some VersionDrift \<longleftrightarrow>
     \<not> at_least u (lp_min_unindexed_rows p)
   \<and> at_least (Some (max 0 (latest - (case seen of None \<Rightarrow> 0 | Some v \<Rightarrow> v)))) (lp_min_version_drift p)"
  by (simp_all add: decide_trigger_def Let_def)

text \<open>The view of a pass differs from its start only in tasks and flipped indexes.\<close>

definition watching :: "db \<Rightarrow> wstate \<Rightarrow> bool" where
  "watching d s \<longleftrightarrow> ws_committed s = d \<and> good_step d (ws_work s) \<and> datasets (ws_work s) = datasets d"

lemma good_step_flip: "good_step d (flip_optimizing i now d)"
proof (rule good_step_same_tasks)
  show "wf_db d \<Longrightarrow> wf_db (flip_optimizing i now d)"
    unfolding flip_optimizing_def by (rule wf_upd_indexes) (simp_all add: uk_defs)
qed (simp add: flip_optimizing_def)

lemma good_step_insert_fresh:
  assumes "insert_task (new_task u ty ds te pr pa k m now) d = Inr d'"
  shows "good_step d d'"
proof -
  from tasks_evolve_insert [OF assms] have "tasks_evolve\<^sup>*\<^sup>* d d'" by (intro r_into_rtranclp) simp
  then show ?thesis using wf_insert_task [OF _ assms] wf_tasks_insert [OF _ assms]
    by (simp add: good_step_def)
qed

lemma watching_emit:
  assumes "watching d s"
    and "try_emit_optimize_task cx uuids now idx ds dec reason latest s = Inr (out, s')"
  shows "watching d s'"
proof -
  have ins: "good_step d d2" if "insert_task (new_task u ty dds te pr pa k m now')
      (flip_optimizing i now (ws_work s)) = Inr d2" for u ty dds te pr pa k m now' i d2
    using assms(1) good_step_flip [of "ws_work s" i now] good_step_insert_fresh [OF that]
    by (auto simp: watching_def intro: good_step_trans)
  have dss: "datasets d2 = datasets d" if "insert_task r (flip_optimizing i now (ws_work s)) = Inr d2" for r i d2
    using that assms(1) by (auto simp: insert_task_def flip_optimizing_def watching_def split: if_splits)
  show ?thesis
    using assms ins dss
    by (auto simp: try_emit_optimize_task_def watching_def Let_def
        split: sum.splits option.splits)
qed

lemma watching_count [simp]: "watching d (count f s) = watching d s"
  by (simp add: watching_def count_def)

lemma watching_row:
  assumes "watching d s" and "watch_row cx uuids now read_stats n row s = Inr s'"
  shows "watching d s'"
proof -
  have emit: "watching d s2" if "try_emit_optimize_task cx uuids now idx ds dec reason latest (count f s)
      = Inr (out, s2)" for idx ds dec reason latest f out s2
    by (rule watching_emit [OF _ that]) (simp add: assms(1))
  show ?thesis
    using assms by (auto simp: watch_row_def Let_def dest!: emit
        split: prod.splits if_splits option.splits sum.splits)
qed

lemma watching_loop:
  "watching d s \<Longrightarrow> watch_loop cx uuids now read_stats n rows s = Inr s' \<Longrightarrow> watching d s'"
  by (induction rows arbitrary: n s) (auto split: sum.splits dest: watching_row)

lemma run_watch_pass_good: "good_step d (snd (run_watch_pass cx uuids now read_stats d))"
proof -
  have "watching d \<lparr>ws_committed = d, ws_work = d, ws_expired = False, ws_fresh = 0,
      ws_report = empty_report\<rparr>" by (simp add: watching_def)
  note watching_loop [OF this, of cx uuids now read_stats 0]
  then show ?thesis
    by (auto simp: run_watch_pass_def Let_def watching_def split: sum.splits)
qed

text \<open>Index rows and the watcher's tasks move together.\<close>

definition flipped_index :: "datetime \<Rightarrow> index_row \<Rightarrow> index_row" where
  "flipped_index now i = i\<lparr>ix_status := IX_OPTIMIZING, ix_last_optimized_at := Some now\<rparr>"

definition has_watch_task :: "nat \<Rightarrow> db \<Rightarrow> bool" where
  "has_watch_task i d \<longleftrightarrow> (\<exists>t\<in>set (tasks d). \<exists>v r. tk_key t = Some (watcher_key i v r))"

definition in_step :: "datetime \<Rightarrow> db \<Rightarrow> db \<Rightarrow> bool" where
  "in_step now d d' \<longleftrightarrow> list_all2 (\<lambda>i i'. i' = i \<or> ix_status i = IX_READY \<and> i' = flipped_index now i
       \<and> has_watch_task (ix_id i) d') (indexes d) (indexes d')"

lemma in_step_refl [simp]: "in_step now d d"
  by (simp add: in_step_def list_all2_same)

lemma indexes_flip: "indexes (flip_optimizing k now d) = upd_where (\<lambda>x. ix_id x = k) (flipped_index now) (indexes d)"
  by (simp add: flip_optimizing_def flipped_index_def [abs_def])

lemma list_all2_flip:
  assumes "list_all2 (\<lambda>i i'. i' = i \<or> ix_status i = IX_READY \<and> i' = flipped_index now i \<and> P i) xs ys"
    and "\<And>i. i \<in> set xs \<Longrightarrow> ix_id i = k \<Longrightarrow> ix_status i = IX_READY \<and> Q i"
    and "\<And>i. P i \<Longrightarrow> Q i"
  shows "list_all2 (\<lambda>i i'. i' = i \<or> ix_status i = IX_READY \<and> i' = flipped_index now i \<and> Q i) xs
           (upd_where (\<lambda>x. ix_id x = k) (flipped_index now) ys)"
  using assms(1,2)
proof (induction xs ys rule: list_all2_induct)
  case Nil
  then show ?case by simp
next
  case (Cons i xs i' ys)
  have twice: "flipped_index now (flipped_index now i) = flipped_index now i"
    and id: "ix_id (flipped_index now i) = ix_id i" by (simp_all add: flipped_index_def)
  let ?u = "if ix_id i' = k then flipped_index now i' else i'"
  have head: "?u = i \<or> ix_status i = IX_READY \<and> ?u = flipped_index now i \<and> Q i"
  proof (cases "ix_id i = k")
    case True
    then have "ix_status i = IX_READY" "Q i" using Cons.prems by auto
    moreover have "?u = flipped_index now i" using Cons(1) True twice id by (elim disjE) auto
    ultimately show ?thesis by simp
  next
    case False
    then have "?u = i'" using Cons(1) id by (elim disjE) auto
    then show ?thesis using Cons(1) assms(3) by auto
  qed
  have "list_all2 (\<lambda>i i'. i' = i \<or> ix_status i = IX_READY \<and> i' = flipped_index now i \<and> Q i) xs
           (upd_where (\<lambda>x. ix_id x = k) (flipped_index now) ys)"
    by (rule Cons.IH) (use Cons.prems in auto)
  with head show ?case by simp
qed

lemma in_step_emit:
  assumes "in_step now d (ws_work s)" and "ws_committed s = d"
    and "\<And>i. i \<in> set (indexes d) \<Longrightarrow> ix_id i = ix_id idx \<Longrightarrow> ix_status i = IX_READY"
    and "try_emit_optimize_task cx uuids now idx ds dec reason latest s = Inr (out, s')"
  shows "in_step now d (ws_work s')" and "ws_committed s' = d"
proof -
  define task where "task = new_task (uuids (ws_fresh s)) INDEX_OPTIMIZE (ds_uuid ds) (ds_tenant ds) 5
      (Some (watch_params idx dec reason latest)) (Some (watcher_key (ix_id idx) latest reason)) 3 now"
  define d1 where "d1 = flip_optimizing (ix_id idx) now (ws_work s)"
  consider "s' = s" | "ws_work s' = d" "ws_committed s' = d"
    | d2 where "insert_task task d1 = Inr d2" "ws_work s' = d2" "ws_committed s' = d"
    using assms(2,4)
    by (auto simp: try_emit_optimize_task_def task_def d1_def Let_def split: sum.splits option.splits)
  then have "in_step now d (ws_work s') \<and> ws_committed s' = d"
  proof cases
    case (3 d2)
    have ts: "tasks d2 = tasks (ws_work s) @ [task]" and ixs: "indexes d2 = indexes d1"
      using 3(1) by (auto simp: insert_task_def d1_def flip_optimizing_def split: if_splits)
    have more: "has_watch_task i (ws_work s) \<Longrightarrow> has_watch_task i d2" for i
      by (auto simp: has_watch_task_def ts)
    have new: "has_watch_task (ix_id idx) d2"
      by (auto simp: has_watch_task_def ts task_def new_task_def)
    have "list_all2 (\<lambda>i i'. i' = i \<or> ix_status i = IX_READY \<and> i' = flipped_index now i
       \<and> has_watch_task (ix_id i) d2) (indexes d) (indexes d2)"
      unfolding ixs d1_def indexes_flip
      by (rule list_all2_flip [OF assms(1) [unfolded in_step_def]]) (use assms(3) more new in auto)
    then show ?thesis using 3 by (simp add: in_step_def)
  qed (use assms(1,2) in simp_all)
  then show "in_step now d (ws_work s')" "ws_committed s' = d" by auto
qed

lemma in_step_loop:
  assumes "in_step now d (ws_work s)" and "ws_committed s = d" and "distinct (map ix_id (indexes d))"
    and "\<And>i ds p. (i, ds, p) \<in> set rows \<Longrightarrow> i \<in> set (indexes d) \<and> ix_status i = IX_READY"
    and "watch_loop cx uuids now read_stats n rows s = Inr s'"
  shows "in_step now d (ws_work s')"
  using assms(1,2,4,5)
proof (induction rows arbitrary: n s)
  case Nil
  then show ?case by simp
next
  case (Cons row rows)
  obtain i0 ds p where row: "row = (i0, ds, p)" by (cases row)
  have ready: "ix_status i = IX_READY" if "i \<in> set (indexes d)" "ix_id i = ix_id i0" for i
    using Cons.prems(3) [of i0 ds p] that assms(3) row by (auto simp: distinct_map dest: inj_onD)
  obtain s1 where s1: "watch_row cx uuids now read_stats n row s = Inr s1"
    and rest: "watch_loop cx uuids now read_stats (Suc n) rows s1 = Inr s'"
    using Cons.prems(4) by (auto split: sum.splits)
  have emit: "in_step now d (ws_work s2) \<and> ws_committed s2 = d"
    if "find (\<lambda>x. ix_id x = ix_id i0) (indexes (ws_work s)) = Some idx"
      "try_emit_optimize_task cx uuids now idx dset dec reason latest (count f s) = Inr (out, s2)"
    for idx dset dec reason latest f out s2
  proof -
    have "ix_id idx = ix_id i0" using find_in [OF that(1)] by simp
    with in_step_emit [OF _ _ _ that(2), of d] ready Cons.prems(1,2) show ?thesis by (auto simp: count_def)
  qed
  have "in_step now d (ws_work s1) \<and> ws_committed s1 = d"
    using s1 Cons.prems(1,2) row
    by (auto simp: watch_row_def count_def [of _ "_ :: wstate"] Let_def
        split: if_splits option.splits sum.splits prod.splits dest!: emit [unfolded count_def])
  then show ?case using Cons.IH [of s1 "Suc n"] Cons.prems(3) rest by auto
qed

lemma candidates_ready:
  assumes "fetch_candidates cx d = Inr rows" and "(i, ds, p) \<in> set rows"
  shows "i \<in> set (indexes d)" and "ix_status i = IX_READY" and "ds_uuid ds = ix_dataset i"
    and "p \<in> set (policies d)" and "lp_dataset p = ix_dataset i" and "lp_enabled p" and "lp_watch_enabled p"
  using assms by (auto simp: fetch_candidates_def split: sum.splits)

section \<open>Properties\<close>

text \<open>The trigger is the first signal that crosses.  \<open>decide_trigger\<close> answers
  \<open>unindexed_rows\<close> exactly when Lance reported a count, the policy set a threshold and the count
  reaches it; otherwise \<open>version_drift\<close> exactly when the (never negative) drift since the last
  optimize reaches its threshold; otherwise \<open>stale\<close> exactly when the index was optimised before
  and at least the threshold of minutes ago; and nothing otherwise.  A threshold that is null
  switches its signal off.\<close>

theorem decide_trigger_first_signal:
  "td_reason (decide_trigger unindexed latest seen optimized now p) =
    (let rows = (\<exists>n t. unindexed = Some n \<and> lp_min_unindexed_rows p = Some t \<and> n \<ge> t);
         drift = (\<exists>t. lp_min_version_drift p = Some t \<and> max 0 (latest - (case seen of None \<Rightarrow> 0 | Some v \<Rightarrow> v)) \<ge> t);
         stale = (\<exists>t m. optimized = Some t \<and> lp_stale_minutes p = Some m
                    \<and> dt_us now - dt_us t \<ge> m * 60000000)
     in if rows then Some UnindexedRows else if drift then Some VersionDrift
        else if stale then Some Stale else None)"
proof -
  have le: "rat_of_int m \<le> rat_of_int x / 60000000 \<longleftrightarrow> m * 60000000 \<le> x" for m x
  proof -
    have "rat_of_int m \<le> rat_of_int x / 60000000 \<longleftrightarrow> rat_of_int (m * 60000000) \<le> rat_of_int x"
      by (simp add: field_simps)
    then show ?thesis by (simp only: of_int_le_iff)
  qed
  have le': "rat_of_int m * 60000000 \<le> rat_of_int x \<longleftrightarrow> m * 60000000 \<le> x" for m x
  proof -
    have "rat_of_int m * 60000000 = rat_of_int (m * 60000000)" by simp
    then show ?thesis by (simp only: of_int_le_iff)
  qed
  have rows: "at_least unindexed (lp_min_unindexed_rows p)
      \<longleftrightarrow> (\<exists>n t. unindexed = Some n \<and> lp_min_unindexed_rows p = Some t \<and> n \<ge> t)"
    by (auto simp: at_least_def split: option.splits)
  have drift: "at_least (Some x) (lp_min_version_drift p) \<longleftrightarrow> (\<exists>t. lp_min_version_drift p = Some t \<and> x \<ge> t)" for x
    by (auto simp: at_least_def split: option.splits)
  have stale: "(case lp_stale_minutes p of None \<Rightarrow> False
      | Some m \<Rightarrow> optimized \<noteq> None \<and> (case optimized of None \<Rightarrow> 0
           | Some t \<Rightarrow> rat_of_int (dt_us now - dt_us t) / 60000000) \<ge> rat_of_int m)
    \<longleftrightarrow> (\<exists>t m. optimized = Some t \<and> lp_stale_minutes p = Some m \<and> dt_us now - dt_us t \<ge> m * 60000000)"
    by (cases optimized; cases "lp_stale_minutes p") (simp_all add: le le' del: of_int_diff)
  show ?thesis
    unfolding decide_trigger_def Let_def rows drift stale by simp
qed


definition watched :: db where
  "watched = indexes0\<lparr>policies := [policy0\<lparr>lp_watch_enabled := True\<rparr>]\<rparr>"

definition stats0 :: "nat \<Rightarrow> string \<Rightarrow> string \<Rightarrow> live_stats option res" where
  "stats0 n uri name = Inr (Some \<lparr>st_unindexed = Some 5000, st_latest = 9\<rparr>)"

lemma watched_flips:
  "ix_status (indexes (snd (run_watch_pass system_cx uuids0 t0 stats0 watched)) ! 0) = IX_OPTIMIZING"
  by code_simp


end
