(* ===== verification/Execution.thy ===== *)
theory Execution
  imports Vectorize Watcher Rules
begin

text \<open>
  What an executor run means for the rows the services wrote: the build and optimise
  executors against the index status machine of Indexes and the decision of Watcher, the
  TTL cutoff, and what becomes of a vectorize-now task under the default registry.  The
  statements run the worker's dispatcher (Worker) on the executors' models.
\<close>

section \<open>Dispatching a running task\<close>

lemma select_dataset_system:
  assumes "is_system cx" and "wf_db d" and "ds \<in> set (datasets d)"
  shows "select_dataset cx (ds_uuid ds) d = Inr (Some ds)"
proof -
  have "unique_on uk_dataset_uuid (datasets d)" using assms(2) by (simp add: wf_db_def)
  from unique_on_select [OF this assms(3), of "ds_uuid ds"]
  have "filter (\<lambda>r. ds_uuid r = ds_uuid ds) (datasets d) = [ds]" by (simp add: uk_dataset_uuid_def)
  then show ?thesis using assms(1) by (simp add: select_dataset_def rls_dataset)
qed

lemma finish_running:
  assumes "is_system cx" and "wf_db d" and "t \<in> set (tasks d)" and "tk_status t = RUNNING"
    and "tk_worker t = Some wid"
  shows "complete_task cx wid (tk_uuid t) res now d = (Inr (set_succeeded res now t),
           decrement_in_flight wid (upd_task (tk_uuid t) (set_succeeded res now) d))"
    and "fail_task cx wid (tk_uuid t) code msg now d = (Inr (set_failed code msg now t),
           decrement_in_flight wid (upd_task (tk_uuid t) (set_failed code msg now) d))"
proof -
  have "sched_get_task cx (tk_uuid t) d = Inr t"
    using one_task_filter [OF assms(2,3) refl] assms(1) by (simp add: sched_get_task_def rls_task)
  then show "complete_task cx wid (tk_uuid t) res now d = (Inr (set_succeeded res now t),
           decrement_in_flight wid (upd_task (tk_uuid t) (set_succeeded res now) d))"
    "fail_task cx wid (tk_uuid t) code msg now d = (Inr (set_failed code msg now t),
           decrement_in_flight wid (upd_task (tk_uuid t) (set_failed code msg now) d))"
    using assms(1,4,5) by (simp_all add: complete_task_def fail_task_def require_system_iff)
qed

lemma indexes_decrement [simp]: "indexes (decrement_in_flight wid d) = indexes d"
  by (simp add: decrement_in_flight_def upd_worker_def)

lemma indexes_upd_task [simp]: "indexes (upd_task u f d) = indexes d"
  by (simp add: upd_task_def)

text \<open>
  A running task of an existing dataset with a registered executor: the outcome and the
  database, for an executor that returns and for one that raises.
\<close>

lemma dispatch_run_exec:
  assumes "is_system cx" and "wf_db d" and "task \<in> set (tasks d)" and "tk_status task = RUNNING"
    and "tk_worker task = Some wid" and "ds \<in> set (datasets d)" and "tk_dataset task = ds_uuid ds"
    and "executors (tk_type task) = Some (run_exec E w f)" and "f task ds d w = (r, w')"
  shows "dispatch_and_finalize cx wid task executors now d =
    (case r of
       Inl e \<Rightarrow> (Inr (failed_tick task (exc_name e)), decrement_in_flight wid
                 (upd_task (tk_uuid task) (set_failed (exc_name e) (take 2048 (ee_str_exc E e)) now) d))
     | Inr (p, writes) \<Rightarrow>
         (case complete_task cx wid (tk_uuid task) (Some p) now (writes d) of
            (Inl e, _) \<Rightarrow> (Inl e, d) | (Inr _, d2) \<Rightarrow> (Inr (succeeded_tick task), d2)))"
  using select_dataset_system [OF assms(1,2,6)] assms(7-9) finish_running(2) [OF assms(1-5)]
  by (auto simp: dispatch_and_finalize_def run_exec_def fail_and_report_def split: sum.split prod.split)

section \<open>Properties\<close>



text \<open>C23: what vectorize-now comes to.  The task \<open>submit_vectorize_task\<close> enqueues carries only the
  rule's id, but the default registry serves VECTORIZE with the executor that reads its columns
  from the task: dispatching the task always reports SUCCEEDED, stores the result
  "no source_columns specified" with zero rows, and touches neither the storage nor a model.\<close>

theorem vectorize_now_computes_nothing:
  assumes "submit_vectorize_task cx0 dsid col uuid now0 other d0 = (Inr (t, True), d1)"
    and "same_identity t task" and "is_system cx" and "wf_db d" and "task \<in> set (tasks d)"
    and "tk_status task = RUNNING" and "tk_worker task = Some wid" and "ds \<in> set (datasets d)"
    and "tk_dataset task = ds_uuid ds"
    and "dispatch_and_finalize cx wid task (default_executors E w) now d = (r, d')"
  shows "r = Inr (succeeded_tick task) \<and> finalised wid (succeeded_tick task) d'
    \<and> set_succeeded (Some [(''error'', JStr ''no source_columns specified''), (''rows_processed'', JInt 0)]) now task
        \<in> set (tasks d')
    \<and> snd (vectorization_executor E task ds d w) = w \<and> indexes d' = indexes d"
proof -
  obtain k where pars: "tk_params task = Some [(''vectorization_rule_id'', JInt k)]" "tk_type task = VECTORIZE"
    using assms(1,2)
    by (auto simp: submit_vectorize_task_def submit_task_def Let_def new_task_def same_identity_def
        split: sum.splits option.splits if_splits)
  let ?p = "[(''error'', JStr ''no source_columns specified''), (''rows_processed'', JInt 0)]"
  have run: "vectorization_executor E task ds d w = (Inr (?p, no_writes), w)"
    by (simp add: vectorization_executor_def pars opt_params_def io_bind_def Let_def)
  have reg: "default_executors E w (tk_type task) = Some (run_exec E w (vectorization_executor E))"
    by (simp add: pars default_executors_def build_default_registry_def)
  have fin: "complete_task cx wid (tk_uuid task) (Some ?p) now d = (Inr (set_succeeded (Some ?p) now task),
        decrement_in_flight wid (upd_task (tk_uuid task) (set_succeeded (Some ?p) now) d))"
    by (rule finish_running [OF assms(3-7)])
  have r: "r = Inr (succeeded_tick task)"
    and d': "d' = decrement_in_flight wid (upd_task (tk_uuid task) (set_succeeded (Some ?p) now) d)"
    using dispatch_run_exec [where f = "vectorization_executor E" and executors = "default_executors E w",
      OF assms(3-9) reg run, of now] fin assms(10) by auto
  have "set_succeeded (Some ?p) now task \<in> set (tasks d')"
    using upd_where_hit [OF assms(5), of "\<lambda>x. tk_uuid x = tk_uuid task"] by (simp add: d')
  then show ?thesis using r run dispatch_finalised(1) [of cx wid task] assms(10) by (auto simp: d')
qed

text \<open>C22: what a TTL_DELETE task deletes.  With a storage endpoint, a successful run has opened the
  dataset, asked Lance exactly once to delete the rows with \<open>created_at\<close> before a cutoff that
  lies exactly \<open>ttl_days\<close> days before the current second (in microseconds, across months, leap years
  and centuries), and reports the row count of a handle opened after the deletion; it leaves the
  database alone.\<close>

theorem ttl_delete_cutoff:
  assumes "ttl_delete E task ds d w = (Inr (p, writes), w')" and "lance_storage_endpoint (ee_settings E) \<noteq> []"
  shows "\<exists>days cutoff h h' n. int_of_json (get_or (opt_params (tk_params task)) ''ttl_days'' JNull) = Inr days
    \<and> dt_us cutoff = dt_us ((ee_now E)\<lparr>dt_micro := 0\<rparr>) - days * 86400000000
    \<and> open_dataset (ee_lance E) (ee_settings E) (ds_storage_uri ds) (storage_options_of E) w = (Inr h, w)
    \<and> ln_delete (ee_lance E) h (''created_at < timestamp '' @ [CHR 0x27] @ isoformat cutoff @ [CHR 0x27]) w = (Inr (), w')
    \<and> open_dataset (ee_lance E) (ee_settings E) (ds_storage_uri ds) (storage_options_of E) w' = (Inr h', w')
    \<and> ln_count_rows (ee_lance E) h' w' = Inr n \<and> map_of p ''rows_after'' = Some (JInt n) \<and> writes d = d"
proof -
  let ?ttl = "get_or (opt_params (tk_params task)) ''ttl_days'' JNull"
  let ?quoted = "\<lambda>c. ''created_at < timestamp '' @ [CHR 0x27] @ isoformat c @ [CHR 0x27]"
  obtain days cutoff n where run: "int_of_json ?ttl = Inr days"
      "minus_days ((ee_now E)\<lparr>dt_micro := 0\<rparr>) days = Inr cutoff"
      "delete_rows (ee_lance E) (ee_settings E) (ds_storage_uri ds) (?quoted cutoff) (storage_options_of E) w = (Inr n, w')"
      "map_of p ''rows_after'' = Some (JInt n)" "writes = no_writes"
    using assms by (auto simp: ttl_delete_def Let_def io_bind_Inr split: if_split_asm)
  obtain h h' where "open_dataset (ee_lance E) (ee_settings E) (ds_storage_uri ds) (storage_options_of E) w = (Inr h, w)"
      "ln_delete (ee_lance E) h (?quoted cutoff) w = (Inr (), w')"
      "open_dataset (ee_lance E) (ee_settings E) (ds_storage_uri ds) (storage_options_of E) w' = (Inr h', w')"
      "ln_count_rows (ee_lance E) h' w' = Inr n"
    by (rule delete_rows_after [OF run(3)])
  then show ?thesis using run(1,4,5) minus_days_exact [OF run(2)] by auto
qed

section \<open>Witnesses\<close>

definition exec_env0 :: "string \<Rightarrow> (unit, unit) exec_env" where
  "exec_env0 endpoint =
     \<lparr>ee_settings = default_settings\<lparr>lance_storage_endpoint := endpoint\<rparr>, ee_lance = lance0,
      ee_push = (\<lambda>_ _ _ _ w. (Inr (), w)), ee_is_gravitino_error = (\<lambda>_. False), ee_now = t0, ee_uuid = ''z'',
      ee_repr = (\<lambda>_. []), ee_str_exc = (\<lambda>_. []), ee_to_table = (\<lambda>_ _ _ _. Inr []),
      ee_post = (\<lambda>_ _ _ _ w. (Inr JNull, w)), ee_float_array = (\<lambda>_. Inr ())\<rparr>"

lemma exec_env0 [simp]: "lance_storage_endpoint (ee_settings (exec_env0 x)) = x"
  "gravitino_url (ee_settings (exec_env0 x)) = []" "ee_now (exec_env0 x) = t0" "ee_lance (exec_env0 x) = lance0"
  by (simp_all add: exec_env0_def default_settings_def)

definition running0 :: "task_type \<Rightarrow> params option \<Rightarrow> task_row" where
  "running0 ty pars = set_running ''w1'' t0 (new_task ''a'' ty ''u1'' ''acme'' 5 pars None 3 t0)"

definition exec_db0 :: "task_row \<Rightarrow> index_row list \<Rightarrow> db" where
  "exec_db0 t is = (fleet0 [t])\<lparr>indexes := is\<rparr>"

lemma running0 [simp]: "tk_uuid (running0 ty p) = ''a''" "tk_type (running0 ty p) = ty" "tk_params (running0 ty p) = p"
  "tk_status (running0 ty p) = RUNNING" "tk_worker (running0 ty p) = Some ''w1''" "tk_dataset (running0 ty p) = ''u1''"
  by (simp_all add: running0_def set_running_def new_task_def)

lemma exec_db0 [simp]: "tasks (exec_db0 t is) = [t]" "indexes (exec_db0 t is) = is" "datasets (exec_db0 t is) = [dataset0]"
  by (simp_all add: exec_db0_def)

lemma wf_exec_db0: "unique_on uk_dataset_index_name is \<Longrightarrow> wf_db (exec_db0 t is)"
  using wf_fleet0 [of "[t]"] by (simp add: wf_db_def exec_db0_def unique_on_Cons clash_iff)

definition building0 :: index_row where
  "building0 = (new_index ''u1'' ''ix'' ''vec'' ''HNSW'' None t0)\<lparr>ix_id := 1\<rparr>"


definition drift_policy :: policy_row where
  "drift_policy = \<lparr>lp_id = 1, lp_dataset = ''u1'', lp_name = ''p'', lp_tier_rules = None, lp_ttl_days = None,
     lp_compaction_threshold = None, lp_index_optimize_cron = None, lp_watch_enabled = True,
     lp_min_unindexed_rows = None, lp_min_version_drift = Some 1, lp_stale_minutes = None, lp_enabled = True,
     lp_last_run_at = None, lp_created_at = t0\<rparr>"


theorem vectorize_now_computes_nothing_witness:
  "\<exists>t. dispatch_and_finalize system_cx ''w1'' (set_running ''w1'' t0 t) (default_executors (exec_env0 ''s3'') ()) t0
       (exec_db0 (set_running ''w1'' t0 t) [])
     = (Inr (succeeded_tick (set_running ''w1'' t0 t)),
        snd (dispatch_and_finalize system_cx ''w1'' (set_running ''w1'' t0 t) (default_executors (exec_env0 ''s3'') ()) t0
          (exec_db0 (set_running ''w1'' t0 t) [])))"
proof -
  define rule where "rule = (new_rule ''u1'' rule_request0 t0)\<lparr>vr_id := 1\<rparr>"
  have wf: "wf_db rules0" by (simp add: rules0_def wf_db_def unique_on_Cons clash_iff)
  have "datasets rules0 = [dataset0]" by (simp add: rules0_def)
  then have "get_dataset acme_cx ''u1'' rules0 = Inr dataset0" by (simp add: get_dataset_iff [OF wf])
  then have get: "get_rule acme_cx ''u1'' ''vec'' rules0 = Inr rule"
    by (simp add: get_rule_def maybe_get_rule_def rules0_def rule_def new_rule_def rule_request0_def)
  have "vr_enabled rule" "tasks rules0 = []" by (simp_all add: rule_def new_rule_def rule_request0_def rules0_def)
  then obtain t where run: "submit_vectorize_task acme_cx ''u1'' ''vec'' ''a'' t0 (\<lambda>x. x) rules0
      = (Inr (t, True), snd (submit_vectorize_task acme_cx ''u1'' ''vec'' ''a'' t0 (\<lambda>x. x) rules0))"
    "tk_dataset t = ''u1''"
    using get
    by (auto simp: submit_vectorize_task_def submit_task_def require_current_tenant_def scoped_key_def
        select_by_key_def rls_task insert_task_def clash_iff Let_def new_task_def)
  let ?t = "set_running ''w1'' t0 t"
  let ?run = "dispatch_and_finalize system_cx ''w1'' ?t (default_executors (exec_env0 ''s3'') ()) t0 (exec_db0 ?t [])"
  have same: "same_identity t ?t" by (simp add: same_identity_def set_running_def)
  have st: "tk_status ?t = RUNNING" "tk_worker ?t = Some ''w1''" "tk_dataset ?t = ds_uuid dataset0"
    using run(2) by (simp_all add: set_running_def)
  have wf2: "wf_db (exec_db0 ?t [])" by (rule wf_exec_db0) simp
  have "fst ?run = Inr (succeeded_tick ?t)"
    using vectorize_now_computes_nothing [where E = "exec_env0 ''s3''" and w = "()" and cx = system_cx and now = t0,
      OF run(1) same _ wf2 _ st(1,2) _ st(3) surjective_pairing] by simp
  then show ?thesis by (metis prod.collapse)
qed

theorem ttl_delete_cutoff_witness:
  "\<exists>cutoff. dt_us cutoff = dt_us t0 - 90 * 86400000000
    \<and> ln_delete lance0 () (''created_at < timestamp '' @ [CHR 0x27] @ isoformat cutoff @ [CHR 0x27]) () = (Inr (), ())"
proof -
  let ?t = "running0 TTL_DELETE (Some [(''ttl_days'', JInt 90)])"
  let ?run = "ttl_delete (exec_env0 ''s3'') ?t dataset0 db0 ()"
  have now: "t0\<lparr>dt_micro := 0\<rparr> = t0" by (simp add: t0_def DT_def)
  have ord: "dt_ordinal t0 = 739012"
    by (simp add: t0_def DT_def dt_ordinal_def days_before_month_def is_leap_def Let_def)
  obtain y m dd where o: "ord2ymd 738922 = (y, m, dd)" by (cases "ord2ymd 738922") blast
  obtain x where "?run = (Inr x, ())"
    by (simp add: ttl_delete_def delete_rows_def io_bind_def open_dataset_def lance0_def Let_def opt_params_def now
        minus_days_def ord o)
  then obtain p writes where "?run = (Inr (p, writes), ())" by (cases x) simp
  moreover have "lance_storage_endpoint (ee_settings (exec_env0 ''s3'')) \<noteq> []" by simp
  ultimately have cut: "\<exists>days cutoff h h' n. int_of_json (get_or (opt_params (tk_params ?t)) ''ttl_days'' JNull) = Inr days
    \<and> dt_us cutoff = dt_us ((ee_now (exec_env0 ''s3''))\<lparr>dt_micro := 0\<rparr>) - days * 86400000000
    \<and> open_dataset (ee_lance (exec_env0 ''s3'')) (ee_settings (exec_env0 ''s3'')) (ds_storage_uri dataset0)
        (storage_options_of (exec_env0 ''s3'')) () = (Inr h, ())
    \<and> ln_delete (ee_lance (exec_env0 ''s3'')) h
        (''created_at < timestamp '' @ [CHR 0x27] @ isoformat cutoff @ [CHR 0x27]) () = (Inr (), ())"
    by (blast dest: ttl_delete_cutoff)
  have lance: "ee_lance (exec_env0 ''s3'') = lance0" and clock: "ee_now (exec_env0 ''s3'') = t0"
    by (simp_all add: exec_env0_def)
  have ttl: "int_of_json (get_or (opt_params (tk_params ?t)) ''ttl_days'' JNull) = Inr 90"
    by (simp add: opt_params_def)
  from cut obtain cutoff where "dt_us cutoff = dt_us t0 - 90 * 86400000000"
      "ln_delete lance0 () (''created_at < timestamp '' @ [CHR 0x27] @ isoformat cutoff @ [CHR 0x27]) () = (Inr (), ())"
    unfolding ttl lance clock now by auto
  then show ?thesis by (intro exI conjI)
qed

end
