(* ===== verification/RestRuns.thy ===== *)
theory RestRuns
  imports Isolation Execution
begin

text \<open>
  What the REST surface comes to: which requests can fail with a 500, what such a request leaves
  behind, and what a task submitted for another tenant's dataset does when a worker runs it.
\<close>

section \<open>Replies that are answers\<close>

definition crashed :: "reply \<Rightarrow> bool" where
  "crashed r \<longleftrightarrow> 500 \<le> status_code r"

lemma crashed_simps [simp]:
  "crashed (Crash e)" "crashed (Reply n j) \<longleftrightarrow> 500 \<le> n" "crashed (HttpError n c m) \<longleftrightarrow> 500 \<le> n"
  "\<not> crashed NoContent" "\<not> crashed Unprocessable"
  by (simp_all add: crashed_def)

lemma crashed_replies [simp]:
  "\<not> crashed (not_found m)" "\<not> crashed (conflict c m)" "\<not> crashed (bad_request c m)"
  by (simp_all add: not_found_def conflict_def bad_request_def)

text \<open>\<open>caught f e\<close>: the handler translates \<open>e\<close>.\<close>

definition caught :: "catch \<Rightarrow> lcp_error \<Rightarrow> bool" where
  "caught f e \<longleftrightarrow> (case f e of None \<Rightarrow> False | Some r \<Rightarrow> \<not> crashed r)"

lemma caught_simps [simp]:
  "caught (catch_dataset u) (DatasetNotFoundError v)" "caught (catch_task u) (TaskNotFoundError v)"
  "caught (catch_index u n) (IndexNotFoundError v m)" "caught (catch_policy u n) (PolicyNotFoundError v m)"
  "caught (catch_rule u n) (RuleNotFoundError v m)" "caught (catch_exists str_exc) DatasetAlreadyExistsError"
  "caught (catch_exists str_exc) (IndexAlreadyExistsError u n)"
  "caught (catch_exists str_exc) (PolicyAlreadyExistsError u n)"
  "caught (catch_exists str_exc) (RuleAlreadyExistsError u n)"
  "caught (catch_transition str_exc) (TaskTransitionError u)"
  "caught (catch_transition str_exc) (IndexTransitionError n)"
  "caught (catch_rule_request str_exc) RuleValidationError"
  "caught (catch_rule_request str_exc) (RuleDisabledError c)"
  by (simp_all add: caught_def)

lemma caught_catching [simp]:
  "caught (catching f g) e \<longleftrightarrow> (case f e of None \<Rightarrow> caught g e | Some r \<Rightarrow> \<not> crashed r)"
  by (auto simp: caught_def catching_def split: option.splits)

lemma answer_ok:
  assumes "\<And>e. r = Inl e \<Longrightarrow> caught f e" and "\<And>x. r = Inr x \<Longrightarrow> \<not> crashed (body x)"
  shows "\<not> crashed (answer f body r)"
  using assms by (cases r) (auto simp: answer_def caught_def split: option.splits)

section \<open>Requests that end in an answer\<close>

text \<open>
  Rows the response schemas accept: an index type of the vocabulary and source columns that are not
  null.  The REST surface keeps that, except for the PATCH requests of \<open>null_patch\<close>.
\<close>

definition renderable :: "db \<Rightarrow> bool" where
  "renderable d \<longleftrightarrow> list_all (\<lambda>i. List.member INDEX_TYPES (ix_type i)) (indexes d)
                 \<and> list_all (\<lambda>r. vr_source_columns r \<noteq> None) (rules d)"

fun null_patch :: "endpoint \<Rightarrow> bool" where
  "null_patch (UpdatePolicy u n q) = (pp_watch_enabled q = Some None)"
| "null_patch (UpdateRule u c q) = (rp_sources q = Some None \<or> null_in_not_null q)"
| "null_patch _ = False"

text \<open>No task of another tenant holds a key that starts like the tenant's own keys.\<close>

definition keys_apart :: "string \<Rightarrow> db \<Rightarrow> bool" where
  "keys_apart T d \<longleftrightarrow>
     list_all (\<lambda>t. tk_tenant t = T \<or> (case tk_key t of None \<Rightarrow> True | Some k \<Rightarrow> take (Suc (length T)) k \<noteq> T @ '':''))
       (tasks d)"

definition fresh_uuid :: "string \<Rightarrow> db \<Rightarrow> bool" where
  "fresh_uuid u d \<longleftrightarrow> list_all (\<lambda>t. tk_uuid t \<noteq> u) (tasks d)"

lemma submit_succeeds:
  assumes "wf_db d" and "tenant_context T cx" and "keys_apart T d" and "fresh_uuid uuid d"
  shows "\<exists>x d'. submit_task cx q uuid now (\<lambda>x. x) d = (Inr x, d')"
proof -
  obtain p where p: "cx_principal cx = Some p" "p_tenant_id p = T" using tenant_context(3) [OF assms(2)] by blast
  let ?key = "scoped_key T (sa_key q)"
  let ?obj = "new_task uuid (sa_type q) (sa_dataset q) T (sa_priority q) (sa_params q) ?key (sa_max_attempts q) now"
  have no_uuid: "\<not> clash uk_task_uuid ?obj (tasks d)"
    using assms(4) by (auto simp: clash_iff uk_task_uuid_def new_task_def fresh_uuid_def list_all_iff)
  show ?thesis
  proof (cases "sa_key q")
    case None
    then have "insert_task ?obj d = Inr (d\<lparr>tasks := tasks d @ [?obj]\<rparr>)"
      using no_uuid by (simp add: insert_task_def clash_iff uk_idempotency_key_def new_task_def scoped_key_def)
    then have "submit_task cx q uuid now (\<lambda>x. x) d = (Inr (?obj, True), d\<lparr>tasks := tasks d @ [?obj]\<rparr>)"
      using p None by (simp add: submit_task_def require_current_tenant_def scoped_key_def Let_def)
    then show ?thesis by blast
  next
    case (Some k0)
    let ?k = "T @ '':'' @ k0"
    obtain x where x: "select_by_key cx ?k d = Inr x"
      using select_by_key_total [OF assms(1) tenant_context(2) [OF assms(2)]] by blast
    show ?thesis
    proof (cases x)
      case None
      have "tk_key t \<noteq> Some ?k" if t: "t \<in> set (tasks d)" for t
      proof
        assume key: "tk_key t = Some ?k"
        then have "tk_tenant t = T" using assms(3) t by (auto simp: keys_apart_def list_all_iff)
        then have "select_by_key cx ?k d = Inr (Some t)"
          using t key assms(1) tenant_context(1,2) [OF assms(2)] by (intro select_by_key_hit) auto
        then show False using x None by simp
      qed
      then have "\<not> clash uk_idempotency_key ?obj (tasks d)"
        using Some by (auto simp: clash_iff uk_idempotency_key_def new_task_def scoped_key_def)
      with no_uuid have "insert_task ?obj d = Inr (d\<lparr>tasks := tasks d @ [?obj]\<rparr>)" by (simp add: insert_task_def)
      then have "submit_task cx q uuid now (\<lambda>x. x) d = (Inr (?obj, True), d\<lparr>tasks := tasks d @ [?obj]\<rparr>)"
        using p Some x None by (simp add: submit_task_def require_current_tenant_def scoped_key_def Let_def)
      then show ?thesis by blast
    next
      case (Some t)
      then have "submit_task cx q uuid now (\<lambda>x. x) d = (Inr (t, False), d)"
        using p x \<open>sa_key q = Some k0\<close> by (simp add: submit_task_def require_current_tenant_def scoped_key_def Let_def)
      then show ?thesis by blast
    qed
  qed
qed

section \<open>The rows stay renderable\<close>

named_theorems renderable_intros \<open>changes that keep the rows renderable\<close>

lemma renderable_same [renderable_intros]:
  "renderable d \<Longrightarrow> indexes d' = indexes d \<Longrightarrow> rules d' = rules d \<Longrightarrow> renderable d'"
  by (simp add: renderable_def)

lemma renderable_indexes [renderable_intros]:
  "renderable d \<Longrightarrow> (\<And>i. ix_type (f i) = ix_type i) \<Longrightarrow> renderable (upd_index k f d)"
  "renderable d \<Longrightarrow> renderable (delete_index_row k d)"
  "renderable d \<Longrightarrow> insert_index i d = Inr d' \<Longrightarrow> List.member INDEX_TYPES (ix_type i) \<Longrightarrow> renderable d'"
  by (auto simp: renderable_def upd_index_def delete_index_row_def insert_index_def list_all_iff
      upd_where_in split: if_splits)

lemma renderable_rules [renderable_intros]:
  "renderable d \<Longrightarrow> (\<And>r. vr_source_columns r \<noteq> None \<Longrightarrow> vr_source_columns (h r) \<noteq> None) \<Longrightarrow>
     renderable (upd_rule k h d)"
  "renderable d \<Longrightarrow> renderable (delete_rule_row k d)"
  "renderable d \<Longrightarrow> insert_rule r d = Inr d' \<Longrightarrow> vr_source_columns r \<noteq> None \<Longrightarrow> renderable d'"
  by (auto simp: renderable_def upd_rule_def delete_rule_row_def insert_rule_def list_all_iff
      upd_where_in split: if_splits)

lemma submit_keeps_rows:
  "indexes (snd (submit_task cx q uuid now (\<lambda>x. x) d)) = indexes d"
  "rules (snd (submit_task cx q uuid now (\<lambda>x. x) d)) = rules d"
  by (auto simp: submit_task_def Let_def insert_task_def split: sum.split option.split)

section \<open>The errors of the services\<close>

lemma service_errors:
  assumes "wf_db d" and "tenant_context T cx"
  shows "get_dataset cx u d = Inl e \<Longrightarrow> e = DatasetNotFoundError u"
    and "get_task cx u d = Inl e \<Longrightarrow> e = TaskNotFoundError u"
    and "get_index cx u n d = Inl e \<Longrightarrow> e = DatasetNotFoundError u \<or> e = IndexNotFoundError u n"
    and "get_policy cx u n d = Inl e \<Longrightarrow> e = DatasetNotFoundError u \<or> e = PolicyNotFoundError u n"
    and "get_rule cx u n d = Inl e \<Longrightarrow> e = DatasetNotFoundError u \<or> e = RuleNotFoundError u n"
proof -
  note auth = tenant_context(2) [OF assms(2)]
  show "e = DatasetNotFoundError u" if "get_dataset cx u d = Inl e"
  proof (cases "\<exists>obj\<in>set (datasets d). ds_uuid obj = u \<and> sees cx (ds_tenant obj) \<and> ds_status obj \<noteq> DELETED")
    case True
    then show ?thesis using get_dataset_iff [OF assms(1) auth, of u] that by auto
  next
    case False
    then have "get_dataset cx u d = Inl (DatasetNotFoundError u)"
      by (intro get_dataset_not_found [OF assms(1) auth]) blast
    then show ?thesis using that by simp
  qed
  have "unique_on uk_task_uuid (tasks d)" using assms(1) by (simp add: wf_db_def)
  from unique_on_one_or_none [OF this, of "\<lambda>t. sees cx (tk_tenant t)" u]
  obtain x where "one_or_none (filter (\<lambda>t. sees cx (tk_tenant t)) (filter (\<lambda>t. tk_uuid t = u) (tasks d))) = Inr x"
    by (auto simp: uk_task_uuid_def)
  then show "e = TaskNotFoundError u" if "get_task cx u d = Inl e"
    using that auth by (cases x) (simp_all add: get_task_def rls_task)
  show "e = DatasetNotFoundError u \<or> e = IndexNotFoundError u n" if "get_index cx u n d = Inl e"
    by (rule ix_child.get_errors [OF assms(1) auth that])
  show "e = DatasetNotFoundError u \<or> e = PolicyNotFoundError u n" if "get_policy cx u n d = Inl e"
    by (rule lp_child.get_errors [OF assms(1) auth that])
  show "e = DatasetNotFoundError u \<or> e = RuleNotFoundError u n" if "get_rule cx u n d = Inl e"
    by (rule vr_child.get_errors [OF assms(1) auth that])
qed

section \<open>The endpoints\<close>

definition fine :: "reply \<times> db \<Rightarrow> bool" where
  "fine rd \<longleftrightarrow> \<not> crashed (fst rd) \<and> renderable (snd rd)"

lemma fine_handler:
  assumes "tenant_context T cx" and "renderable d" and "valid \<Longrightarrow> fine (call d)"
  shows "fine (handler cx valid call d)"
proof -
  obtain p where "cx_principal cx = Some p" using tenant_context(3) [OF assms(1)] by blast
  then show ?thesis using assms(2,3) by (simp add: handler_def require_current_tenant_def fine_def)
qed

lemma fine_reads:
  assumes "renderable d" and "\<And>e. r = Inl e \<Longrightarrow> caught f e" and "\<And>x. r = Inr x \<Longrightarrow> \<not> crashed (body x)"
  shows "fine (reads (answer f body r) d)"
  using answer_ok [OF assms(2,3)] assms(1) by (simp add: fine_def reads_def)

lemma fine_changes:
  assumes "renderable (snd rd)" and "\<And>e. fst rd = Inl e \<Longrightarrow> caught f e"
    and "\<And>x. fst rd = Inr x \<Longrightarrow> \<not> crashed (body x)"
  shows "fine (changes f body rd)"
  using answer_ok [OF assms(2,3)] assms(1) by (simp add: fine_def changes_def)

lemma crashed_rendered [simp]:
  "crashed (rendered n (index_response i)) \<longleftrightarrow> \<not> List.member INDEX_TYPES (ix_type i) \<or> 500 \<le> n"
  "crashed (rendered n (rule_response r)) \<longleftrightarrow> vr_source_columns r = None \<or> 500 \<le> n"
  by (auto simp: rendered_def index_response_def rule_response_def split: option.split)

lemma all_items_ok: "list_all (\<lambda>x. \<exists>j. f x = Inr j) xs \<Longrightarrow> \<exists>js. all_items f xs = Inr js"
  by (induction xs) auto

lemma listed_ok:
  assumes "list_all (\<lambda>x. \<exists>j. f x = Inr j) (fst r)"
  shows "\<not> crashed (list_reply f r)"
  using all_items_ok [OF assms] by (auto simp: list_reply_def)

lemma fine_datasets:
  assumes "wf_db d" and "tenant_context T cx" and "renderable d"
  shows "fine (rest_list_datasets cx c s p n d)" "fine (rest_create_dataset E cx q d)"
    "fine (rest_get_dataset cx u d)" "fine (rest_delete_dataset cx u d)"
proof -
  note h = fine_handler [OF assms(2,3)] and err = service_errors [OF assms(1,2)]
  have auth: "authenticated cx" by (rule tenant_context(2) [OF assms(2)])
  obtain pr where pr: "cx_principal cx = Some pr" using tenant_context(3) [OF assms(2)] by blast
  show "fine (rest_list_datasets cx c s p n d)"
    unfolding rest_list_datasets_def using auth assms(3)
    by (intro h fine_reads) (auto simp: list_datasets_def rls_dataset Let_def page_reply_def)
  show "fine (rest_create_dataset E cx q d)"
    unfolding rest_create_dataset_def using pr assms(3)
    by (intro h fine_changes)
      (auto simp: create_dataset_def require_current_tenant_def Let_def insert_dataset_def
        intro: renderable_same split: sum.splits if_splits)
  show "fine (rest_get_dataset cx u d)"
    unfolding rest_get_dataset_def using assms(3)
    by (intro h fine_reads) (auto dest: err(1))
  show "fine (rest_delete_dataset cx u d)"
    unfolding rest_delete_dataset_def using assms(3)
    by (intro h fine_changes)
      (auto simp: delete_dataset_def set_dataset_status_def dest: err(1) intro: renderable_same split: sum.splits)
qed

lemma fine_tasks:
  assumes "wf_db d" and "tenant_context T cx" and "renderable d" and "keys_apart T d"
    and "fresh_uuid (re_uuids E 0) d" and "re_other E = (\<lambda>x. x)"
  shows "fine (rest_list_tasks cx ds ty st p n d)" "fine (rest_submit_task E cx q d)"
    "fine (rest_get_task cx u d)" "fine (rest_cancel_task E cx u d)" "fine (rest_retry_task E cx u d)"
proof -
  note h = fine_handler [OF assms(2,3)] and err = service_errors [OF assms(1,2)]
  have auth: "authenticated cx" by (rule tenant_context(2) [OF assms(2)])
  show "fine (rest_list_tasks cx ds ty st p n d)"
    unfolding rest_list_tasks_def using auth assms(3)
    by (intro h fine_reads) (auto simp: list_tasks_def rls_task Let_def page_reply_def)
  obtain x d' where sub: "submit_task cx q (re_uuids E 0) (re_now E) (\<lambda>x. x) d = (Inr x, d')"
    using submit_succeeds [OF assms(1,2,4,5)] by blast
  have "renderable d'"
    using submit_keeps_rows [of cx q "re_uuids E 0" "re_now E" d] sub assms(3) by (auto intro: renderable_same)
  then show "fine (rest_submit_task E cx q d)"
    unfolding rest_submit_task_def assms(6) by (intro h fine_changes) (auto simp: sub split: prod.splits)
  show "fine (rest_get_task cx u d)"
    unfolding rest_get_task_def using assms(3)
    by (intro h fine_reads) (auto dest: err(2))
  show "fine (rest_cancel_task E cx u d)"
    unfolding rest_cancel_task_def using assms(3)
    by (intro h fine_changes)
      (auto simp: cancel_task_def upd_task_def decrement_in_flight_def upd_worker_def Let_def dest!: err(2)
        intro: renderable_same split: sum.splits if_splits)
  show "fine (rest_retry_task E cx u d)"
    unfolding rest_retry_task_def using assms(3)
    by (intro h fine_changes)
      (auto simp: retry_task_def upd_task_def dest!: err(2) intro: renderable_same
        split: sum.splits if_splits)
qed

lemma create_index_result:
  assumes "wf_db d" and "tenant_context T cx" and "renderable d" and "keys_apart T d" and "fresh_uuid uuid d"
    and "valid_index_request q"
  shows "renderable (snd (create_index cx str_exc u q uuid now (\<lambda>x. x) d))"
    and "fst (create_index cx str_exc u q uuid now (\<lambda>x. x) d) = Inl e \<Longrightarrow>
      e = DatasetNotFoundError u \<or> e = IndexAlreadyExistsError u (icr_name q)"
    and "fst (create_index cx str_exc u q uuid now (\<lambda>x. x) d) = Inr i \<Longrightarrow> List.member INDEX_TYPES (ix_type i)"
proof -
  let ?run = "create_index cx str_exc u q uuid now (\<lambda>x. x) d"
  have itype: "List.member INDEX_TYPES (icr_type q)" using assms(6) by (simp add: valid_index_request_def)
  have "renderable (snd ?run) \<and> (\<forall>e. fst ?run = Inl e \<longrightarrow> e = DatasetNotFoundError u \<or> e = IndexAlreadyExistsError u (icr_name q))
      \<and> (\<forall>i. fst ?run = Inr i \<longrightarrow> List.member INDEX_TYPES (ix_type i))"
  proof (cases "get_dataset cx u d")
    case (Inl e)
    then show ?thesis using service_errors(1) [OF assms(1,2) Inl] assms(3) by (simp add: create_index_def)
  next
    case guard: (Inr ds)
    have "\<exists>x. maybe_get_index u (icr_name q) d = Inr x"
      using unique_on_one_or_none [OF ix_child.wf_key [OF assms(1)], of "\<lambda>_. True" "(u, icr_name q)"]
      by (simp add: maybe_get_index_def uk_dataset_index_name_def)
    then obtain ex where ex: "(if icr_replace q then maybe_get_index u (icr_name q) d else Inr None) = Inr ex"
      by (cases "icr_replace q") auto
    define d1 where "d1 = (case ex of None \<Rightarrow> d | Some _ \<Rightarrow> delete_index_row (u, icr_name q) d)"
    define row where "row = new_index u (icr_name q) (icr_column q) (icr_type q) (icr_params q) now"
    have row: "ix_type row = icr_type q" by (simp add: row_def new_index_def)
    have del: "tasks (delete_index_row (u, icr_name q) d) = tasks d" by (simp add: delete_index_row_def)
    have d1: "wf_db d1" "renderable d1" "tasks d1 = tasks d"
      using assms(1,3) del by (auto simp: d1_def intro: wf_delete_index_row renderable_intros split: option.split)
    show ?thesis
    proof (cases "insert_index row d1")
      case (Inl e)
      then show ?thesis using guard ex assms(3) by (simp add: create_index_def d1_def row_def Let_def)
    next
      case ins: (Inr d2)
      have d2: "wf_db d2" "renderable d2" "tasks d2 = tasks d"
        using wf_insert_index [OF d1(1) ins] renderable_indexes(3) [OF d1(2) ins] itype row d1(3) ins
        by (auto simp: insert_index_def split: if_splits)
      have "keys_apart T d2" "fresh_uuid uuid d2" using assms(4,5) d2(3) by (simp_all add: keys_apart_def fresh_uuid_def)
      from submit_succeeds [OF d2(1) assms(2) this, of "build_args u q (next_index_id d1)" now]
      obtain x d3 where sub: "submit_task cx (build_args u q (next_index_id d1)) uuid now (\<lambda>x. x) d2 = (Inr x, d3)"
        by blast
      have "renderable d3"
        using submit_keeps_rows [of cx "build_args u q (next_index_id d1)" uuid now d2] sub d2(2)
        by (auto intro: renderable_same)
      moreover have "?run = (Inr (row\<lparr>ix_id := next_index_id d1\<rparr>), d3)"
        using guard ex ins sub by (simp add: create_index_def d1_def row_def Let_def)
      ultimately show ?thesis using itype row by simp
    qed
  qed
  then show "renderable (snd ?run)" "fst ?run = Inl e \<Longrightarrow> e = DatasetNotFoundError u \<or> e = IndexAlreadyExistsError u (icr_name q)"
    "fst ?run = Inr i \<Longrightarrow> List.member INDEX_TYPES (ix_type i)" by blast+
qed

lemma got_renderable:
  assumes "renderable d"
  shows "get_index cx u n d = Inr i \<Longrightarrow> List.member INDEX_TYPES (ix_type i)"
    and "get_rule cx u n d = Inr r \<Longrightarrow> vr_source_columns r \<noteq> None"
  using assms ix_child.get_Inr(1) [of cx u n d i] vr_child.get_Inr(1) [of cx u n d r]
  by (auto simp: renderable_def list_all_iff)

lemma optimize_index_result:
  assumes "wf_db d" and "tenant_context T cx" and "renderable d" and "keys_apart T d" and "fresh_uuid uuid d"
  shows "renderable (snd (optimize_index cx str_exc u n uuid now (\<lambda>x. x) d))"
    and "fst (optimize_index cx str_exc u n uuid now (\<lambda>x. x) d) = Inl e \<Longrightarrow>
      e = DatasetNotFoundError u \<or> e = IndexNotFoundError u n \<or> e = IndexTransitionError n"
    and "fst (optimize_index cx str_exc u n uuid now (\<lambda>x. x) d) = Inr i \<Longrightarrow> List.member INDEX_TYPES (ix_type i)"
proof -
  let ?run = "optimize_index cx str_exc u n uuid now (\<lambda>x. x) d"
  have "renderable (snd ?run) \<and> (\<forall>e. fst ?run = Inl e \<longrightarrow> e = DatasetNotFoundError u \<or> e = IndexNotFoundError u n \<or> e = IndexTransitionError n)
      \<and> (\<forall>i. fst ?run = Inr i \<longrightarrow> List.member INDEX_TYPES (ix_type i))"
  proof (cases "get_index cx u n d")
    case (Inl e)
    then show ?thesis using service_errors(3) [OF assms(1,2) Inl] assms(3) by (auto simp: optimize_index_def)
  next
    case obj: (Inr obj)
    show ?thesis
    proof (cases "List.member OPTIMIZABLE_STATES (ix_status obj)")
      case False
      then show ?thesis using obj assms(3) by (simp add: optimize_index_def)
    next
      case True
      let ?d1 = "upd_index (u, n) (set_optimizing now) d"
      have d1: "wf_db ?d1" "renderable ?d1"
        using assms(1,3) by (auto intro!: wf_upd_index renderable_intros simp: set_optimizing_def)
      have "keys_apart T ?d1" "fresh_uuid uuid ?d1" using assms(4,5) by (simp_all add: keys_apart_def fresh_uuid_def)
      from submit_succeeds [OF d1(1) assms(2) this, of "optimize_args u n (ix_id obj) now" now]
      obtain x d2 where sub: "submit_task cx (optimize_args u n (ix_id obj) now) uuid now (\<lambda>x. x) ?d1 = (Inr x, d2)"
        by blast
      have "renderable d2"
        using submit_keeps_rows [of cx "optimize_args u n (ix_id obj) now" uuid now ?d1] sub d1(2)
        by (auto intro: renderable_same)
      moreover have "?run = (Inr (set_optimizing now obj), d2)"
        using obj True sub by (simp add: optimize_index_def Let_def)
      ultimately show ?thesis using got_renderable(1) [OF assms(3) obj] by (simp add: set_optimizing_def)
    qed
  qed
  then show "renderable (snd ?run)"
    "fst ?run = Inl e \<Longrightarrow> e = DatasetNotFoundError u \<or> e = IndexNotFoundError u n \<or> e = IndexTransitionError n"
    "fst ?run = Inr i \<Longrightarrow> List.member INDEX_TYPES (ix_type i)" by blast+
qed

lemma shown_iff:
  "(\<exists>j. index_response i = Inr j) \<longleftrightarrow> List.member INDEX_TYPES (ix_type i)"
  "(\<exists>j. rule_response r = Inr j) \<longleftrightarrow> vr_source_columns r \<noteq> None"
  by (auto simp: index_response_def rule_response_def split: option.splits)

lemma listed_children:
  assumes "renderable d"
  shows "list_indexes cx u d = Inr r \<Longrightarrow> \<not> crashed (list_reply index_response r)"
    and "list_rules cx u d = Inr r' \<Longrightarrow> \<not> crashed (list_reply rule_response r')"
  using assms
  by (auto simp: list_indexes_def list_rules_def Let_def renderable_def list_all_iff shown_iff
      split: sum.splits intro!: listed_ok)

lemma list_errors:
  assumes "wf_db d" and "tenant_context T cx"
  shows "list_indexes cx u d = Inl e \<Longrightarrow> e = DatasetNotFoundError u"
    and "list_policies cx u d = Inl e \<Longrightarrow> e = DatasetNotFoundError u"
    and "list_rules cx u d = Inl e \<Longrightarrow> e = DatasetNotFoundError u"
  using service_errors(1) [OF assms]
  by (auto simp: list_indexes_def list_policies_def list_rules_def Let_def split: sum.splits)

lemma fine_indexes:
  assumes "wf_db d" and "tenant_context T cx" and "renderable d" and "keys_apart T d"
    and "fresh_uuid (re_uuids E 0) d" and "re_other E = (\<lambda>x. x)"
  shows "fine (rest_list_indexes cx u d)" "fine (rest_create_index E cx u q d)" "fine (rest_get_index cx u n d)"
    "fine (rest_drop_index cx u n d)" "fine (rest_optimize_index E cx u n d)" "fine (rest_merge_index E cx u n d)"
proof -
  note h = fine_handler [OF assms(2,3)] and err = service_errors [OF assms(1,2)] and got = got_renderable(1) [OF assms(3)]
  show "fine (rest_list_indexes cx u d)"
    unfolding rest_list_indexes_def using assms(3)
    by (intro h fine_reads) (auto dest: list_errors(1) [OF assms(1,2)] listed_children(1) [OF assms(3)]
       )
  show "fine (rest_create_index E cx u q d)"
    unfolding rest_create_index_def assms(6)
  proof (intro h)
    assume "valid_index_request q"
    note res = create_index_result [OF assms(1-5) this, of "re_str_exc E" u "re_now E"]
    show "fine (changes (catching (catch_dataset u) (catch_exists (re_str_exc E)))
        (\<lambda>i. rendered 202 (index_response i))
        (create_index cx (re_str_exc E) u q (re_uuids E 0) (re_now E) (\<lambda>x. x) d))"
      using res(1) by (intro fine_changes) (auto dest!: res(2,3))
  qed
  show "fine (rest_get_index cx u n d)"
    unfolding rest_get_index_def using assms(3)
    by (intro h fine_reads) (auto dest!: err(3) dest: got)
  show "fine (rest_drop_index cx u n d)"
    unfolding rest_drop_index_def using assms(3)
    by (intro h fine_changes)
      (auto simp: drop_index_def dest!: err(3) intro: renderable_intros split: sum.splits if_splits)
  show "fine (rest_optimize_index E cx u n d)"
    unfolding rest_optimize_index_def assms(6)
    by (intro h fine_changes)
      (auto dest!: optimize_index_result(2,3) [OF assms(1-5)] intro: optimize_index_result(1) [OF assms(1-5)])
  show "fine (rest_merge_index E cx u n d)"
    unfolding rest_merge_index_def using assms(3)
    by (intro h fine_changes)
      (auto simp: merge_index_def set_merging_def dest!: err(3) dest: got intro: renderable_intros
        split: sum.splits if_splits)
qed

lemma fine_policies:
  assumes "wf_db d" and "tenant_context T cx" and "renderable d"
  shows "fine (rest_list_policies cx u d)" "fine (rest_create_policy E cx u q d)" "fine (rest_get_policy cx u n d)"
    "pp_watch_enabled pq \<noteq> Some None \<Longrightarrow> fine (rest_update_policy cx u n pq d)"
    "fine (rest_delete_policy cx u n d)" "fine (rest_enable_policy cx u n b d)"
proof -
  note h = fine_handler [OF assms(2,3)] and err = service_errors [OF assms(1,2)]
  have "all_items (\<lambda>p. Inr (policy_response p)) xs = Inr (map policy_response xs)" for xs
    by (induction xs) simp_all
  then have listed: "\<not> crashed (list_reply (\<lambda>p. Inr (policy_response p)) r)" for r by (simp add: list_reply_def)
  show "fine (rest_list_policies cx u d)"
    unfolding rest_list_policies_def using assms(3)
    by (intro h fine_reads) (auto simp: listed dest: list_errors(2) [OF assms(1,2)])
  show "fine (rest_create_policy E cx u q d)"
    unfolding rest_create_policy_def using assms(3)
    by (intro h fine_changes)
      (auto simp: create_policy_def insert_policy_def dest!: err(1) intro: renderable_same
        split: sum.splits if_splits)
  show "fine (rest_get_policy cx u n d)"
    unfolding rest_get_policy_def using assms(3) by (intro h fine_reads) (auto dest!: err(4))
  show "fine (rest_update_policy cx u n pq d)" if "pp_watch_enabled pq \<noteq> Some None"
    unfolding rest_update_policy_def using assms(3) that
    by (intro h fine_changes)
      (auto simp: update_policy_def upd_policy_def dest!: err(4) intro: renderable_same
        split: sum.splits option.splits)
  show "fine (rest_delete_policy cx u n d)"
    unfolding rest_delete_policy_def using assms(3)
    by (intro h fine_changes)
      (auto simp: delete_policy_def delete_policy_row_def dest!: err(4) intro: renderable_same
        split: sum.splits)
  show "fine (rest_enable_policy cx u n b d)"
    unfolding rest_enable_policy_def using assms(3)
    by (intro h fine_changes)
      (auto simp: set_policy_enabled_def upd_policy_def dest!: err(4) intro: renderable_same
        split: sum.splits if_splits)
qed

lemma patched_sources [simp]:
  "vr_source_columns (patch_rule q r) = None \<longleftrightarrow>
     rp_sources q = Some None \<or> rp_sources q = None \<and> vr_source_columns r = None"
  by (auto simp: patch_rule_def patched_def split: option.split)

lemma fine_rules:
  assumes "wf_db d" and "tenant_context T cx" and "renderable d" and "keys_apart T d"
    and "fresh_uuid (re_uuids E 0) d" and "re_other E = (\<lambda>x. x)"
  shows "fine (rest_list_rules cx u d)" "fine (rest_create_rule E cx u q d)" "fine (rest_get_rule cx u c d)"
    "rp_sources rq \<noteq> Some None \<Longrightarrow> \<not> null_in_not_null rq \<Longrightarrow> fine (rest_update_rule E cx u c rq d)"
    "fine (rest_delete_rule cx u c d)" "fine (rest_enable_rule cx u c b d)" "fine (rest_vectorize_now E cx u c d)"
proof -
  note h = fine_handler [OF assms(2,3)] and err = service_errors [OF assms(1,2)] and got = got_renderable(2) [OF assms(3)]
  show "fine (rest_list_rules cx u d)"
    unfolding rest_list_rules_def using assms(3)
    by (intro h fine_reads) (auto dest: list_errors(3) [OF assms(1,2)] listed_children(2) [OF assms(3)]
       )
  have new: "vr_source_columns (new_rule u q now) = Some (rcr_sources q)" for now by (simp add: new_rule_def)
  show "fine (rest_create_rule E cx u q d)"
    unfolding rest_create_rule_def using assms(3)
    by (intro h fine_changes)
      (auto simp: create_rule_def new dest!: err(1) intro:
        renderable_rules(3) split: sum.splits)
  show "fine (rest_get_rule cx u c d)"
    unfolding rest_get_rule_def using assms(3)
    by (intro h fine_reads) (auto dest!: err(5) dest: got)
  show "fine (rest_update_rule E cx u c rq d)" if "rp_sources rq \<noteq> Some None" "\<not> null_in_not_null rq"
  proof -
    have kept: "vr_source_columns r \<noteq> None \<Longrightarrow> vr_source_columns (patch_rule rq r) \<noteq> None" for r using that(1) by simp
    have merged: "get_rule cx u c d = Inr r \<Longrightarrow> \<exists>y. vr_source_columns (patch_rule rq r) = Some y" for r
      by (drule got) (simp only: kept not_None_eq [symmetric] not_False_eq_True)
    show ?thesis
      unfolding rest_update_rule_def using renderable_rules(1) [OF assms(3) kept] that(2) assms(3)
      by (intro h fine_changes)
        (auto simp: update_rule_def Let_def dest!: err(5) intro: merged split: sum.splits if_splits)
  qed
  show "fine (rest_delete_rule cx u c d)"
    unfolding rest_delete_rule_def using assms(3)
    by (intro h fine_changes)
      (auto simp: delete_rule_def dest!: err(5) intro: renderable_rules(2) split: sum.splits)
  show "fine (rest_enable_rule cx u c b d)"
    unfolding rest_enable_rule_def using assms(3)
    by (intro h fine_changes)
      (auto simp: set_rule_enabled_def dest!: err(5) dest: got intro: renderable_rules(1)
        split: sum.splits if_splits)
  show "fine (rest_vectorize_now E cx u c d)"
  proof -
    have "\<exists>x d'. submit_task cx q (re_uuids E 0) (re_now E) (\<lambda>x. x) d = (Inr x, d') \<and> renderable d'" for q
      using submit_succeeds [OF assms(1,2,4,5), of q "re_now E"] submit_keeps_rows [of cx q "re_uuids E 0" "re_now E" d]
        renderable_same [OF assms(3)] by (metis snd_conv)
    then obtain x where x: "\<And>q. fst (submit_task cx q (re_uuids E 0) (re_now E) (\<lambda>x. x) d) = Inr (x q)"
      "\<And>q. renderable (snd (submit_task cx q (re_uuids E 0) (re_now E) (\<lambda>x. x) d))" by (metis fst_conv snd_conv)
    show ?thesis
      unfolding rest_vectorize_now_def assms(6) using assms(3)
      by (intro h fine_changes)
        (auto simp: submit_vectorize_task_def x dest!: err(5) intro: split: sum.splits if_splits prod.splits)
  qed
qed

section \<open>After a PATCH\<close>

lemma get_dataset_same: "datasets d' = datasets d \<Longrightarrow> get_dataset cx u d' = get_dataset cx u d"
  by (simp add: get_dataset_def)

lemma all_items_error:
  assumes "x \<in> set xs" and "f x = Inl e" and "\<And>y e'. f y = Inl e' \<Longrightarrow> e' = e"
  shows "all_items f xs = Inl e"
  using assms(1)
proof (induction xs)
  case (Cons y ys)
  show ?case
  proof (cases "f y")
    case (Inl e')
    then show ?thesis using assms(3) by simp
  next
    case (Inr j)
    then have "x \<in> set ys" using Cons.prems assms(2) by auto
    then show ?thesis using Cons.IH Inr by simp
  qed
qed simp

lemma rule_error: "rule_response r = Inl e \<longleftrightarrow> vr_source_columns r = None \<and> e = ValidationError"
  by (cases "vr_source_columns r") (auto simp: rule_response_def)

lemma bound_handler: "tenant_context T cx \<Longrightarrow> handler cx valid call d = (if valid then call d else (Unprocessable, d))"
  by (drule tenant_context(3)) (auto simp: handler_def require_current_tenant_def)

lemma get_patched_rule:
  assumes "wf_db d" and "get_rule cx u c d = Inr obj"
  shows "get_rule cx u c (upd_rule (u, c) (patch_rule q) d) = Inr (patch_rule q obj)"
proof -
  let ?d = "upd_rule (u, c) (patch_rule q) d"
  obtain ds where ds: "get_dataset cx u d = Inr ds" using assms(2) by (auto simp: get_rule_def split: sum.splits)
  have wf: "wf_db ?d" using assms(1) unfolding upd_rule_def by (rule wf_upd_rules) (simp_all add: uk_defs)
  have "get_dataset cx u ?d = Inr ds" using get_dataset_same [of ?d d cx u] ds by (simp add: upd_rule_def)
  moreover have "patch_rule q obj \<in> set (rules ?d)"
    using vr_child.get_Inr(1,2) [OF assms(2)]
    by (auto simp: upd_rule_def uk_dataset_target_def intro!: upd_where_hit)
  moreover have "uk_dataset_target (patch_rule q obj) = Some (u, c)"
    using vr_child.get_Inr(2) [OF assms(2)] by (simp add: uk_dataset_target_def)
  ultimately show ?thesis using vr_child.get_iff [OF wf] by blast
qed

section \<open>Properties\<close>


text \<open>C26: a null PATCH poisons a rule.  A PATCH of a rule that sends \<open>source_columns: null\<close> and is
  otherwise acceptable commits the null and then ends in a 500 (the column is JSON, so the store
  accepts it, and the response schema refuses it); from then on reading that rule and listing the
  rules of its dataset end in a 500 as well, while deleting it still answers 204.\<close>

theorem null_sources_poison:
  assumes "wf_db d" and "tenant_context T cx" and "get_rule cx u c d = Inr obj" and "valid_rule_patch q"
    and "rp_sources q = Some None" and "\<not> null_in_not_null q"
    and "cron_ok (vr_trigger_type (patch_rule q obj)) (vr_cron_expr (patch_rule q obj))"
    and "serve E cx (UpdateRule u c q) d = (r, d')"
  shows "r = Crash ValidationError
    \<and> fst (serve E' cx (GetRule u c) d') = Crash ValidationError
    \<and> fst (serve E' cx (ListRules u) d') = Crash ValidationError
    \<and> fst (serve E' cx (DeleteRule u c) d') = NoContent"
proof -
  note run = bound_handler [OF assms(2)]
  have none: "vr_source_columns (patch_rule q obj) = None" using assms(5) by simp
  then have bad: "rule_response (patch_rule q obj) = Inl ValidationError" by (simp add: rule_error del: patched_sources)
  have r: "r = Crash ValidationError" "d' = upd_rule (u, c) (patch_rule q) d"
    using assms(3,4,6-8) bad
    by (auto simp: rest_update_rule_def run update_rule_def Let_def changes_def answer_def rendered_def)
  have get: "get_rule cx u c d' = Inr (patch_rule q obj)" unfolding r(2) by (rule get_patched_rule [OF assms(1,3)])
  then obtain ds where ds: "get_dataset cx u d' = Inr ds" by (auto simp: get_rule_def split: sum.splits)
  have "patch_rule q obj \<in> set (newest_first vr_created_at (filter (\<lambda>r. vr_dataset r = u) (rules d')))"
    using vr_child.get_Inr(1,2) [OF get] by (auto simp: uk_dataset_target_def)
  from all_items_error [where f = rule_response, OF this bad]
  have "all_items rule_response (newest_first vr_created_at (filter (\<lambda>r. vr_dataset r = u) (rules d'))) = Inl ValidationError"
    by (simp add: rule_error)
  then show ?thesis
    using r(1) get ds bad
    by (simp add: rest_get_rule_def rest_list_rules_def rest_delete_rule_def run reads_def changes_def answer_def
        rendered_def list_rules_def list_reply_def delete_rule_def Let_def)
qed

text \<open>C24: a task reaches another tenant's storage.  A tenant that names a dataset it cannot see gets
  404 from the dataset endpoint, but its \<open>POST /v1/tasks\<close> for the same dataset is accepted with 202 and
  stores a task of its own on that dataset; when a worker later runs that TTL_DELETE, it deletes rows
  of the other tenant's table, at a cutoff the request chose, and reports success.\<close>

theorem task_reaches_foreign_storage:
  assumes "wf_db d" and "tenant_context T cx" and "ds \<in> set (datasets d)" and "ds_tenant ds \<noteq> T"
    and "valid_submit_request q" and "sa_type q = TTL_DELETE" and "sa_dataset q = ds_uuid ds"
    and "sa_params q = Some [(''ttl_days'', JInt n)]" and "sa_key q = None"
    and "fresh_uuid (re_uuids E 0) d" and "re_other E = (\<lambda>x. x)" and "serve E cx (SubmitTask q) d = (r, d1)"
    and "new_task (re_uuids E 0) TTL_DELETE (ds_uuid ds) T (sa_priority q) (sa_params q) None (sa_max_attempts q) (re_now E) = t"
    and "same_identity t task" and "is_system sx" and "wf_db d2" and "task \<in> set (tasks d2)"
    and "tk_status task = RUNNING" and "tk_worker task = Some wid" and "ds \<in> set (datasets d2)"
    and "lance_storage_endpoint (ee_settings X) \<noteq> []" and "minus_days ((ee_now X)\<lparr>dt_micro := 0\<rparr>) n = Inr cutoff"
    and "delete_rows (ee_lance X) (ee_settings X) (ds_storage_uri ds)
           (''created_at < timestamp '' @ [CHR 0x27] @ isoformat cutoff @ [CHR 0x27]) (storage_options_of X) w = (Inr k, w')"
  shows "fst (serve E cx (GetDataset (ds_uuid ds)) d) = not_found (''dataset '' @ ds_uuid ds @ '' not found'')
    \<and> r = Reply 202 (task_response t) \<and> t \<in> set (tasks d1) \<and> tk_tenant t \<noteq> ds_tenant ds
    \<and> fst (dispatch_and_finalize sx wid task (default_executors X w) now d2) = Inr (succeeded_tick task)
    \<and> snd (ttl_delete X task ds d2 w) = w'"
proof -
  note run = bound_handler [OF assms(2)]
  obtain p where p: "cx_principal cx = Some p" "p_tenant_id p = T" using tenant_context(3) [OF assms(2)] by blast
  have "unique_on uk_dataset_uuid (datasets d)" using assms(1) by (simp add: wf_db_def)
  from unique_on_eqI [OF this assms(3)] have "obj = ds" if "obj \<in> set (datasets d)" "ds_uuid obj = ds_uuid ds" for obj
    using that by (auto simp: uk_dataset_uuid_def)
  then have "get_dataset cx (ds_uuid ds) d = Inl (DatasetNotFoundError (ds_uuid ds))"
    using assms(4) tenant_context(1) [OF assms(2)]
    by (intro get_dataset_not_found [OF assms(1) tenant_context(2) [OF assms(2)]]) auto
  then have hidden: "fst (serve E cx (GetDataset (ds_uuid ds)) d) = not_found (''dataset '' @ ds_uuid ds @ '' not found'')"
    by (simp add: rest_get_dataset_def run reads_def answer_def)
  have "\<not> clash uk_task_uuid t (tasks d)" "\<not> clash uk_idempotency_key t (tasks d)"
    using assms(10) unfolding assms(13) [symmetric]
    by (auto simp: clash_iff uk_task_uuid_def uk_idempotency_key_def new_task_def fresh_uuid_def list_all_iff)
  then have "submit_task cx q (re_uuids E 0) (re_now E) (\<lambda>x. x) d = (Inr (t, True), d\<lparr>tasks := tasks d @ [t]\<rparr>)"
    using p assms(6,7,9) unfolding assms(13) [symmetric]
    by (simp add: submit_task_def require_current_tenant_def scoped_key_def Let_def insert_task_def)
  then have sub: "r = Reply 202 (task_response t)" "t \<in> set (tasks d1)"
    using assms(5,12) by (auto simp: rest_submit_task_def run assms(11) changes_def answer_def)
  have t: "tk_type task = TTL_DELETE" "tk_dataset task = ds_uuid ds" "tk_params task = sa_params q" "tk_tenant t = T"
    using assms(14) unfolding assms(13) [symmetric] by (simp_all add: same_identity_def new_task_def)
  obtain x where x: "ttl_delete X task ds d2 w = (Inr (x, no_writes), w')"
    using assms(8,21-23) t(3) by (simp add: ttl_delete_def opt_params_def io_bind_def Let_def)
  have reg: "default_executors X w (tk_type task) = Some (run_exec X w (ttl_delete X))"
    by (simp add: t(1) default_executors_def build_default_registry_def)
  have "fst (dispatch_and_finalize sx wid task (default_executors X w) now d2) = Inr (succeeded_tick task)"
    using dispatch_run_exec [where f = "ttl_delete X" and executors = "default_executors X w",
        OF assms(15-20) t(2) reg x, of now] finish_running(1) [OF assms(15-19)] by simp
  then show ?thesis using hidden sub t(4) assms(4) x by simp
qed

section \<open>Witnesses\<close>


definition null_sources :: rule_patch where
  "null_sources = drop_cron\<lparr>rp_cron := None, rp_sources := Some None\<rparr>"

lemma get_rules0: "get_rule acme_cx ''u1'' ''vec'' rules0 = Inr ((new_rule ''u1'' rule_request0 t0)\<lparr>vr_id := 1\<rparr>)"
  and wf_rules0: "wf_db rules0"
proof -
  show wf: "wf_db rules0" by (simp add: rules0_def wf_db_def unique_on_Cons clash_iff)
  have "datasets rules0 = [dataset0]" by (simp add: rules0_def)
  then have "get_dataset acme_cx ''u1'' rules0 = Inr dataset0" by (simp add: get_dataset_iff [OF wf])
  then show "get_rule acme_cx ''u1'' ''vec'' rules0 = Inr ((new_rule ''u1'' rule_request0 t0)\<lparr>vr_id := 1\<rparr>)"
    by (simp add: get_rule_def maybe_get_rule_def rules0_def new_rule_def rule_request0_def)
qed

theorem null_sources_poison_witness:
  "fst (serve rest_env0 acme_cx (UpdateRule ''u1'' ''vec'' null_sources) rules0) = Crash ValidationError
 \<and> fst (serve rest_env0 acme_cx (ListRules ''u1'')
      (snd (serve rest_env0 acme_cx (UpdateRule ''u1'' ''vec'' null_sources) rules0))) = Crash ValidationError"
proof -
  have q: "valid_rule_patch null_sources" "rp_sources null_sources = Some None" "\<not> null_in_not_null null_sources"
    by (simp_all add: null_sources_def drop_cron_def valid_rule_patch_def supplied_def null_in_not_null_def)
  have "cron_ok (vr_trigger_type (patch_rule null_sources ((new_rule ''u1'' rule_request0 t0)\<lparr>vr_id := 1\<rparr>)))
      (vr_cron_expr (patch_rule null_sources ((new_rule ''u1'' rule_request0 t0)\<lparr>vr_id := 1\<rparr>)))"
    by (simp add: null_sources_def drop_cron_def patch_rule_def patched_def patched_not_null_def cron_ok_def
        new_rule_def rule_request0_def truthy_def)
  from null_sources_poison [OF wf_rules0 tenant_contexts(1) get_rules0 q this surjective_pairing, of rest_env0 rest_env0]
  show ?thesis by blast
qed

definition ttl_args :: submit_args where
  "ttl_args = \<lparr>sa_type = TTL_DELETE, sa_dataset = ''u1'', sa_priority = 5,
     sa_params = Some [(''ttl_days'', JInt 90)], sa_key = None, sa_max_attempts = 3\<rparr>"

definition ttl_task :: task_row where
  "ttl_task = new_task ''a'' TTL_DELETE ''u1'' ''globex'' 5 (sa_params ttl_args) None 3 t0"

theorem task_reaches_foreign_storage_witness:
  "status_code (fst (serve rest_env0 globex_cx (GetDataset ''u1'') db0)) = 404
 \<and> status_code (fst (serve rest_env0 globex_cx (SubmitTask ttl_args) db0)) = 202
 \<and> fst (dispatch_and_finalize system_cx ''w1'' (set_running ''w1'' t0 ttl_task) (default_executors (exec_env0 ''s3'') ())
      t0 (exec_db0 (set_running ''w1'' t0 ttl_task) [])) = Inr (succeeded_tick (set_running ''w1'' t0 ttl_task))"
proof -
  let ?t = "set_running ''w1'' t0 ttl_task"
  let ?X = "exec_env0 ''s3''"
  have now: "(ee_now ?X)\<lparr>dt_micro := 0\<rparr> = t0" by (simp add: t0_def DT_def)
  have ord: "dt_ordinal t0 = 739012"
    by (simp add: t0_def DT_def dt_ordinal_def days_before_month_def is_leap_def Let_def)
  obtain cutoff where cutoff: "minus_days ((ee_now ?X)\<lparr>dt_micro := 0\<rparr>) 90 = Inr cutoff"
    unfolding now by (cases "ord2ymd 738922") (simp add: minus_days_def ord)
  obtain k where del: "delete_rows (ee_lance ?X) (ee_settings ?X) (ds_storage_uri dataset0)
      (''created_at < timestamp '' @ [CHR 0x27] @ isoformat cutoff @ [CHR 0x27]) (storage_options_of ?X) () = (Inr k, ())"
    by (simp add: delete_rows_def io_bind_def open_dataset_def lance0_def)
  have wf: "wf_db (exec_db0 ?t [])" by (rule wf_exec_db0) simp
  have v: "valid_submit_request ttl_args" by (simp add: valid_submit_request_def ttl_args_def str_between_def opt_max_def)
  have env: "re_other rest_env0 = (\<lambda>x. x)" "re_uuids rest_env0 0 = ''a''" "re_now rest_env0 = t0"
    by (simp_all add: rest_env0_def)
  have same: "same_identity ttl_task ?t" by (simp add: same_identity_def set_running_def)
  have running: "tk_status ?t = RUNNING" "tk_worker ?t = Some ''w1''" by (simp_all add: set_running_def)
  have "fst (serve rest_env0 globex_cx (GetDataset (ds_uuid dataset0)) db0)
        = not_found (''dataset '' @ ds_uuid dataset0 @ '' not found'')
     \<and> fst (serve rest_env0 globex_cx (SubmitTask ttl_args) db0) = Reply 202 (task_response ttl_task)
     \<and> ttl_task \<in> set (tasks (snd (serve rest_env0 globex_cx (SubmitTask ttl_args) db0)))
     \<and> tk_tenant ttl_task \<noteq> ds_tenant dataset0
     \<and> fst (dispatch_and_finalize system_cx ''w1'' ?t (default_executors ?X ()) t0 (exec_db0 ?t []))
        = Inr (succeeded_tick ?t)
     \<and> snd (ttl_delete ?X ?t dataset0 (exec_db0 ?t []) ()) = ()"
    by (rule task_reaches_foreign_storage [OF db0(1) tenant_contexts(2) _ _ v _ _ _ _ _ env(1) surjective_pairing _
          same _ wf _ running _ _ cutoff del])
      (simp_all add: ttl_args_def ttl_task_def env fresh_uuid_def)
  then show ?thesis by (simp add: not_found_def)
qed

end
