(* ===== verification/ControlPlane.thy ===== *)
theory ControlPlane
  imports Execution
begin

text \<open>
  The control plane as one transition system: a step is one committed service call, with
  any arguments and any principal, one planner or watcher pass, one worker-registry call,
  one claim, or one dispatch of any task by any worker over any tame registry of
  executors.  Transactions are serialised here; what a concurrent commit can do inside
  one call is the subject of the operations' own theorems.  The flag of \<open>step\<close> says
  whether a worker that is already registered may register again.
\<close>

section \<open>What the services do to the task and worker tables\<close>

lemma grows_insert:
  "insert_dataset r d = Inr d' \<Longrightarrow> grows d d'" "insert_index r2 d = Inr d' \<Longrightarrow> grows d d'"
  "insert_policy r3 d = Inr d' \<Longrightarrow> grows d d'" "insert_rule r4 d = Inr d' \<Longrightarrow> grows d d'"
  by (auto simp: insert_defs intro!: grows_same split: if_splits)

lemma grows_updates [simp]:
  "grows d (upd_index k f d)" "grows d (delete_index_row k d)" "grows d (upd_policy k g d)"
  "grows d (delete_policy_row k d)" "grows d (upd_rule k h d)" "grows d (delete_rule_row k d)"
  "grows d (set_dataset_status st u d)" "grows d (flip_optimizing i now d)"
  by (auto intro!: grows_same simp: upd_index_def delete_index_row_def upd_policy_def delete_policy_row_def
      upd_rule_def delete_rule_row_def set_dataset_status_def flip_optimizing_def)

lemma grows_submit: "submit_task cx q uuid now (\<lambda>x. x) d = (r, d') \<Longrightarrow> grows d d'"
  using mild_submit_task [of d cx q uuid now] by (simp add: mild_def)

lemma grows_datasets:
  "grows d (snd (create_dataset cx q uuid now d))" "grows d (snd (delete_dataset cx u d))"
  by (auto simp: create_dataset_def delete_dataset_def Let_def grows_insert split: sum.split)

lemma grows_policies:
  "grows d (snd (create_policy cx ds q now d))" "grows d (snd (update_policy cx ds n p d))"
  "grows d (snd (delete_policy cx ds n d))" "grows d (snd (set_policy_enabled cx ds n en d))"
  by (auto simp: create_policy_def update_policy_def delete_policy_def set_policy_enabled_def grows_insert
      split: sum.split option.split)

lemma grows_rules:
  "grows d (snd (create_rule cx ds q now d))" "grows d (snd (update_rule cx ds n p d))"
  "grows d (snd (delete_rule cx ds n d))" "grows d (snd (set_rule_enabled cx ds n en d))"
  "grows d (snd (submit_vectorize_task cx ds n uuid now (\<lambda>x. x) d))"
  using mild_submit_task [of d cx _ uuid now]
  by (auto simp: create_rule_def update_rule_def delete_rule_def set_rule_enabled_def submit_vectorize_task_def
      mild_def grows_insert Let_def split: sum.split option.split)

lemma grows_create_index: "grows d (snd (create_index cx str_exc ds q uuid now (\<lambda>x. x) d))"
proof (cases "\<exists>dso existing. get_dataset cx ds d = Inr dso
    \<and> (if icr_replace q then maybe_get_index ds (icr_name q) d else Inr None) = Inr existing")
  case False
  then have "snd (create_index cx str_exc ds q uuid now (\<lambda>x. x) d) = d"
    by (cases "get_dataset cx ds d";
        cases "if icr_replace q then maybe_get_index ds (icr_name q) d else Inr None") (simp_all add: create_index_def)
  then show ?thesis by simp
next
  case True
  then obtain dso existing where g: "get_dataset cx ds d = Inr dso"
    and e: "(if icr_replace q then maybe_get_index ds (icr_name q) d else Inr None) = Inr existing" by blast
  define d1 where "d1 = (case existing of None \<Rightarrow> d | Some _ \<Rightarrow> delete_index_row (ds, icr_name q) d)"
  define row where "row = new_index ds (icr_name q) (icr_column q) (icr_type q) (icr_params q) now"
  have g1: "grows d d1" by (simp add: d1_def split: option.split)
  show ?thesis
  proof (cases "insert_index row d1")
    case (Inl err)
    then show ?thesis using g e by (simp add: create_index_def d1_def row_def)
  next
    case ins: (Inr d2)
    obtain r d3 where sub: "submit_task cx (build_args ds q (next_index_id d1)) uuid now (\<lambda>x. x) d2 = (r, d3)"
      by fastforce
    have "grows d d3" using grows_trans [OF grows_trans [OF g1 grows_insert(2) [OF ins]] grows_submit [OF sub]] .
    moreover have "snd (create_index cx str_exc ds q uuid now (\<lambda>x. x) d)
        = (case r of Inl x \<Rightarrow> upd_index (ds, icr_name q) (set_ix_error IX_FAILED (str_exc x)) d3 | Inr _ \<Rightarrow> d3)"
      using g e ins sub by (simp add: create_index_def d1_def row_def Let_def split: sum.split)
    ultimately show ?thesis by (auto split: sum.split intro: grows_trans)
  qed
qed

lemma grows_optimize_index: "grows d (snd (optimize_index cx str_exc ds n uuid now (\<lambda>x. x) d))"
proof -
  have fin: "grows d d2" if "submit_task cx a uuid now (\<lambda>x. x) (upd_index k f d) = (r, d2)" for a k f r d2
    using grows_trans [OF grows_updates(1) grows_submit [OF that]] .
  show ?thesis
    by (auto simp: optimize_index_def Let_def fin intro: grows_trans [OF fin grows_updates(1)] split: sum.split prod.split)
qed

lemma grows_indexes:
  "grows d (snd (drop_index cx ds n d))" "grows d (snd (merge_index cx ds n now d))"
  by (auto simp: drop_index_def merge_index_def split: sum.split)

text \<open>A planner pass and a watcher pass: the view only ever grows from the committed database.\<close>

definition extends :: "db \<Rightarrow> db \<Rightarrow> bool" where
  "extends d d' \<longleftrightarrow> grows d d' \<and> good_step d d'"

lemma extends_refl [simp]: "extends d d"
  by (simp add: extends_def)

lemma extends_trans: "extends a b \<Longrightarrow> extends b c \<Longrightarrow> extends a c"
  by (auto simp: extends_def intro: grows_trans good_step_trans)

lemma mild_extends: "mild d d' \<Longrightarrow> extends d d'"
  by (simp add: extends_def mild_good_step) (simp add: mild_def)

definition keeps_view :: "db \<Rightarrow> (pstate \<Rightarrow> pstate res) \<Rightarrow> bool" where
  "keeps_view d f \<longleftrightarrow> (\<forall>s s'. pl_committed s = d \<and> extends d (pl_work s) \<and> f s = Inr s' \<longrightarrow>
     pl_committed s' = d \<and> extends d (pl_work s'))"

lemma keeps_viewI:
  "(\<And>s s'. pl_committed s = d \<Longrightarrow> extends d (pl_work s) \<Longrightarrow> f s = Inr s' \<Longrightarrow>
     pl_committed s' = d \<and> extends d (pl_work s')) \<Longrightarrow> keeps_view d f"
  unfolding keeps_view_def by blast

lemma keeps_viewD:
  "keeps_view d f \<Longrightarrow> pl_committed s = d \<Longrightarrow> extends d (pl_work s) \<Longrightarrow> f s = Inr s' \<Longrightarrow>
     pl_committed s' = d \<and> extends d (pl_work s')"
  unfolding keeps_view_def by blast

lemma keeps_view_emit: "keeps_view d (emit cx uuids now e)"
proof (rule keeps_viewI)
  fix s s' assume s: "pl_committed s = d" "extends d (pl_work s)" and run: "emit cx uuids now e s = Inr s'"
  have "extends d d'" if "insert_task (emission_task u now e) (pl_work s) = Inr d'" for u d'
    using extends_trans [OF s(2) mild_extends [OF mild_insert_task [OF that emission_task_sel(5)]]] .
  then show "pl_committed s' = d \<and> extends d (pl_work s')"
    using s run by (auto simp: emit_def Let_def split: sum.splits option.splits)
qed

lemma keeps_view_try: "keeps_view d (try_emit_task cx uuids now p ds b t pars)"
  unfolding try_emit_task_def [abs_def] by (rule keeps_view_emit)

lemma keeps_view_Inr: "keeps_view d Inr"
  by (rule keeps_viewI) simp

lemma keeps_view_live:
  assumes "keeps_view d f"
  shows "keeps_view d (live f)"
proof (rule keeps_viewI)
  fix s s' assume "pl_committed s = d" "extends d (pl_work s)" "live f s = Inr s'"
  then show "pl_committed s' = d \<and> extends d (pl_work s')"
    using keeps_viewD [OF assms, of s s'] by (simp add: live_def split: if_splits)
qed

lemma keeps_view_andthen:
  assumes "keeps_view d f" and "keeps_view d g"
  shows "keeps_view d (\<lambda>s. andthen (f s) g)"
proof (rule keeps_viewI)
  fix s s' assume s: "pl_committed s = d" "extends d (pl_work s)" and run: "andthen (f s) g = Inr s'"
  then obtain s1 where s1: "f s = Inr s1" "g s1 = Inr s'" by (auto simp: andthen_def split: sum.splits)
  from keeps_viewD [OF assms(1) s s1(1)] keeps_viewD [OF assms(2) _ _ s1(2)]
  show "pl_committed s' = d \<and> extends d (pl_work s')" by blast
qed

lemma keeps_view_for_each:
  assumes "\<And>x. keeps_view d (f x)"
  shows "keeps_view d (for_each f xs)"
proof (induction xs)
  case Nil
  have "for_each f [] = Inr" by (rule ext) simp
  then show ?case by (simp add: keeps_view_Inr)
next
  case (Cons x xs)
  have "for_each f (x # xs) = (\<lambda>s. andthen (live (f x) s) (for_each f xs))" by (rule ext) simp
  then show ?case using keeps_view_andthen [OF keeps_view_live [OF assms] Cons] by simp
qed

text \<open>A step whose parameters are read from the state.\<close>

lemma keeps_view_reading:
  assumes "\<And>x. keeps_view d (f x)"
  shows "keeps_view d (\<lambda>s. f (g s) s)"
proof (rule keeps_viewI)
  fix s s' assume s: "pl_committed s = d" "extends d (pl_work s)" "f (g s) s = Inr s'"
  show "pl_committed s' = d \<and> extends d (pl_work s')" by (rule keeps_viewD [OF assms s])
qed

lemma keeps_view_if: "(b \<Longrightarrow> keeps_view d f) \<Longrightarrow> (\<not> b \<Longrightarrow> keeps_view d g) \<Longrightarrow> keeps_view d (\<lambda>s. if b then f s else g s)"
  by (cases b) simp_all

lemma keeps_view_stamp: "keeps_view d (\<lambda>s. Inr (stamp_policy now p s))"
proof (rule keeps_viewI)
  fix s s' assume s: "pl_committed s = d" "extends d (pl_work s)" "Inr (stamp_policy now p s) = (Inr s' :: pstate res)"
  have "mild x (x\<lparr>policies := upd_where (\<lambda>q. lp_id q = lp_id p) (\<lambda>q. q\<lparr>lp_last_run_at := Some now\<rparr>) (policies x)\<rparr>)" for x
    by (rule mild_same) (simp_all add: wf_upd_policies uk_defs)
  from extends_trans [OF s(2) mild_extends [OF this]]
  show "pl_committed s' = d \<and> extends d (pl_work s')" using s(1,3) by (auto simp: stamp_policy_def)
qed

lemma keeps_view_plan_for_policy: "keeps_view d (plan_for_policy cx uuids now p ds)"
proof -
  have auto: "keeps_view d (emit_auto_optimize cx uuids now p ds i)" for i
    unfolding emit_auto_optimize_def [abs_def] by (rule keeps_view_emit)
  have ttl: "keeps_view d (\<lambda>s. case lp_ttl_days p of None \<Rightarrow> Inr s
      | Some n \<Rightarrow> try_emit_task cx uuids now p ds TTL_DELETE b (pars n) s)" for b pars
    by (cases "lp_ttl_days p") (simp_all add: keeps_view_Inr keeps_view_try)
  have thr: "keeps_view d (\<lambda>s. case lp_compaction_threshold p of None \<Rightarrow> Inr s | Some [] \<Rightarrow> Inr s
      | Some (x # xs) \<Rightarrow> try_emit_task cx uuids now p ds COMPACTION b (pars x xs) s)" for b pars
    by (cases "lp_compaction_threshold p"; cases "the (lp_compaction_threshold p)")
      (simp_all add: keeps_view_Inr keeps_view_try)
  have opt: "keeps_view d (\<lambda>s. if b then try_emit_task cx uuids now p ds INDEX_OPTIMIZE t pars s else Inr s)" for b t pars
    by (rule keeps_view_if) (rule keeps_view_try keeps_view_Inr)+
  have auto_all: "keeps_view d (\<lambda>s. if b then for_each (emit_auto_optimize cx uuids now p ds) (xs s) s else Inr s)" for b xs
    by (rule keeps_view_if, rule keeps_view_reading [where f = "for_each (emit_auto_optimize cx uuids now p ds)"],
        rule keeps_view_for_each, rule auto, rule keeps_view_Inr)
  have rules: "keeps_view d (\<lambda>s. for_each (\<lambda>r. try_emit_task cx uuids now p ds VECTORIZE t (pars r)) (xs s) s)" for t pars xs
    by (rule keeps_view_reading [where f = "for_each (\<lambda>r. try_emit_task cx uuids now p ds VECTORIZE t (pars r))"],
        rule keeps_view_for_each, rule keeps_view_try)
  show ?thesis
    unfolding plan_for_policy_def [abs_def]
    by (rule keeps_view_andthen, rule keeps_view_live, rule ttl,
        rule keeps_view_andthen, rule keeps_view_live, rule thr,
        rule keeps_view_andthen, rule keeps_view_live, rule opt,
        rule keeps_view_andthen, rule keeps_view_live, rule auto_all,
        rule keeps_view_andthen, rule keeps_view_live, rule rules, rule keeps_view_stamp)
qed

lemma plan_once_extends: "extends d (snd (plan_once cx uuids now d))"
proof -
  have policy: "keeps_view d (plan_policy cx uuids now p)" for p
  proof (rule keeps_viewI)
    fix s s' assume s: "pl_committed s = d" "extends d (pl_work s)" "plan_policy cx uuids now p s = Inr s'"
    then show "pl_committed s' = d \<and> extends d (pl_work s')"
      using keeps_viewD [OF keeps_view_plan_for_policy s(1,2)]
      by (auto simp: plan_policy_def split: sum.splits option.splits)
  qed
  define s0 where "s0 = \<lparr>pl_committed = d, pl_work = d, pl_expired = False, pl_fresh = 0, pl_emitted = [], pl_dups = 0\<rparr>"
  have "extends d (pl_work s)" if "for_each (plan_policy cx uuids now) ps s0 = Inr s" for ps s
    using keeps_viewD [OF keeps_view_for_each [OF policy] _ _ that] by (simp add: s0_def)
  then show ?thesis by (simp add: plan_once_def s0_def [symmetric] Let_def split: sum.split)
qed

definition watch_view :: "db \<Rightarrow> wstate \<Rightarrow> bool" where
  "watch_view d s \<longleftrightarrow> ws_committed s = d \<and> extends d (ws_work s)"

lemma watch_view_emit:
  assumes "watch_view d s"
    and "try_emit_optimize_task cx uuids now idx ds dec reason latest s = Inr (out, s')"
  shows "watch_view d s'"
proof -
  have ins: "extends d d2" if "insert_task (new_task u ty dds te pr pa k m now')
      (flip_optimizing i now (ws_work s)) = Inr d2" for u ty dds te pr pa k m now' i d2
  proof -
    have "extends (ws_work s) (flip_optimizing i now (ws_work s))"
      using good_step_flip by (simp add: extends_def)
    from extends_trans [OF this mild_extends [OF mild_insert_task [OF that fresh_new_task]]]
    show ?thesis using assms(1) by (auto simp: watch_view_def intro: extends_trans)
  qed
  show ?thesis
    using assms ins by (auto simp: try_emit_optimize_task_def watch_view_def Let_def split: sum.splits option.splits)
qed

lemma watch_view_count [simp]: "watch_view d (count f s) = watch_view d s"
  by (simp add: watch_view_def count_def)

lemma watch_view_row:
  assumes "watch_view d s" and "watch_row cx uuids now read_stats n row s = Inr s'"
  shows "watch_view d s'"
proof -
  have emit: "watch_view d s2" if "try_emit_optimize_task cx uuids now idx ds dec reason latest (count f s)
      = Inr (out, s2)" for idx ds dec reason latest f out s2
    by (rule watch_view_emit [OF _ that]) (simp add: assms(1))
  show ?thesis
    using assms by (auto simp: watch_row_def Let_def dest!: emit
        split: prod.splits if_splits option.splits sum.splits)
qed

lemma watch_view_loop:
  "watch_view d s \<Longrightarrow> watch_loop cx uuids now read_stats n rows s = Inr s' \<Longrightarrow> watch_view d s'"
  by (induction rows arbitrary: n s) (auto split: sum.splits dest: watch_view_row)

lemma run_watch_pass_extends: "extends d (snd (run_watch_pass cx uuids now read_stats d))"
proof -
  have "watch_view d \<lparr>ws_committed = d, ws_work = d, ws_expired = False, ws_fresh = 0,
      ws_report = empty_report\<rparr>" by (simp add: watch_view_def)
  note watch_view_loop [OF this, of cx uuids now read_stats 0]
  then show ?thesis
    by (auto simp: run_watch_pass_def Let_def watch_view_def split: sum.splits)
qed

lemma service_extends:
  "extends d (snd (create_dataset cx dq uuid now d))" "extends d (snd (delete_dataset cx u d))"
  "extends d (snd (submit_task cx sq uuid now (\<lambda>x. x) d))"
  "extends d (snd (create_index cx str_exc ds iq uuid now (\<lambda>x. x) d))"
  "extends d (snd (optimize_index cx str_exc ds n uuid now (\<lambda>x. x) d))"
  "extends d (snd (drop_index cx ds n d))" "extends d (snd (merge_index cx ds n now d))"
  "extends d (snd (create_policy cx ds pq now d))" "extends d (snd (update_policy cx ds n pp d))"
  "extends d (snd (delete_policy cx ds n d))" "extends d (snd (set_policy_enabled cx ds n en d))"
  "extends d (snd (create_rule cx ds rq now d))" "extends d (snd (update_rule cx ds n rp d))"
  "extends d (snd (delete_rule cx ds n d))" "extends d (snd (set_rule_enabled cx ds n en d))"
  "extends d (snd (submit_vectorize_task cx ds n uuid now (\<lambda>x. x) d))"
proof -
  have "mild d (snd (create_dataset cx dq uuid now d))" "mild d (snd (delete_dataset cx u d))"
    using wf_create_dataset [OF _ surjective_pairing] wf_delete_dataset [OF _ surjective_pairing]
    by (simp_all add: mild_def grows_datasets)
  then show "extends d (snd (create_dataset cx dq uuid now d))" "extends d (snd (delete_dataset cx u d))"
    by (simp_all add: mild_extends)
  show "extends d (snd (submit_task cx sq uuid now (\<lambda>x. x) d))" by (rule mild_extends [OF mild_submit_task])
qed (simp_all add: extends_def grows_create_index grows_optimize_index grows_indexes grows_policies grows_rules
    create_index_good optimize_index_good drop_index_good merge_index_good create_policy_good update_policy_good
    delete_policy_good set_policy_enabled_good create_rule_good update_rule_good delete_rule_good
    set_rule_enabled_good submit_vectorize_good)

section \<open>The transition system\<close>

definition tame_registry :: "registry \<Rightarrow> bool" where
  "tame_registry executors \<longleftrightarrow> (\<forall>ty f. executors ty = Some f \<longrightarrow> tame f)"

lemma default_registry_tame: "tame_registry (default_executors E w)"
  using default_executors_tame by (auto simp: tame_registry_def)

inductive step :: "bool \<Rightarrow> db \<Rightarrow> db \<Rightarrow> bool" for rereg where
  create_dataset: "step rereg d (snd (create_dataset cx dq uuid now d))"
| delete_dataset: "step rereg d (snd (delete_dataset cx u d))"
| submit_task: "step rereg d (snd (submit_task cx sq uuid now (\<lambda>x. x) d))"
| cancel_task: "step rereg d (snd (cancel_task cx u now d))"
| retry_task: "step rereg d (snd (retry_task cx u d))"
| create_index: "step rereg d (snd (create_index cx str_exc ds iq uuid now (\<lambda>x. x) d))"
| optimize_index: "step rereg d (snd (optimize_index cx str_exc ds n uuid now (\<lambda>x. x) d))"
| merge_index: "step rereg d (snd (merge_index cx ds n now d))"
| drop_index: "step rereg d (snd (drop_index cx ds n d))"
| create_policy: "step rereg d (snd (create_policy cx ds pq now d))"
| update_policy: "step rereg d (snd (update_policy cx ds n pp d))"
| delete_policy: "step rereg d (snd (delete_policy cx ds n d))"
| set_policy_enabled: "step rereg d (snd (set_policy_enabled cx ds n en d))"
| create_rule: "step rereg d (snd (create_rule cx ds rq now d))"
| update_rule: "step rereg d (snd (update_rule cx ds n rp d))"
| delete_rule: "step rereg d (snd (delete_rule cx ds n d))"
| set_rule_enabled: "step rereg d (snd (set_rule_enabled cx ds n en d))"
| vectorize_now: "step rereg d (snd (submit_vectorize_task cx ds n uuid now (\<lambda>x. x) d))"
| plan: "step rereg d (snd (plan_once cx uuids now d))"
| watch: "step rereg d (snd (run_watch_pass cx uuids now read_stats d))"
| register: "rereg \<or> wa_id a \<notin> wk_id ` set (workers d) \<Longrightarrow> wa_id a \<noteq> [] \<Longrightarrow>
    step rereg d (snd (register_worker cx a leases nows (\<lambda>_ x. x) n d))"
| heartbeat: "step rereg d (snd (heartbeat cx wid lease now d))"
| drain: "step rereg d (snd (drain_worker cx wid d))"
| claim: "step rereg d (snd (claim_next_task cx wid lease ty locked now (\<lambda>x. x) d))"
| dispatch: "tame_registry executors \<Longrightarrow>
    step rereg d (snd (dispatch_and_finalize cx wid task executors now d))"
| reap: "step rereg d (snd (reap_dead_workers cx timeout locked at_us d))"

abbreviation reachable :: "bool \<Rightarrow> db \<Rightarrow> bool" where
  "reachable rereg \<equiv> (step rereg)\<^sup>*\<^sup>* empty_db"

text \<open>The steps by their effect.\<close>

lemma dispatch_cases:
  assumes "tame_registry executors" and "dispatch_and_finalize cx wid task executors now d = (r, d')"
  obtains (view) "mild d d'"
    | (finish) x res code msg r' where "mild d x"
        "complete_task cx wid (tk_uuid task) res now x = (r', d') \<or> fail_task cx wid (tk_uuid task) code msg now x = (r', d')"
proof -
  have fail: thesis if "fail_and_report cx wid task code msg now x = (r, d')" "mild d x" for code msg x
  proof -
    let ?f = "fail_task cx wid (tk_uuid task) code msg now x"
    have "snd ?f = d'" using fail_and_report_db [of cx wid task code msg now x] that(1) by simp
    then have "?f = (fst ?f, d')" by (simp add: prod_eq_iff)
    from finish [OF that(2) disjI2, OF this] show thesis .
  qed
  show thesis
  proof (cases "\<exists>ds f. select_dataset cx (tk_dataset task) d = Inr (Some ds) \<and> executors (tk_type task) = Some f")
    case False
    then consider "d' = d" | code msg where "fail_and_report cx wid task code msg now d = (r, d')"
      using assms(2) by (auto simp: dispatch_and_finalize_def split: sum.splits option.splits)
    then show thesis
    proof cases
      case 1
      then show thesis using view by simp
    next
      case 2
      from fail [OF this mild_refl] show thesis .
    qed
  next
    case True
    then obtain ds f where f: "select_dataset cx (tk_dataset task) d = Inr (Some ds)" "executors (tk_type task) = Some f"
      by blast
    obtain er d1 where run: "f task ds d = (er, d1)" by fastforce
    have t: "mild d d1" "mild d (session_view er d1)"
    proof -
      have "tame f" using assms(1) f(2) unfolding tame_registry_def by blast
      from this [unfolded tame_def, rule_format, of d task ds] run
      show "mild d d1" "mild d (session_view er d1)" by simp_all
    qed
    show thesis
    proof (cases er)
      case (Inl e)
      then show thesis using assms(2) f run fail [OF _ t(1)] by (cases e) (simp add: dispatch_and_finalize_def)
    next
      case (Inr pw)
      obtain p writes where pw: "pw = (p, writes)" by (cases pw)
      obtain cr cd where c: "complete_task cx wid (tk_uuid task) (Some p) now (writes d1) = (cr, cd)" by fastforce
      have "d' = cd \<or> d' = d1" using assms(2) f run Inr pw c by (cases cr) (simp_all add: dispatch_and_finalize_def)
      then show thesis using finish [OF t(2)] c view t(1) Inr pw by (auto simp: session_view_def)
    qed
  qed
qed

lemma step_cases:
  assumes "step rereg d d'"
  obtains (extends) "extends d d'"
    | (cancel) cx u now r where "cancel_task cx u now d = (r, d')"
    | (retry) cx u r where "retry_task cx u d = (r, d')"
    | (register) cx a leases nows n r where "rereg \<or> wa_id a \<notin> wk_id ` set (workers d)" "wa_id a \<noteq> []"
        "register_worker cx a leases nows (\<lambda>_ x. x) n d = (r, d')"
    | (heartbeat) cx wid lease now r where "heartbeat cx wid lease now d = (r, d')"
    | (drain) cx wid r where "drain_worker cx wid d = (r, d')"
    | (claim) cx wid lease ty locked now r where "claim_next_task cx wid lease ty locked now (\<lambda>x. x) d = (r, d')"
    | (dispatch) cx wid task executors now r where "tame_registry executors"
        "dispatch_and_finalize cx wid task executors now d = (r, d')"
    | (reap) cx timeout locked at_us r where "reap_dead_workers cx timeout locked at_us d = (r, d')"
  using assms
proof (cases rule: step.cases)
  case (cancel_task cx u now)
  then have "cancel_task cx u now d = (fst (cancel_task cx u now d), d')" by simp
  from that(2) [OF this] show thesis .
next
  case (retry_task cx u)
  then have "retry_task cx u d = (fst (retry_task cx u d), d')" by simp
  from that(3) [OF this] show thesis .
next
  case (register a cx leases nows n)
  then have "register_worker cx a leases nows (\<lambda>_ x. x) n d = (fst (register_worker cx a leases nows (\<lambda>_ x. x) n d), d')" by simp
  from that(4) [OF register(2,3) this] show thesis .
next
  case (heartbeat cx wid lease now)
  then have "heartbeat cx wid lease now d = (fst (heartbeat cx wid lease now d), d')" by simp
  from that(5) [OF this] show thesis .
next
  case (drain cx wid)
  then have "drain_worker cx wid d = (fst (drain_worker cx wid d), d')" by simp
  from that(6) [OF this] show thesis .
next
  case (claim cx wid lease ty locked now)
  then have "claim_next_task cx wid lease ty locked now (\<lambda>x. x) d = (fst (claim_next_task cx wid lease ty locked now (\<lambda>x. x) d), d')" by simp
  from that(7) [OF this] show thesis .
next
  case (dispatch executors cx wid task now)
  then have "dispatch_and_finalize cx wid task executors now d = (fst (dispatch_and_finalize cx wid task executors now d), d')" by simp
  from that(8) [OF dispatch(2) this] show thesis .
next
  case (reap cx timeout locked at_us)
  then have "reap_dead_workers cx timeout locked at_us d = (fst (reap_dead_workers cx timeout locked at_us d), d')" by simp
  from that(9) [OF this] show thesis .
qed (rule extends, simp add: service_extends plan_once_extends run_watch_pass_extends)+

section \<open>Invariants\<close>

definition healthy :: "db \<Rightarrow> bool" where
  "healthy d \<longleftrightarrow> wf_db d \<and> wf_tasks d \<and> wf_workers d \<and> attended d"

lemma healthyD: "healthy d \<Longrightarrow> wf_db d" "healthy d \<Longrightarrow> wf_tasks d" "healthy d \<Longrightarrow> wf_workers d" "healthy d \<Longrightarrow> attended d"
  by (simp_all add: healthy_def)

lemma extends_healthy: "extends d d' \<Longrightarrow> healthy d \<Longrightarrow> healthy d'"
  by (auto simp: extends_def healthy_def good_step_def grows_wf_workers grows_attended)

lemma empty_healthy: "healthy empty_db"
  by (simp add: healthy_def wf_empty_db) (simp add: empty_db_def wf_tasks_def wf_workers_def attended_def running_set_def)

lemma finish_healthy:
  assumes "healthy d"
    and "complete_task cx wid u res now d = (r, d') \<or> fail_task cx wid u code msg now d = (r, d')"
  shows "healthy d'" and "tasks_evolve d d'"
  using finish_wf [OF healthyD(1,2) [OF assms(1)] assms(2)] wf_workers_finish [OF healthyD(3) [OF assms(1)] assms(2)]
    attended_finish [OF healthyD(4) [OF assms(1)] assms(2)]
  by (simp_all add: healthy_def)

lemma wf_workers_status:
  assumes "wf_workers d" and "\<And>w. wk_in_flight (f w) = wk_in_flight w \<and> wk_capacity (f w) = wk_capacity w"
  shows "wf_workers (upd_worker wid f d)"
  by (rule wf_workers_upd [OF assms(1)]) (use assms in \<open>auto simp: wf_workers_def\<close>)

lemma same_tasks_evolve:
  assumes "tasks d' = tasks d"
  shows "tasks_evolve\<^sup>*\<^sup>* d d'"
  using tasks_evolve_same [OF assms] by (rule r_into_rtranclp)

lemma step_healthy:
  assumes "step rereg d d'" and "healthy d"
  shows "healthy d' \<and> tasks_evolve\<^sup>*\<^sup>* d d'"
proof -
  note h = healthyD [OF assms(2)]
  from assms(1) show ?thesis
  proof (cases rule: step_cases)
    case extends
    then show ?thesis using extends_healthy [OF extends assms(2)] h by (simp add: extends_def good_step_def)
  next
    case (cancel cx u now r)
    show ?thesis
      using wf_cancel_task [OF h(1) cancel] wf_tasks_cancel [OF h(2) cancel] wf_workers_cancel [OF h(3) cancel]
        attended_cancel [OF h(4) cancel] cancel_task_evolves [OF h(1) cancel] by (simp add: healthy_def)
  next
    case (retry cx u r)
    have "workers d' = workers d" using retry_task_cases [OF retry] by auto
    then show ?thesis
      using wf_retry_task [OF h(1) retry] wf_tasks_retry [OF h(1,2) retry] wf_workers_same [of d' d] h(3)
        attended_retry [OF h(4) retry] retry_task_evolves [OF h(1) retry] by (simp add: healthy_def)
  next
    case (register cx a leases nows n r)
    have "wf_db d' \<and> tasks d' = tasks d"
      by (rule register_cases [OF register(3), of "\<lambda>x. wf_db x \<and> tasks x = tasks d"])
        (use h in \<open>auto simp: refreshed_worker_def insert_worker_tasks intro: wf_upd_worker wf_insert_worker\<close>)
    then show ?thesis
      using wf_workers_register [OF h(3) register(3)] attended_register [OF h(4) register(3)] h(2)
      by (auto simp: healthy_def wf_tasks_def intro: same_tasks_evolve)
  next
    case (heartbeat cx wid lease now r)
    from heartbeat_cases [OF this] h attended_heartbeat [OF h(4) heartbeat]
    show ?thesis by (auto simp: healthy_def wf_tasks_def intro: same_tasks_evolve wf_upd_worker wf_workers_status)
  next
    case (drain cx wid r)
    from drain_cases [OF this] h attended_drain [OF h(4) drain]
    show ?thesis by (auto simp: healthy_def wf_tasks_def intro: same_tasks_evolve wf_upd_worker wf_workers_status)
  next
    case (claim cx wid lease ty locked now r)
    from claim_wf [OF h(1) h(1) h(2) h(2) tasks_evolve_refl claim] wf_workers_claim [OF h(1,3) claim]
      attended_claim [OF h(4) claim] show ?thesis by (auto simp: healthy_def)
  next
    case (dispatch cx wid task executors now r)
    then show ?thesis
    proof (cases rule: dispatch_cases)
      case view
      from mild_extends [OF this] extends_healthy [OF mild_extends [OF this] assms(2)] h
      show ?thesis by (simp add: extends_def good_step_def)
    next
      case (finish x res code msg r')
      have x: "healthy x" "tasks_evolve\<^sup>*\<^sup>* d x"
        using extends_healthy [OF mild_extends [OF finish(1)] assms(2)] mild_extends [OF finish(1)] h
        by (simp_all add: extends_def good_step_def)
      from finish_healthy [OF x(1) finish(2)] x(2) show ?thesis by (auto intro: rtranclp.rtrancl_into_rtrancl)
    qed
  next
    case (reap cx timeout locked at_us r)
    then show ?thesis
    proof (cases rule: reap_cases)
      case refused
      then show ?thesis using assms(2) by simp
    next
      case (reaped out)
      have "healthy d' \<and> tasks_evolve\<^sup>*\<^sup>* d d'"
      proof (rule reap_loop_invariant [where Q = "\<lambda>x. healthy x \<and> tasks_evolve\<^sup>*\<^sup>* d x", OF reaped(3)])
        fix wid x assume "healthy x \<and> tasks_evolve\<^sup>*\<^sup>* d x"
        then show "healthy (reap_worker wid x) \<and> tasks_evolve\<^sup>*\<^sup>* d (reap_worker wid x)"
          using reap_worker_wf [of x wid] wf_workers_reap_worker [of x wid] attended_reap_worker [of x wid]
          by (auto simp: healthy_def intro: rtranclp.rtrancl_into_rtrancl)
      qed (simp add: assms(2))
      then show ?thesis .
    qed
  qed
qed

lemma steps_healthy:
  assumes "(step rereg)\<^sup>*\<^sup>* d d'" and "healthy d"
  shows "healthy d' \<and> tasks_evolve\<^sup>*\<^sup>* d d'"
  using assms(1)
proof (induction rule: rtranclp_induct)
  case base
  then show ?case using assms(2) by simp
next
  case (step y z)
  from step_healthy [OF step(2)] step(3) show ?case by (auto intro: rtranclp_trans)
qed

text \<open>Without re-registration \<open>in_flight\<close> counts the RUNNING tasks.\<close>

lemma register_new:
  assumes "wa_id a \<notin> wk_id ` set (workers d)" and "register_worker cx a leases nows (\<lambda>_ x. x) n d = (r, d')"
  shows "d' = d \<or> insert_worker (new_worker (wa_id a) (wa_type a) (wa_host a) (leases n) (wa_capacity a)
      (wa_labels a) (nows n)) d = Inr d'"
proof -
  have fresh: "wk_id w \<noteq> wa_id a" if "w \<in> set (workers d)" for w using assms(1) that by (metis image_eqI)
  then have "filter (\<lambda>w. wk_id w = wa_id a) (workers d) = []" by (auto simp: filter_empty_conv)
  then have none: "select_worker (wa_id a) d = Inr None" by (simp add: select_worker_def)
  have "insert_worker (new_worker (wa_id a) (wa_type a) (wa_host a) (leases n) (wa_capacity a) (wa_labels a) (nows n)) d
      \<noteq> Inl e" for e
    using fresh by (auto simp: insert_worker_def clash_iff uk_worker_id_def new_worker_def)
  then show ?thesis
    using assms(2) none
    by (auto simp: register_worker.simps [of cx a leases nows "\<lambda>_ x. x" n d] Let_def split: sum.splits)
qed

lemma accounted_register:
  assumes "attended d" and "accounted d" and "wa_id a \<noteq> []" and "wa_id a \<notin> wk_id ` set (workers d)"
    and "register_worker cx a leases nows (\<lambda>_ x. x) n d = (r, d')"
  shows "accounted d'"
  using register_new [OF assms(4,5)]
proof
  assume ins: "insert_worker (new_worker (wa_id a) (wa_type a) (wa_host a) (leases n) (wa_capacity a)
      (wa_labels a) (nows n)) d = Inr d'"
  have "\<not> running_on (wa_id a) t" if "t \<in> set (tasks d)" for t
  proof
    assume "running_on (wa_id a) t"
    then have "t \<in> running_set d" "tk_worker t = Some (wa_id a)"
      using that by (auto simp: running_set_def running_on_def)
    then obtain w where "w \<in> set (workers d)" "wk_id w = wa_id a" using assms(1) by (auto simp: attended_def)
    then show False using assms(4) by (metis image_eqI)
  qed
  then have "load (wa_id a) d = 0" by (simp add: load_def filter_empty_conv)
  moreover have "load w d' = load w d" for w using insert_worker_tasks [OF ins] by (simp add: load_def)
  ultimately show ?thesis
    using ins assms(2,3) by (auto simp: accounted_def insert_worker_def new_worker_def split: if_splits)
qed (use assms(2) in simp)

lemma step_accounted:
  assumes "step False d d'" and "healthy d" and "accounted d"
  shows "accounted d'"
proof -
  note h = healthyD [OF assms(2)]
  from assms(1) show ?thesis
  proof (cases rule: step_cases)
    case extends
    then show ?thesis using grows_accounted [OF _ assms(3)] by (simp add: extends_def)
  next
    case (cancel cx u now r)
    then show ?thesis by (rule accounted_cancel [OF h(1) assms(3) h(2)])
  next
    case (retry cx u r)
    then show ?thesis by (rule accounted_retry [OF h(1) assms(3)])
  next
    case (register cx a leases nows n r)
    then show ?thesis by (intro accounted_register [OF h(4) assms(3)]) auto
  next
    case (heartbeat cx wid lease now r)
    from heartbeat_cases [OF this] assms(3) show ?thesis by (auto intro: accounted_upd_worker)
  next
    case (drain cx wid r)
    from drain_cases [OF this] assms(3) show ?thesis by (auto intro: accounted_upd_worker)
  next
    case (claim cx wid lease ty locked now r)
    then show ?thesis by (rule accounted_claim [OF h(1) assms(3)])
  next
    case (dispatch cx wid task executors now r)
    then show ?thesis
    proof (cases rule: dispatch_cases)
      case view
      then show ?thesis using grows_accounted [OF _ assms(3)] by (simp add: mild_def)
    next
      case (finish x res code msg r')
      have "wf_db x" "accounted x" using finish(1) h grows_accounted [OF _ assms(3)] by (simp_all add: mild_def)
      then show ?thesis using finish(2) by (rule accounted_finish)
    qed
  next
    case (reap cx timeout locked at_us r)
    then show ?thesis
    proof (cases rule: reap_cases)
      case (reaped out)
      show ?thesis
        by (rule reap_loop_invariant [OF reaped(3), of accounted]) (use assms(3) accounted_reap_worker in auto)
    qed (use assms(3) in simp)
  qed
qed

lemma steps_accounted:
  assumes "reachable False d"
  shows "healthy d \<and> accounted d"
  using assms
proof (induction rule: rtranclp_induct)
  case base
  show ?case using empty_healthy by (simp add: accounted_def empty_db_def)
next
  case (step y z)
  from step_healthy [OF step(2)] step_accounted [OF step(2)] step(3) show ?case by blast
qed

section \<open>Properties\<close>




section \<open>Witnesses\<close>

lemma reachable_db0: "reachable rereg db0" and reachable_db1: "reachable rereg db1"
  and step_db1: "step rereg db1 (snd (cancel_task acme_cx ''a'' t0 db1))"
proof -
  have "snd (create_dataset acme_cx request0 ''u1'' t0 empty_db) = db0"
    by (simp add: create_dataset_def require_current_tenant_def insert_dataset_def db0_def empty_db_def
        dataset0_def request0_def Let_def clash_iff)
  then have "step rereg empty_db db0"
    using step.create_dataset [of rereg empty_db acme_cx request0 "''u1''" t0] by simp
  then show db0: "reachable rereg db0" by blast
  have "step rereg db0 db1" using step.submit_task [of rereg db0 acme_cx args0 "''a''" t0] by (simp add: submit0)
  with db0 show "reachable rereg db1" by (rule rtranclp.rtrancl_into_rtrancl)
  show "step rereg db1 (snd (cancel_task acme_cx ''a'' t0 db1))" by (rule step.cancel_task)
qed




end
