(* ===== verification/Daemons.thy ===== *)
theory Daemons
  imports ControlPlane
begin

text \<open>
  The processes: the worker daemon (\<open>src/lcp/workers/lifecycle_worker.py\<close>) with its heartbeat and
  planner loops, the watcher daemon (\<open>src/lcp/workers/index_watcher_cli.py\<close>), the planner job
  (\<open>src/lcp/workers/lifecycle_planner_cli.py\<close>), and the metrics they report
  (\<open>src/lcp/observability/metrics.py\<close>).  Every process works in the system context with the
  statement hook installed.  A run is given by a finite prefix of what its environment does: the
  clock, the other processes, the shutdown signal.  The Prometheus client is not modelled: a
  process yields the list of calls it makes on the collectors.
\<close>

section \<open>Metrics\<close>

datatype collector =
    Gauge string "string list"
  | Counter string "string list"
  | Histogram string "string list" "rat list"

datatype metric_call =
    Inc string "(string \<times> string) list" int
  | Observe string "(string \<times> string) list" rat
  | SetTo string "(string \<times> string) list" rat
  | Remove string "string list"

definition LATENCY_BUCKETS_SECONDS :: "rat list" where
  "LATENCY_BUCKETS_SECONDS = [1/20, 1/10, 1/4, 1/2, 1, 5/2, 5, 10, 30, 60, 120, 300, 600]"

definition build_registry :: "collector list" where
  "build_registry =
     [Gauge ''lcp_build_info'' [''version'', ''component''],
      Counter ''lcp_watcher_pass_total'' [''result''],
      Histogram ''lcp_watcher_pass_duration_seconds'' [] LATENCY_BUCKETS_SECONDS,
      Counter ''lcp_watcher_indexes_scanned_total'' [],
      Counter ''lcp_watcher_tasks_enqueued_total'' [],
      Counter ''lcp_task_finished_total'' [''type'', ''result''],
      Histogram ''lcp_task_duration_seconds'' [''type''] LATENCY_BUCKETS_SECONDS,
      Histogram ''lcp_gravitino_request_duration_seconds'' [''op'', ''result''] LATENCY_BUCKETS_SECONDS]"

fun collector_name :: "collector \<Rightarrow> string" where
  "collector_name (Gauge n ls) = n"
| "collector_name (Counter n ls) = n"
| "collector_name (Histogram n ls bs) = n"

text \<open>\<open>_collector\<close>: the collector registered under a name; a missing one is a \<open>KeyError\<close>.\<close>

definition collector :: "string \<Rightarrow> collector option" where
  "collector name = find (\<lambda>c. collector_name c = name) build_registry"

definition VERSION :: string where
  "VERSION = ''0.1.0''"

text \<open>The \<open>KeyError\<close> of removing a placeholder that is gone is swallowed.\<close>

definition set_build_component :: "string \<Rightarrow> metric_call list" where
  "set_build_component process =
     [Remove ''lcp_build_info'' [VERSION, ''unknown''],
      SetTo ''lcp_build_info'' [(''version'', VERSION), (''component'', process)] 1]"

definition DEFAULT_METRICS_PORT :: int where
  "DEFAULT_METRICS_PORT = 9464"

definition OSError :: lcp_error where
  "OSError = OtherError ''OSError''"

text \<open>
  \<open>bind p\<close> is the exception \<open>start_http_server\<close> raises on port \<open>p\<close>, if any; an \<open>OSError\<close> is
  logged and tolerated.
\<close>

definition start_metrics_server ::
  "(int \<Rightarrow> lcp_error option) \<Rightarrow> string option \<Rightarrow> string \<Rightarrow> int option \<Rightarrow> int option res \<times> metric_call list" where
  "start_metrics_server bind env_port process port =
     (let resolved = (case port of
            Some p \<Rightarrow> Inr p
          | None \<Rightarrow> if truthy env_port then int_of_text (the env_port) else Inr DEFAULT_METRICS_PORT)
      in (case resolved of
            Inl e \<Rightarrow> Inl e
          | Inr p \<Rightarrow>
              if p = 0 then Inr None
              else case bind p of
                     None \<Rightarrow> Inr (Some p)
                   | Some e \<Rightarrow> if e = OSError then Inr None else Inl e,
          set_build_component process))"

definition record_pass_metrics :: "watch_report \<Rightarrow> rat \<Rightarrow> string \<Rightarrow> metric_call list" where
  "record_pass_metrics report elapsed result =
     [Inc ''lcp_watcher_pass_total'' [(''result'', result)] 1,
      Observe ''lcp_watcher_pass_duration_seconds'' [] elapsed]
     @ (if wr_scanned report > 0 then [Inc ''lcp_watcher_indexes_scanned_total'' [] (int (wr_scanned report))] else [])
     @ (if wr_enqueued report > 0 then [Inc ''lcp_watcher_tasks_enqueued_total'' [] (int (wr_enqueued report))] else [])"

definition record_outcome_metrics :: "tick_outcome \<Rightarrow> rat \<Rightarrow> metric_call list" where
  "record_outcome_metrics outcome elapsed =
     (if \<not> to_claimed outcome then []
      else let typ = (case to_type outcome of None \<Rightarrow> ''UNKNOWN'' | Some t \<Rightarrow> task_type_str t);
               result = (case to_final outcome of None \<Rightarrow> ''UNKNOWN'' | Some s \<Rightarrow> task_status_str s)
           in [Inc ''lcp_task_finished_total'' [(''type'', typ), (''result'', result)] 1,
               Observe ''lcp_task_duration_seconds'' [(''type'', typ)] elapsed])"

section \<open>The watcher daemon\<close>

text \<open>
  One round of the environment: whether shutdown is set when the loop tests it, what the others
  committed meanwhile, the exception of opening the session if any, and the inputs of the pass.
\<close>

record watch_env =
  we_shutdown :: bool
  we_idle :: "db \<Rightarrow> db"
  we_session :: "lcp_error option"
  we_uuids :: "nat \<Rightarrow> string"
  we_now :: datetime
  we_stats :: "nat \<Rightarrow> string \<Rightarrow> string \<Rightarrow> live_stats option res"
  we_elapsed :: rat

definition watcher_pass :: "rls_ctx \<Rightarrow> watch_env \<Rightarrow> db \<Rightarrow> watch_report res \<times> db" where
  "watcher_pass cx e d =
     (case we_session e of
        Some err \<Rightarrow> (Inl err, d)
      | None \<Rightarrow> run_watch_pass cx (we_uuids e) (we_now e) (we_stats e) d)"

definition pass_metrics :: "watch_env \<Rightarrow> watch_report res \<Rightarrow> metric_call list" where
  "pass_metrics e r =
     (case r of
        Inl _ \<Rightarrow> [Inc ''lcp_watcher_pass_total'' [(''result'', ''error'')] 1]
      | Inr report \<Rightarrow> record_pass_metrics report (we_elapsed e) ''success'')"

fun watcher_loop ::
  "rls_ctx \<Rightarrow> int \<Rightarrow> watch_env list \<Rightarrow> int \<Rightarrow> db \<Rightarrow> exit_reason \<times> metric_call list \<times> db" where
  "watcher_loop cx max_iterations [] iteration d = (StillRunning, [], d)"
| "watcher_loop cx max_iterations (e # rest) iteration d =
     (if we_shutdown e then (Shutdown, [], d)
      else let (r, d1) = watcher_pass cx e (we_idle e d)
           in if max_iterations \<noteq> 0 \<and> iteration + 1 \<ge> max_iterations
              then (MaxIterations, pass_metrics e r, d1)
              else let (why, calls, d2) = watcher_loop cx max_iterations rest (iteration + 1) d1
                   in (why, pass_metrics e r @ calls, d2))"

definition watcher_interval :: "rat option \<Rightarrow> settings \<Rightarrow> rat" where
  "watcher_interval arg cfg = (case arg of None \<Rightarrow> index_watcher_interval_seconds cfg | Some s \<Rightarrow> s)"

definition watcher_run ::
  "(int \<Rightarrow> lcp_error option) \<Rightarrow> string option \<Rightarrow> rls_ctx \<Rightarrow> int \<Rightarrow> watch_env list \<Rightarrow> db
     \<Rightarrow> exit_reason \<times> metric_call list \<times> db" where
  "watcher_run bind env_port cx max_iterations envs d =
     (case start_metrics_server bind env_port ''watcher'' None of
        (Inl e, calls) \<Rightarrow> (Crashed e, calls, d)
      | (Inr _, calls) \<Rightarrow>
          (case watcher_loop cx max_iterations envs 0 d of (why, passes, d') \<Rightarrow> (why, calls @ passes, d')))"

section \<open>The planner job\<close>

definition planner_cli :: "rls_ctx \<Rightarrow> (nat \<Rightarrow> string) \<Rightarrow> datetime \<Rightarrow> db \<Rightarrow> int \<times> db" where
  "planner_cli cx uuids now d =
     (case plan_once cx uuids now d of (Inl e, d') \<Rightarrow> (1, d') | (Inr _, d') \<Rightarrow> (0, d'))"

section \<open>The worker daemon\<close>

record daemon_args =
  da_task_type :: "string option"
  da_idle_seconds :: rat
  da_busy_seconds :: rat
  da_heartbeat_seconds :: rat
  da_max_iterations :: int
  da_worker_id :: "string option"
  da_planner_seconds :: rat
  da_disable_planner :: bool

definition default_daemon_args :: daemon_args where
  "default_daemon_args = \<lparr>da_task_type = None, da_idle_seconds = 2, da_busy_seconds = 1/10,
     da_heartbeat_seconds = 10, da_max_iterations = 0, da_worker_id = None,
     da_planner_seconds = 60, da_disable_planner = False\<rparr>"

definition default_worker_id :: "string \<Rightarrow> string \<Rightarrow> string" where
  "default_worker_id hostname hex = hostname @ ''-'' @ take 8 hex"

definition planner_enabled :: "daemon_args \<Rightarrow> bool" where
  "planner_enabled a \<longleftrightarrow> \<not> da_disable_planner a \<and> da_planner_seconds a > 0"

text \<open>One tick of \<open>_planner_loop\<close>: every exception is logged and swallowed.\<close>

definition planner_loop_tick :: "rls_ctx \<Rightarrow> (nat \<Rightarrow> string) \<Rightarrow> datetime \<Rightarrow> db \<Rightarrow> db" where
  "planner_loop_tick cx uuids now d = snd (plan_once cx uuids now d)"

text \<open>What happens between two iterations: the background loops, and the other processes.\<close>

datatype loop_event = Beat datetime | PlanTick "nat \<Rightarrow> string" datetime | Elsewhere "db \<Rightarrow> db"

fun on_event :: "rls_ctx \<Rightarrow> worker_config \<Rightarrow> bool \<Rightarrow> loop_event \<Rightarrow> db \<Rightarrow> db" where
  "on_event cx cfg planner (Beat now) d = heartbeat_tick cx (wc_worker cfg) (wc_lease cfg) now d"
| "on_event cx cfg planner (PlanTick uuids now) d = (if planner then planner_loop_tick cx uuids now d else d)"
| "on_event cx cfg planner (Elsewhere f) d = f d"

definition worker_registration :: "daemon_args \<Rightarrow> string \<Rightarrow> worker_args" where
  "worker_registration a generated =
     \<lparr>wa_id = (if truthy (da_worker_id a) then the (da_worker_id a) else generated),
      wa_type = ''lifecycle'', wa_host = None, wa_capacity = 1, wa_labels = None\<rparr>"

definition worker_run ::
  "(int \<Rightarrow> lcp_error option) \<Rightarrow> string option \<Rightarrow> rls_ctx \<Rightarrow> daemon_args \<Rightarrow> string \<Rightarrow> (nat \<Rightarrow> string)
     \<Rightarrow> (nat \<Rightarrow> datetime) \<Rightarrow> registry \<Rightarrow> (bool \<times> loop_event list \<times> tick_env) list \<Rightarrow> db
     \<Rightarrow> exit_reason \<times> tick_outcome list \<times> db" where
  "worker_run bind env_port cx a generated leases nows executors prefix d =
     (case start_metrics_server bind env_port ''worker'' None of
        (Inl e, _) \<Rightarrow> (Crashed e, [], d)
      | (Inr _, _) \<Rightarrow>
          (case register_worker cx (worker_registration a generated) leases nows (\<lambda>_ x. x) 0 d of
             (Inl e, d1) \<Rightarrow> (Crashed e, [], d1)
           | (Inr w, d1) \<Rightarrow>
               let cfg = \<lparr>wc_worker = wk_id w, wc_lease = wk_lease w, wc_task_type = da_task_type a\<rparr>;
                   idle = (\<lambda>events d. fold (on_event cx cfg (planner_enabled a)) events d)
               in drain_loop cx cfg executors (da_max_iterations a)
                    (map (\<lambda>(shutdown, events, env). (shutdown, idle events, env)) prefix) 0 d1))"

fun exit_code :: "exit_reason \<Rightarrow> int option" where
  "exit_code Shutdown = Some 0"
| "exit_code MaxIterations = Some 0"
| "exit_code (Crashed e) = Some 1"
| "exit_code StillRunning = None"

section \<open>Lemmas\<close>

text \<open>A call that the registry can serve: a registered collector of the right kind, with its labels.\<close>

fun declared :: "metric_call \<Rightarrow> bool" where
  "declared (Inc n ls k) \<longleftrightarrow> collector n = Some (Counter n (map fst ls)) \<and> 0 \<le> k"
| "declared (Observe n ls v) \<longleftrightarrow> collector n = Some (Histogram n (map fst ls) LATENCY_BUCKETS_SECONDS)"
| "declared (SetTo n ls v) \<longleftrightarrow> collector n = Some (Gauge n (map fst ls))"
| "declared (Remove n vs) \<longleftrightarrow> (case collector n of Some (Gauge _ ls) \<Rightarrow> length vs = length ls | _ \<Rightarrow> False)"

fun is_pass :: "metric_call \<Rightarrow> bool" where
  "is_pass (Inc n ls k) \<longleftrightarrow> n = ''lcp_watcher_pass_total''"
| "is_pass _ \<longleftrightarrow> False"

lemma declared_start: "list_all declared (snd (start_metrics_server bind env_port process port))"
  by (simp add: start_metrics_server_def Let_def set_build_component_def collector_def build_registry_def)

lemma declared_pass: "list_all declared (pass_metrics e r)"
  by (cases r) (simp_all add: pass_metrics_def record_pass_metrics_def collector_def build_registry_def)

lemma declared_loop: "list_all declared (fst (snd (watcher_loop cx mx envs i d)))"
  by (induction envs arbitrary: i d) (simp_all add: declared_pass Let_def case_prod_unfold)

text \<open>The passes of a loop that nothing stops, and their results.\<close>

fun all_passes :: "rls_ctx \<Rightarrow> watch_env list \<Rightarrow> db \<Rightarrow> metric_call list \<times> db" where
  "all_passes cx [] d = ([], d)"
| "all_passes cx (e # rest) d =
     (let (r, d1) = watcher_pass cx e (we_idle e d); (calls, d2) = all_passes cx rest d1
      in (pass_metrics e r @ calls, d2))"

definition passes_due :: "int \<Rightarrow> nat \<Rightarrow> nat" where
  "passes_due mx k = (if mx = 0 then k else min k (nat (max 1 mx)))"

lemma watcher_loop_general:
  assumes "k = length (takeWhile (\<lambda>e. \<not> we_shutdown e) envs)"
    and "n = (if mx = 0 then k else min k (nat (max 1 (mx - i))))"
  shows "watcher_loop cx mx envs i d =
    (if mx \<noteq> 0 \<and> nat (max 1 (mx - i)) \<le> k then MaxIterations
     else if k < length envs then Shutdown else StillRunning,
     all_passes cx (take n envs) d)"
  using assms
proof (induction envs arbitrary: i d k n)
  case Nil
  then show ?case by simp
next
  case (Cons e rest)
  show ?case
  proof (cases "we_shutdown e")
    case True
    then show ?thesis using Cons.prems by simp
  next
    case run: False
    let ?k = "length (takeWhile (\<lambda>e. \<not> we_shutdown e) rest)"
    have k: "k = Suc ?k" using Cons.prems(1) run by simp
    obtain r d1 where p: "watcher_pass cx e (we_idle e d) = (r, d1)" by fastforce
    show ?thesis
    proof (cases "mx \<noteq> 0 \<and> mx \<le> i + 1")
      case True
      then have "max 1 (mx - i) = 1" "n = 1" using Cons.prems(2) k by auto
      then show ?thesis using True run k p by simp
    next
      case False
      let ?n = "if mx = 0 then ?k else min ?k (nat (max 1 (mx - (i + 1))))"
      have m: "nat (max 1 (mx - i)) = Suc (nat (max 1 (mx - (i + 1))))" if "mx \<noteq> 0"
        using False that by auto
      have n: "n = Suc ?n" using Cons.prems(2) k m by auto
      from Cons.IH [OF refl refl, of "i + 1" d1] False run p k n m show ?thesis
        by (auto split: prod.split)
    qed
  qed
qed

lemma run_iteration_outcome:
  assumes "run_iteration cx config executors env d = (Inr out, d')"
  shows "to_claimed out \<longrightarrow> to_final out = Some SUCCEEDED \<or> to_final out = Some FAILED"
  using assms dispatch_finalised(4) [of cx "wc_worker config" _ executors "te_finish_at env" _ out d']
  by (auto simp: run_iteration_def no_claim_def split: prod.splits sum.splits option.splits)

text \<open>Everything a worker process does is a step of the control plane.\<close>

definition lawful_event :: "bool \<Rightarrow> loop_event \<Rightarrow> bool" where
  "lawful_event rereg ev \<longleftrightarrow> (case ev of Elsewhere f \<Rightarrow> (\<forall>d. (step rereg)\<^sup>*\<^sup>* d (f d)) | _ \<Rightarrow> True)"

lemma event_steps:
  assumes "lawful_event rereg ev"
  shows "(step rereg)\<^sup>*\<^sup>* d (on_event cx cfg planner ev d)"
proof (cases ev)
  case (Beat now)
  then show ?thesis by (simp add: heartbeat_tick_def) (rule r_into_rtranclp, rule step.heartbeat)
next
  case (PlanTick uuids now)
  have "(step rereg)\<^sup>*\<^sup>* d (planner_loop_tick cx uuids now d)"
    unfolding planner_loop_tick_def by (rule r_into_rtranclp, rule step.plan)
  then show ?thesis using PlanTick by simp
next
  case (Elsewhere f)
  then show ?thesis using assms by (simp add: lawful_event_def)
qed

lemma events_steps:
  "\<forall>ev\<in>set evs. lawful_event rereg ev \<Longrightarrow> (step rereg)\<^sup>*\<^sup>* d (fold (on_event cx cfg planner) evs d)"
proof (induction evs arbitrary: d)
  case (Cons ev evs)
  have "(step rereg)\<^sup>*\<^sup>* d (on_event cx cfg planner ev d)" using Cons.prems by (intro event_steps) simp
  then show ?case using Cons.IH [of "on_event cx cfg planner ev d"] Cons.prems by (auto intro: rtranclp_trans)
qed simp

lemma iteration_steps:
  assumes "tame_registry executors" and "te_other env = (\<lambda>x. x)" and "run_iteration cx cfg executors env d = (r, d')"
  shows "(step rereg)\<^sup>*\<^sup>* d d'"
proof -
  let ?claim = "claim_next_task cx (wc_worker cfg) (wc_lease cfg) (wc_task_type cfg) (te_locked env) (te_claim_at env)
      (\<lambda>x. x) d"
  have first: "step rereg d (snd ?claim)" by (rule step.claim)
  have second: "step rereg (snd ?claim)
      (snd (dispatch_and_finalize cx (wc_worker cfg) t executors (te_finish_at env) (snd ?claim)))" for t
    by (rule step.dispatch [OF assms(1)])
  show ?thesis
  proof (cases "\<exists>t. fst ?claim = Inr (Some t)")
    case False
    then have "d' = snd ?claim"
      using assms(2,3) by (cases "?claim") (auto simp: run_iteration_def split: sum.splits option.splits)
    then show ?thesis using first by blast
  next
    case True
    then obtain t d1 where c: "?claim = (Inr (Some t), d1)" by (cases "?claim") auto
    let ?run = "dispatch_and_finalize cx (wc_worker cfg) t executors (te_finish_at env) d1"
    have "?run = (r, d')" using assms(2,3) c by (simp add: run_iteration_def)
    then have "d' = snd ?run" by (metis snd_conv)
    then show ?thesis using first second [of t] c by (auto intro: rtranclp.rtrancl_into_rtrancl)
  qed
qed

lemma drain_loop_steps:
  assumes "tame_registry executors" and "\<forall>(sh, idle, env)\<in>set prefix. te_other env = (\<lambda>x. x) \<and> (\<forall>d. (step rereg)\<^sup>*\<^sup>* d (idle d))"
    and "drain_loop cx cfg executors mx prefix i d = (why, outs, d')"
  shows "(step rereg)\<^sup>*\<^sup>* d d' \<and> (\<forall>out\<in>set outs. to_claimed out \<longrightarrow> to_final out = Some SUCCEEDED \<or> to_final out = Some FAILED)"
  using assms(2,3)
proof (induction prefix arbitrary: i d why outs)
  case Nil
  then show ?case by simp
next
  case (Cons e rest)
  obtain sh idle env where e: "e = (sh, idle, env)" by (cases e)
  show ?case
  proof (cases sh)
    case True
    then show ?thesis using Cons.prems e by simp
  next
    case False
    obtain r d1 where run: "run_iteration cx cfg executors env (idle d) = (r, d1)" by fastforce
    have "(step rereg)\<^sup>*\<^sup>* d (idle d)" "te_other env = (\<lambda>x. x)" using Cons.prems(1) e by auto
    with iteration_steps [OF assms(1) this(2) run] have d1: "(step rereg)\<^sup>*\<^sup>* d d1" by (auto intro: rtranclp_trans)
    show ?thesis
    proof (cases r)
      case (Inl err)
      then show ?thesis using Cons.prems(2) e False run d1 by simp
    next
      case (Inr out)
      then have out: "to_claimed out \<longrightarrow> to_final out = Some SUCCEEDED \<or> to_final out = Some FAILED"
        using run_iteration_outcome [of cx cfg executors env "idle d" out d1] run by simp
      show ?thesis
      proof (cases "mx \<noteq> 0 \<and> mx \<le> i + 1")
        case True
        then show ?thesis using Cons.prems(2) e False run d1 out Inr by auto
      next
        case go: False
        obtain why2 outs2 d2 where rec: "drain_loop cx cfg executors mx rest (i + 1) d1 = (why2, outs2, d2)"
          by (cases "drain_loop cx cfg executors mx rest (i + 1) d1")
        have eqs: "d' = d2" "outs = out # outs2" using Cons.prems(2) e False run Inr go rec by auto
        have "\<forall>(sh, idle, env)\<in>set rest. te_other env = (\<lambda>x. x) \<and> (\<forall>d. (step rereg)\<^sup>*\<^sup>* d (idle d))"
          using Cons.prems(1) by simp
        from Cons.IH [OF this, of "i + 1" d1 why2 outs2] rec eqs(1)
        have "(step rereg)\<^sup>*\<^sup>* d1 d' \<and> (\<forall>out\<in>set outs2. to_claimed out \<longrightarrow>
            to_final out = Some SUCCEEDED \<or> to_final out = Some FAILED)" by simp
        then show ?thesis using eqs(2) d1 out by (auto intro: rtranclp_trans)
      qed
    qed
  qed
qed

section \<open>A worker that beats in time\<close>

text \<open>
  Beats of one worker and sweeps of the reaper.  \<open>timely gap prev\<close>: every sweep happens at most
  \<open>gap\<close> after the beat before it (\<open>prev\<close> for the first ones).
\<close>

datatype pulse = Pulse datetime | Sweep "string \<Rightarrow> bool" int

fun on_pulse :: "rls_ctx \<Rightarrow> string \<Rightarrow> string \<Rightarrow> int \<Rightarrow> pulse \<Rightarrow> db \<Rightarrow> db" where
  "on_pulse cx wid lease timeout (Pulse now) d = heartbeat_tick cx wid lease now d"
| "on_pulse cx wid lease timeout (Sweep locked now) d = snd (reap_dead_workers cx timeout locked now d)"

fun timely :: "int \<Rightarrow> int \<Rightarrow> pulse list \<Rightarrow> bool" where
  "timely gap prev [] \<longleftrightarrow> True"
| "timely gap prev (Pulse t # ps) \<longleftrightarrow> timely gap (dt_us t) ps"
| "timely gap prev (Sweep locked now # ps) \<longleftrightarrow> now \<le> prev + gap \<and> timely gap prev ps"

definition tasks_of :: "string \<Rightarrow> db \<Rightarrow> task_row set" where
  "tasks_of wid d = {t \<in> running_set d. tk_worker t = Some wid}"

definition live_worker :: "string \<Rightarrow> string \<Rightarrow> int \<Rightarrow> worker_status \<Rightarrow> db \<Rightarrow> bool" where
  "live_worker wid lease prev st d \<longleftrightarrow>
     wf_db d \<and> st \<noteq> DEAD \<and>
     (\<exists>w\<in>set (workers d). wk_id w = wid \<and> wk_lease w = lease \<and> wk_status w = st
        \<and> dt_us (wk_last_heartbeat_at w) = prev)"

lemma one_worker:
  assumes "wf_db d" and "w \<in> set (workers d)" and "w' \<in> set (workers d)" and "wk_id w' = wk_id w"
  shows "w' = w"
proof -
  have "unique_on uk_worker_id (workers d)" using assms(1) by (simp add: wf_db_def)
  from unique_on_eqI [OF this assms(2,3)] assms(4) show ?thesis by (simp add: uk_worker_id_def)
qed

lemma beat_live:
  assumes "is_system cx" and "live_worker wid lease prev st d"
  shows "live_worker wid lease (dt_us now) st (heartbeat_tick cx wid lease now d)"
    and "tasks_of wid (heartbeat_tick cx wid lease now d) = tasks_of wid d"
proof -
  obtain w where wf: "wf_db d" and w: "w \<in> set (workers d)" "wk_id w = wid" "wk_lease w = lease" "wk_status w = st"
    and st: "st \<noteq> DEAD"
    using assms(2) by (auto simp: live_worker_def)
  have "unique_on uk_worker_id (workers d)" using wf by (simp add: wf_db_def)
  from unique_on_select [OF this w(1), of wid] w(2)
  have "filter (\<lambda>x. wk_id x = wid) (workers d) = [w]" by (simp add: uk_worker_id_def)
  then have get: "get_worker wid d = Inr w" by (simp add: get_worker_def select_worker_def)
  let ?beat = "\<lambda>w. w\<lparr>wk_last_heartbeat_at := now, wk_status := (if wk_status w = DEAD then ALIVE else wk_status w)\<rparr>"
  have run: "heartbeat_tick cx wid lease now d = upd_worker wid ?beat d"
    using get w(3) assms(1) by (simp add: heartbeat_tick_def heartbeat_def require_system_iff Let_def)
  have "?beat w \<in> set (workers (upd_worker wid ?beat d))"
    using upd_where_hit [OF w(1), of "\<lambda>x. wk_id x = wid" ?beat] w(2) by (simp add: upd_worker_def)
  moreover have "wf_db (upd_worker wid ?beat d)"
    unfolding upd_worker_def using wf by (rule wf_upd_workers) (simp add: uk_worker_id_def)
  ultimately show "live_worker wid lease (dt_us now) st (heartbeat_tick cx wid lease now d)"
    unfolding live_worker_def run using w st by (intro conjI bexI [of _ "?beat w"]) simp_all
  show "tasks_of wid (heartbeat_tick cx wid lease now d) = tasks_of wid d"
    by (simp add: run tasks_of_def running_set_def upd_worker_def)
qed

lemma sweep_live:
  assumes "is_system cx" and "live_worker wid lease prev st d" and "now \<le> prev + timeout"
  shows "live_worker wid lease prev st (snd (reap_dead_workers cx timeout locked now d))"
    and "tasks_of wid (snd (reap_dead_workers cx timeout locked now d)) = tasks_of wid d"
proof -
  obtain w where wf: "wf_db d" and w: "w \<in> set (workers d)" "wk_id w = wid" "wk_lease w = lease" "wk_status w = st"
      "dt_us (wk_last_heartbeat_at w) = prev" and st: "st \<noteq> DEAD"
    using assms(2) by (auto simp: live_worker_def)
  let ?wids = "map wk_id (filter (\<lambda>w. stale now timeout w \<and> \<not> locked (wk_id w)) (workers d))"
  have safe: "wid \<notin> set ?wids"
  proof
    assume "wid \<in> set ?wids"
    then obtain x where x: "x \<in> set (workers d)" "wk_id x = wk_id w" "stale now timeout x" using w(2) by auto
    then have "stale now timeout w" using one_worker [OF wf w(1) x(1,2)] by simp
    then show False using w(5) assms(3) by (simp add: stale_def)
  qed
  obtain reaped requeued d' where loop: "reap_loop ?wids d = ((reaped, requeued), d')" by (metis prod.exhaust)
  have d': "snd (reap_dead_workers cx timeout locked now d) = d'"
    using loop assms(1) by (simp add: reap_dead_workers_def require_system_iff Let_def)
  have "wf_db d' \<and> w \<in> set (workers d')"
  proof (rule reap_loop_invariant [where Q = "\<lambda>x. wf_db x \<and> w \<in> set (workers x)", OF loop])
    show "wf_db d \<and> w \<in> set (workers d)" using wf w(1) by simp
    fix u x assume "u \<in> set ?wids" and x: "wf_db x \<and> w \<in> set (workers x)"
    then have "wk_id w \<noteq> u" using safe w(2) by auto
    then have "w \<in> set (workers (reap_worker u x))"
      using upd_where_miss [of w "workers x" "\<lambda>y. wk_id y = u"] x by (simp add: reap_worker_def upd_worker_def)
    then show "wf_db (reap_worker u x) \<and> w \<in> set (workers (reap_worker u x))"
      using x wf_db_reap_worker by blast
  qed
  then show "live_worker wid lease prev st (snd (reap_dead_workers cx timeout locked now d))"
    using w st by (auto simp: live_worker_def d')
  show "tasks_of wid (snd (reap_dead_workers cx timeout locked now d)) = tasks_of wid d"
    using reap_loop_requeues(2) [OF loop] safe by (auto simp: tasks_of_def d')
qed

lemma pulses_live:
  assumes "is_system cx" and "gap \<le> timeout" and "live_worker wid lease prev st d" and "timely gap prev ps"
  shows "(\<exists>p. live_worker wid lease p st (fold (on_pulse cx wid lease timeout) ps d))
    \<and> tasks_of wid (fold (on_pulse cx wid lease timeout) ps d) = tasks_of wid d"
  using assms(3,4)
proof (induction ps arbitrary: prev d)
  case Nil
  then show ?case by auto
next
  case (Cons p ps)
  show ?case
  proof (cases p)
    case (Pulse t)
    have "timely gap (dt_us t) ps" using Cons.prems(2) Pulse by simp
    from Cons.IH [OF beat_live(1) [OF assms(1) Cons.prems(1)] this] beat_live(2) [OF assms(1) Cons.prems(1), of t]
    show ?thesis by (simp add: Pulse)
  next
    case (Sweep locked now)
    have s: "now \<le> prev + timeout" "timely gap prev ps" using Cons.prems(2) Sweep assms(2) by auto
    from Cons.IH [OF sweep_live(1) [OF assms(1) Cons.prems(1) s(1), of locked] s(2)]
      sweep_live(2) [OF assms(1) Cons.prems(1) s(1), of locked]
    show ?thesis by (simp add: Sweep)
  qed
qed

section \<open>Properties\<close>


text \<open>C15: the watcher daemon never dies of a pass.  Whatever the passes raise, the loop makes exactly
  the passes it is due, namely one per round until shutdown, at most \<open>max_iterations\<close> when that is
  positive (and one when it is negative), stops for one of these two reasons only, and has counted
  every pass in \<open>lcp_watcher_pass_total\<close>; its effect is that of running those passes one after
  the other.\<close>

theorem watcher_survives:
  assumes "k = length (takeWhile (\<lambda>e. \<not> we_shutdown e) envs)" and "n = passes_due mx k"
    and "watcher_loop cx mx envs 0 d = (why, calls, d')"
  shows "(calls, d') = all_passes cx (take n envs) d
    \<and> length (filter is_pass calls) = n
    \<and> why = (if mx \<noteq> 0 \<and> nat (max 1 mx) \<le> k then MaxIterations else if k < length envs then Shutdown else StillRunning)"
proof -
  have n: "n = (if mx = 0 then k else min k (nat (max 1 (mx - 0))))" using assms(2) by (simp add: passes_due_def)
  note run = watcher_loop_general [OF assms(1) n, of cx d]
  have "n \<le> length envs" using assms(1,2) length_takeWhile_le [of "\<lambda>e. \<not> we_shutdown e" envs]
    by (auto simp: passes_due_def)
  have counted: "length (filter is_pass (fst (all_passes cx es x))) = length es" for es x
    by (induction es arbitrary: x)
      (simp_all add: Let_def case_prod_unfold pass_metrics_def record_pass_metrics_def split: sum.split)
  have eqs: "all_passes cx (take n envs) d = (calls, d')"
    "why = (if mx \<noteq> 0 \<and> nat (max 1 mx) \<le> k then MaxIterations else if k < length envs then Shutdown else StillRunning)"
    using run assms(3) by simp_all
  then show ?thesis using counted [of "take n envs" d] \<open>n \<le> length envs\<close> by simp
qed

text \<open>C14: a worker that beats in time is never reaped.  If every sweep of the reaper comes within
  \<open>gap\<close> of the worker's last beat and \<open>gap\<close> is at most the heartbeat timeout, then after any
  number of beats and sweeps the worker keeps its lease and status, and exactly the tasks it was
  running are still running under its name.\<close>

theorem timely_worker_never_reaped:
  assumes "wf_db d" and "w \<in> set (workers d)" and "wk_status w \<noteq> DEAD" and "is_system cx" and "gap \<le> timeout"
    and "timely gap (dt_us (wk_last_heartbeat_at w)) ps"
    and "d' = fold (on_pulse cx (wk_id w) (wk_lease w) timeout) ps d"
  shows "(\<exists>w'\<in>set (workers d'). wk_id w' = wk_id w \<and> wk_lease w' = wk_lease w \<and> wk_status w' = wk_status w)
    \<and> {t \<in> running_set d'. tk_worker t = Some (wk_id w)} = {t \<in> running_set d. tk_worker t = Some (wk_id w)}"
proof -
  have "live_worker (wk_id w) (wk_lease w) (dt_us (wk_last_heartbeat_at w)) (wk_status w) d"
    using assms(1-3) by (auto simp: live_worker_def)
  from pulses_live [OF assms(4,5) this assms(6)] show ?thesis
    by (auto simp: assms(7) live_worker_def tasks_of_def)
qed

text \<open>Every metric call of the processes finds its collector.  The names and labels the watcher, the
  worker and the exporter use are those the registry declares, and no counter is ever decreased.\<close>

theorem metric_calls_declared:
  "list_all declared (fst (snd (watcher_run bind env_port cx mx envs d)))
 \<and> list_all declared (record_outcome_metrics out elapsed)"
proof
  show "list_all declared (fst (snd (watcher_run bind env_port cx mx envs d)))"
    using declared_start [of bind env_port "''watcher''" None] declared_loop [of cx mx envs 0 d]
    by (auto simp: watcher_run_def split: prod.splits sum.splits)
  show "list_all declared (record_outcome_metrics out elapsed)"
    by (simp add: record_outcome_metrics_def collector_def build_registry_def Let_def)
qed

section \<open>Witnesses\<close>

definition watch_env0 :: "bool \<Rightarrow> lcp_error option \<Rightarrow> watch_env" where
  "watch_env0 stop err = \<lparr>we_shutdown = stop, we_idle = (\<lambda>d. d), we_session = err, we_uuids = (\<lambda>_. ''z''), we_now = t0,
     we_stats = (\<lambda>_ _ _. Inr None), we_elapsed = 1\<rparr>"


theorem watcher_survives_witness:
  "length (filter is_pass (fst (snd (watcher_loop system_cx 0
      [watch_env0 False (Some OSError), watch_env0 False None, watch_env0 True None] 0 db0)))) = 2
 \<and> fst (watcher_loop system_cx 0 [watch_env0 False (Some OSError), watch_env0 False None, watch_env0 True None] 0 db0)
     = Shutdown"
proof -
  let ?envs = "[watch_env0 False (Some OSError), watch_env0 False None, watch_env0 True None]"
  let ?run = "watcher_loop system_cx 0 ?envs 0 db0"
  have run: "?run = (fst ?run, fst (snd ?run), snd (snd ?run))" by simp
  have k: "2 = length (takeWhile (\<lambda>e. \<not> we_shutdown e) ?envs)" by (simp add: watch_env0_def)
  have n: "2 = passes_due 0 2" by (simp add: passes_due_def)
  have stop: "(if (0::int) \<noteq> 0 \<and> nat (max 1 0) \<le> 2 then MaxIterations
      else if 2 < length ?envs then Shutdown else StillRunning) = Shutdown" by simp
  from watcher_survives [OF k n run] show ?thesis unfolding stop by blast
qed

theorem timely_worker_never_reaped_witness:
  "\<exists>w'. w' \<in> set (workers (fold (on_pulse system_cx ''w1'' ''L1'' 30) [Sweep (\<lambda>_. False) (dt_us t0 + 20), Pulse t0] (fleet0 [task0])))
     \<and> wk_id w' = ''w1'' \<and> wk_status w' = ALIVE"
proof -
  let ?ps = "[Sweep (\<lambda>_. False) (dt_us t0 + 20), Pulse t0]"
  have wf: "wf_db (fleet0 [task0])" by (rule wf_fleet0) (simp_all add: unique_on_Cons clash_iff)
  have w: "worker0 \<in> set (workers (fleet0 [task0]))" "wk_status worker0 \<noteq> DEAD" by simp_all
  have "timely 25 (dt_us (wk_last_heartbeat_at worker0)) ?ps" by (simp add: worker0_def new_worker_def)
  from timely_worker_never_reaped [OF wf w fleet0(4) _ this refl, of 30] show ?thesis by auto
qed

end
