(* ===== verification/Reconcile.thy ===== *)
theory Reconcile
  imports Gravitino
begin

text \<open>
  What the catalog reconciliation of \<open>src/lcp/services/meta_sync_service.py\<close> guarantees:
  a dry run reports what the real run does, a pass over an unchanged catalog converges,
  and a catalog entry whose name another tenant owns aborts the pass.
\<close>

section \<open>Settled datasets\<close>

text \<open>A dataset that already says what the catalog says of its fileset.\<close>

definition agrees :: "string \<Rightarrow> string \<Rightarrow> string \<Rightarrow> string \<Rightarrow> fileset \<Rightarrow> db \<Rightarrow> bool" where
  "agrees catalog schema name tenant f d \<longleftrightarrow>
     (\<exists>r\<in>set (datasets d). sync_match catalog schema name tenant r
        \<and> \<not> uri_diverges f r \<and> \<not> comment_diverges f r)"

text \<open>A catalog that does not change: \<open>get n\<close> is what it answers for fileset \<open>n\<close>.\<close>

definition answers :: "'w http \<Rightarrow> settings \<Rightarrow> string \<Rightarrow> (string \<Rightarrow> fileset res) \<Rightarrow> bool" where
  "answers http cfg schema get \<longleftrightarrow> (\<forall>n w. gc_get_fileset http cfg schema n w = (get n, w))"

definition settled :: "string \<Rightarrow> string \<Rightarrow> string \<Rightarrow> (string \<Rightarrow> fileset res) \<Rightarrow> string list \<Rightarrow> db \<Rightarrow> bool" where
  "settled catalog schema tenant get names d \<longleftrightarrow>
     (\<forall>n\<in>set names. case get n of Inl e \<Rightarrow> is_api_error e | Inr f \<Rightarrow> agrees catalog schema n tenant f d)"

lemma agrees_insert:
  "insert_dataset r d = Inr d' \<Longrightarrow> agrees catalog schema n tenant f d \<Longrightarrow> agrees catalog schema n tenant f d'"
  by (auto simp: agrees_def insert_dataset_def split: if_splits)

lemma agrees_pull_row:
  assumes "wf_db d" and "e \<in> set (datasets d)" and "ds_table e = name" and "n = name \<longrightarrow> g = f"
    and "agrees catalog schema n tenant g d"
  shows "agrees catalog schema n tenant g (pull_row f e d)"
proof -
  obtain r where r: "r \<in> set (datasets d)" "sync_match catalog schema n tenant r"
      "\<not> uri_diverges g r" "\<not> comment_diverges g r"
    using assms(5) by (auto simp: agrees_def)
  show ?thesis
  proof (cases "ds_uuid r = ds_uuid e")
    case True
    then have "r = e" by (rule dataset_by_uuid [OF assms(1) r(1) assms(2)])
    then have "n = name" using r(2) assms(3) by (simp add: sync_match_def)
    then have "pulled f r = r" using assms(4) r by (intro pulled_id) simp_all
    then have "r \<in> set (datasets (pull_row f e d))"
      using upd_where_hit [OF r(1), of "\<lambda>x. ds_uuid x = ds_uuid e" "pulled f"] True by (simp add: pull_row_def)
    then show ?thesis using r by (auto simp: agrees_def)
  next
    case False
    then have "r \<in> set (datasets (pull_row f e d))"
      using upd_where_miss [OF r(1), of "\<lambda>x. ds_uuid x = ds_uuid e"] by (simp add: pull_row_def)
    then show ?thesis using r by (auto simp: agrees_def)
  qed
qed

text \<open>One real step settles its fileset and unsettles none.\<close>

lemma sync_fileset_settles:
  assumes "sync_fileset cx uuids now catalog schema tenant name False f s = Inr s'" and "sees cx tenant"
    and "view s = Inr d" and "view s' = Inr d'" and "wf_db d" and "get name = Inr f"
    and "settled catalog schema tenant get names d"
  shows "wf_db d' \<and> settled catalog schema tenant get (name # names) d'"
  using assms(1,2)
proof (cases rule: sync_fileset_real)
  case (1 da)
  obtain uri where uri: "fs_storage_location f = Some uri" using 1(4) assms(4) by (cases "fs_storage_location f") auto
  let ?r = "new_dataset (uuids (sy_fresh s)) catalog schema name uri tenant None (fs_comment f) now"
  have ins: "insert_dataset ?r d = Inr d'" using 1(1,4) assms(3,4) uri by simp
  then have "?r \<in> set (datasets d')" by (auto simp: insert_dataset_def split: if_splits)
  moreover have "sync_match catalog schema name tenant ?r" "\<not> uri_diverges f ?r" "\<not> comment_diverges f ?r"
    using uri by (auto simp: sync_match_def new_dataset_def uri_diverges_def comment_diverges_def split: option.split)
  ultimately have "agrees catalog schema name tenant f d'" unfolding agrees_def by blast
  then show ?thesis
    using assms(6,7) agrees_insert [OF ins] wf_insert_dataset [OF assms(5) ins]
    by (auto simp: settled_def split: sum.splits)
next
  case (2 da e)
  have d': "d' = pull_row f e d" using 2(1,4) assms(3,4) by simp
  have "e \<in> set (matches catalog schema name tenant d)" using 2(1,2) assms(3) by simp
  then have e: "e \<in> set (datasets d)" "ds_table e = name" "sync_match catalog schema name tenant e"
    by (auto simp: matches_def sync_match_def)
  have "pulled f e \<in> set (datasets d')"
    using upd_where_hit [OF e(1), of "\<lambda>r. ds_uuid r = ds_uuid e" "pulled f"] by (simp add: d' pull_row_def)
  moreover have "sync_match catalog schema name tenant (pulled f e)" using e(3) by (simp add: sync_match_def)
  ultimately have "agrees catalog schema name tenant f d'" using pulled_settles unfolding agrees_def by blast
  moreover have "agrees catalog schema n tenant g d'" if "agrees catalog schema n tenant g d" "get n = Inr g" for n g
    unfolding d' by (rule agrees_pull_row [OF assms(5) e(1,2) _ that(1)]) (use that(2) assms(6) in auto)
  ultimately show ?thesis
    using assms(6,7) wf_pull_row [OF assms(5)] by (auto simp: settled_def d' split: sum.splits)
qed

lemma sync_loop_settles:
  assumes "answers http cfg schema get" and "sees cx tenant"
    and "sync_loop cx http cfg uuids now schema tenant False names s w = (Inr s', w')" and "view s' = Inr d'"
    and "view s = Inr d" and "wf_db d" and "settled (gravitino_catalog cfg) schema tenant get names0 d"
  shows "wf_db d' \<and> settled (gravitino_catalog cfg) schema tenant get (names0 @ names) d'"
  using assms(3,5-7)
proof (induction names arbitrary: s w d names0)
  case Nil
  then show ?case using assms(4) by simp
next
  case (Cons name names)
  have g: "gc_get_fileset http cfg schema name w = (get name, w)" using assms(1) by (simp add: answers_def)
  show ?case
  proof (cases "get name")
    case (Inl e)
    then have api: "is_api_error e" using Cons.prems(1) g by (auto split: if_splits)
    let ?s = "add_error (''get_fileset('' @ schema @ ''/'' @ name @ '')'') e s"
    have "sync_loop cx http cfg uuids now schema tenant False names ?s w = (Inr s', w')"
      using Cons.prems(1) g Inl api by simp
    from Cons.IH [OF this, of d "names0 @ [name]"] Cons.prems(2-4) Inl api
    show ?thesis by (simp add: settled_def)
  next
    case (Inr f)
    then obtain s1 where s1: "sync_fileset cx uuids now (gravitino_catalog cfg) schema tenant name False f s = Inr s1"
      and rest: "sync_loop cx http cfg uuids now schema tenant False names s1 w = (Inr s', w')"
      using Cons.prems(1) g by (auto split: sum.splits)
    obtain d1 where d1: "view s1 = Inr d1" using view_forced [OF rest assms(4)] by blast
    from sync_fileset_settles [OF s1 assms(2) Cons.prems(2) d1 Cons.prems(3), of get names0] Inr Cons.prems(4)
    have "wf_db d1" "settled (gravitino_catalog cfg) schema tenant get (names0 @ [name]) d1"
      by (auto simp: settled_def)
    from Cons.IH [OF rest d1 this] show ?thesis by simp
  qed
qed

text \<open>On a settled database a pass changes nothing and counts nothing.\<close>

lemma sync_fileset_settled:
  assumes "sees cx tenant" and "wf_db d" and "agrees catalog schema name tenant f d"
    and "sy_work s = d" and "sy_pending s = []"
  shows "\<exists>s'. sync_fileset cx uuids now catalog schema tenant name dry f s = Inr s' \<and> sy_work s' = d
    \<and> sy_pending s' = [] \<and> sy_result s' = sy_result s"
proof -
  obtain r where r: "r \<in> set (datasets d)" "sync_match catalog schema name tenant r"
      "\<not> uri_diverges f r" "\<not> comment_diverges f r"
    using assms(3) by (auto simp: agrees_def)
  have m: "matches catalog schema name tenant d = [r]" by (rule matches_unique [OF assms(2) r(1,2)])
  have auth: "authenticated cx" using assms(1) by (auto simp: sees_def authenticated_def split: option.splits)
  have rows: "rls_rows cx ''dataset'' ds_tenant (filter (sync_match catalog schema name tenant) (datasets d)) = Inr [r]"
  proof -
    have "sees cx (ds_tenant r)" using r(2) assms(1) by (simp add: sync_match_def)
    then show ?thesis using auth m by (simp add: rls_dataset matches_def)
  qed
  have "upd_where (\<lambda>x. ds_uuid x = ds_uuid r) (pulled f) (datasets d) = datasets d"
    by (rule upd_where_id) (use dataset_by_uuid [OF assms(2) _ r(1)] pulled_id [OF r(3,4)] in fastforce)
  then show ?thesis using rows r(3,4) assms(4,5)
    by (simp add: sync_fileset_def pull_fileset_def Let_def)
qed

lemma sync_loop_settled:
  assumes "answers http cfg schema get" and "sees cx tenant" and "wf_db d"
    and "settled (gravitino_catalog cfg) schema tenant get names d" and "sy_work s = d" and "sy_pending s = []"
  shows "\<exists>s'. sync_loop cx http cfg uuids now schema tenant dry names s w = (Inr s', w) \<and> sy_work s' = d
    \<and> sy_pending s' = [] \<and> ms_created (sy_result s') = ms_created (sy_result s)
    \<and> ms_updated (sy_result s') = ms_updated (sy_result s)"
  using assms(4-6)
proof (induction names arbitrary: s)
  case Nil
  then show ?case by simp
next
  case (Cons name names)
  have g: "gc_get_fileset http cfg schema name w = (get name, w)" using assms(1) by (simp add: answers_def)
  show ?case
  proof (cases "get name")
    case (Inl e)
    let ?s = "add_error (''get_fileset('' @ schema @ ''/'' @ name @ '')'') e s"
    have "settled (gravitino_catalog cfg) schema tenant get names d" and api: "is_api_error e"
      using Cons.prems(1) Inl by (auto simp: settled_def)
    from Cons.IH [OF this(1), of ?s] Cons.prems(2,3) show ?thesis using g Inl api by simp
  next
    case (Inr f)
    have "agrees (gravitino_catalog cfg) schema name tenant f d"
      using Cons.prems(1) Inr by (auto simp: settled_def)
    from sync_fileset_settled [OF assms(2,3) this Cons.prems(2,3), of uuids now dry]
    obtain s1 where s1: "sync_fileset cx uuids now (gravitino_catalog cfg) schema tenant name dry f s = Inr s1"
        "sy_work s1 = d" "sy_pending s1 = []" "sy_result s1 = sy_result s" by blast
    have "settled (gravitino_catalog cfg) schema tenant get names d" using Cons.prems(1) by (simp add: settled_def)
    from Cons.IH [OF this s1(2,3)] g Inr s1(1,4) show ?thesis by simp
  qed
qed

text \<open>The pass as a whole.\<close>

lemma reconcile_schema_real:
  assumes "reconcile_schema cx http cfg uuids n now schema tenant False d w = (Inr res, d', n', w')"
  obtains names w1 s where "gc_list_filesets http cfg schema w = (Inr names, w1)"
      "sync_loop cx http cfg uuids now schema tenant False names
         \<lparr>sy_work = d, sy_pending = [], sy_fresh = n, sy_result = empty_sync\<lparr>ms_discovered := length names\<rparr>\<rparr> w1
         = (Inr s, w')" "view s = Inr d'" "res = sy_result s"
    | e where "gc_list_filesets http cfg schema w = (Inl e, w')" "d' = d"
      "res = empty_sync\<lparr>ms_errors := [(''list_filesets('' @ schema @ '')'', e)]\<rparr>"
      "is_api_error e \<or> e = GravitinoDisabledError"
  using assms
  by (auto simp: reconcile_schema_def view_def split: prod.splits sum.splits if_splits)

lemma foreign_row_stays:
  assumes "sync_loop cx http cfg uuids now schema tenant False names s w = (Inr s', w')" and "view s' = Inr d'"
    and "view s = Inr d" and "sees cx tenant" and "r \<in> set (datasets d)"
  shows "\<exists>r'\<in>set (datasets d'). ds_catalog r' = ds_catalog r \<and> ds_schema r' = ds_schema r
    \<and> ds_table r' = ds_table r \<and> ds_tenant r' = ds_tenant r"
  using assms(1,3,5)
proof (induction names arbitrary: s w d r)
  case Nil
  then show ?case using assms(2) by auto
next
  case (Cons name names)
  obtain g w1 where g: "gc_get_fileset http cfg schema name w = (g, w1)" by fastforce
  show ?case
  proof (cases g)
    case (Inl e)
    let ?s = "add_error (''get_fileset('' @ schema @ ''/'' @ name @ '')'') e s"
    have "sync_loop cx http cfg uuids now schema tenant False names ?s w1 = (Inr s', w')"
      using Cons.prems(1) g Inl by (auto split: if_splits)
    from Cons.IH [OF this, of d r] Cons.prems(2,3) show ?thesis by simp
  next
    case (Inr f)
    then obtain s1 where s1: "sync_fileset cx uuids now (gravitino_catalog cfg) schema tenant name False f s = Inr s1"
      and rest: "sync_loop cx http cfg uuids now schema tenant False names s1 w1 = (Inr s', w')"
      using Cons.prems(1) g by (auto split: sum.splits)
    obtain d1 where d1: "view s1 = Inr d1" using view_forced [OF rest assms(2)] by blast
    have "\<exists>r1\<in>set (datasets d1). ds_catalog r1 = ds_catalog r \<and> ds_schema r1 = ds_schema r
        \<and> ds_table r1 = ds_table r \<and> ds_tenant r1 = ds_tenant r"
      using s1 assms(4)
    proof (cases rule: sync_fileset_real)
      case (1 da)
      then have "r \<in> set (datasets d1)"
        using Cons.prems(2,3) d1 by (auto simp: insert_dataset_def split: option.splits if_splits)
      then show ?thesis by blast
    next
      case (2 da e)
      then have "d1 = pull_row f e d" using Cons.prems(2) d1 by simp
      then have "(if ds_uuid r = ds_uuid e then pulled f r else r) \<in> set (datasets d1)"
        using Cons.prems(3) by (auto simp: pull_row_def upd_where_in)
      then show ?thesis by (metis pulled_keys(2-5))
    qed
    then obtain r1 where "r1 \<in> set (datasets d1)" "ds_catalog r1 = ds_catalog r" "ds_schema r1 = ds_schema r"
        "ds_table r1 = ds_table r" "ds_tenant r1 = ds_tenant r" by blast
    with Cons.IH [OF rest d1 this(1)] show ?thesis by simp
  qed
qed

section \<open>Properties\<close>

text \<open>C28: a dry run predicts the real run.  If the catalog names every fileset once and the real
  reconciliation of a schema succeeds, then the dry run started in the same state returns exactly
  the same report (discovered, created, updated, errors), talks to Gravitino in exactly the same
  way and leaves the database as it is.\<close>

theorem dry_run_predicts:
  assumes "reconcile_schema cx http cfg uuids n now schema tenant False d w = (Inr res, d', n', w')"
    and "wf_db d" and "sees cx tenant"
    and "\<And>names w1. gc_list_filesets http cfg schema w = (Inr names, w1) \<Longrightarrow> distinct names"
  shows "\<exists>n2. reconcile_schema cx http cfg uuids n now schema tenant True d w = (Inr res, d, n2, w')"
  using assms(1)
proof (cases rule: reconcile_schema_real)
  case (1 names w1 s)
  let ?s = "\<lparr>sy_work = d, sy_pending = [], sy_fresh = n, sy_result = empty_sync\<lparr>ms_discovered := length names\<rparr>\<rparr>"
  have "\<exists>t'. sync_loop cx http cfg uuids now schema tenant True names ?s w1 = (Inr t', w') \<and> sy_result t' = sy_result s"
    by (rule dry_loop [OF 1(2,3) _ assms(2) assms(4) [OF 1(1)] assms(3)]) (simp_all add: view_def)
  then show ?thesis using 1(1,4) by (auto simp: reconcile_schema_def)
next
  case (2 e)
  then show ?thesis by (simp add: reconcile_schema_def)
qed

text \<open>C29: reconciliation converges.  After one successful real pass over a schema, a further pass
  over the unchanged catalog, dry or real, whatever its clock and UUIDs, creates nothing, updates
  nothing and leaves the database exactly as it is.\<close>

theorem reconcile_converges:
  assumes "answers http cfg schema get" and "\<And>w. gc_list_filesets http cfg schema w = (Inr names, w)"
    and "wf_db d" and "sees cx tenant"
    and "reconcile_schema cx http cfg uuids n now schema tenant False d w = (Inr res, d', n', w')"
  shows "\<exists>res2 n2. reconcile_schema cx http cfg uuids' m now' schema tenant dry d' w2 = (Inr res2, d', n2, w2)
    \<and> ms_created res2 = 0 \<and> ms_updated res2 = 0"
proof -
  from assms(5) have settled: "wf_db d' \<and> settled (gravitino_catalog cfg) schema tenant get names d'"
  proof (cases rule: reconcile_schema_real)
    case (1 names' w1 s)
    have "names' = names" using 1(1) assms(2) [of w] by simp
    then show ?thesis
      using sync_loop_settles [OF assms(1,4) 1(2,3) _ assms(3), of "[]"] by (simp add: view_def settled_def)
  next
    case (2 e)
    then show ?thesis using assms(2) [of w] by simp
  qed
  let ?s = "\<lparr>sy_work = d', sy_pending = [], sy_fresh = m, sy_result = empty_sync\<lparr>ms_discovered := length names\<rparr>\<rparr>"
  obtain s' where "sync_loop cx http cfg uuids' now' schema tenant dry names ?s w2 = (Inr s', w2)"
      "sy_work s' = d'" "sy_pending s' = []" "ms_created (sy_result s') = 0" "ms_updated (sy_result s') = 0"
    using sync_loop_settled [OF assms(1,4) conjunct1 [OF settled] conjunct2 [OF settled], of ?s uuids' now' dry w2]
    by (auto simp: empty_sync_def)
  then show ?thesis using assms(2) [of w2] by (simp add: reconcile_schema_def)
qed

text \<open>C30: one foreign name blocks a schema.  The UNIQUE key of \<open>dataset\<close> does not include the tenant,
  and the lookup of the pass does: if the catalog lists a fileset whose catalog, schema and name
  belong to a dataset of another tenant, then the whole pass raises and none of the other
  filesets of the schema is synchronised.\<close>

theorem foreign_name_blocks_schema:
  assumes "answers http cfg schema get" and "\<And>w. gc_list_filesets http cfg schema w = (Inr names, w)"
    and "wf_db d" and "sees cx tenant" and "name \<in> set names" and "get name = Inr f"
    and "r \<in> set (datasets d)" and "ds_catalog r = gravitino_catalog cfg" and "ds_schema r = schema"
    and "ds_table r = name" and "ds_tenant r \<noteq> tenant"
  shows "\<exists>e n' w'. reconcile_schema cx http cfg uuids n now schema tenant False d w = (Inl e, d, n', w')"
proof -
  obtain out d' n' w' where run: "reconcile_schema cx http cfg uuids n now schema tenant False d w = (out, d', n', w')"
    by (cases "reconcile_schema cx http cfg uuids n now schema tenant False d w") blast
  show ?thesis
  proof (cases out)
    case (Inl e)
    then have "d' = d" using run by (auto simp: reconcile_schema_def split: prod.splits sum.splits if_splits)
    then show ?thesis using run Inl by blast
  next
    case (Inr res)
    from run [unfolded Inr] have False
    proof (cases rule: reconcile_schema_real)
      case (1 names' w1 s)
      have names: "names' = names" using 1(1) assms(2) [of w] by simp
      have v: "view \<lparr>sy_work = d, sy_pending = [], sy_fresh = n, sy_result = empty_sync\<lparr>ms_discovered := length names'\<rparr>\<rparr> = Inr d"
        by (simp add: view_def)
      have st: "wf_db d'" "settled (gravitino_catalog cfg) schema tenant get names d'"
        using sync_loop_settles [OF assms(1,4) 1(2,3) v assms(3), of "[]"] names by (auto simp: settled_def)
      have "agrees (gravitino_catalog cfg) schema name tenant f d'"
        using st(2) assms(5,6) by (auto simp: settled_def dest!: bspec)
      then obtain a where a: "a \<in> set (datasets d')" "sync_match (gravitino_catalog cfg) schema name tenant a"
        by (auto simp: agrees_def)
      from foreign_row_stays [OF 1(2,3) v assms(4,7)] obtain b where
        b: "b \<in> set (datasets d')" "sync_match (gravitino_catalog cfg) schema name (ds_tenant r) b"
        using assms(8-10) by (auto simp: sync_match_def)
      have "unique_on uk_catalog_schema_table (datasets d')" using st(1) by (simp add: wf_db_def)
      from unique_on_eqI [OF this a(1) b(1), of "(gravitino_catalog cfg, schema, name)"] a(2) b(2)
      show False using assms(11) by (auto simp: uk_catalog_schema_table_def sync_match_def)
    next
      case (2 e)
      then show False using assms(2) [of w] by simp
    qed
    then show ?thesis ..
  qed
qed

section \<open>Witnesses\<close>

definition cfg0 :: settings where
  "cfg0 = default_settings\<lparr>gravitino_url := ''http://g''\<rparr>"

text \<open>A catalog with one fileset, \<open>t\<close> of schema \<open>s\<close>.\<close>

definition http0 :: "unit http" where
  "http0 method url headers body w =
     (Inr \<lparr>rs_status = 200, rs_text = [], rs_json = Inr (
        if url = schema_base cfg0 ''s'' then JObj [(''identifiers'', JList [JObj [(''name'', JStr ''t'')]])]
        else JObj [(''fileset'', JObj [(''storageLocation'', JStr ''s3://new'')])])\<rparr>, w)"

definition fileset0 :: "string \<Rightarrow> fileset" where
  "fileset0 n = \<lparr>fs_name = JStr n, fs_schema_name = ''s'', fs_storage_location = Some ''s3://new'', fs_comment = None,
     fs_type = JStr ''MANAGED'', fs_properties = JObj []\<rparr>"

lemma cfg0: "gravitino_catalog cfg0 = ''lance''" "gc_enabled cfg0"
  by (simp_all add: cfg0_def default_settings_def gc_enabled_def gc_base_url_def rstrip_char_def)

lemma http0_answers: "answers http0 cfg0 ''s'' (\<lambda>n. Inr (fileset0 n))"
  by (simp add: answers_def gc_get_fileset_def gc_request_def require_enabled_def cfg0 io_bind_def http0_def
      check_response_def parse_fileset_def as_dict_def opt_text_def fileset0_def)

lemma http0_list: "gc_list_filesets http0 cfg0 ''s'' w = (Inr [''t''], w)"
  by (simp add: gc_list_filesets_def gc_request_def require_enabled_def cfg0 io_bind_def http0_def
      check_response_def identifiers_def as_dict_def py_or_def)

lemma sees_acme: "sees acme_cx ''acme''"
  by (simp add: sees_def acme_cx_def acme_def)

lemma create0:
  "\<exists>res d' n'. reconcile_schema acme_cx http0 cfg0 (\<lambda>_. ''u1'') 0 (DT 2024 5 6 7 8 9 0) ''s'' ''acme'' False empty_db ()
     = (Inr res, d', n', ()) \<and> ms_created res = 1"
proof -
  have g: "gc_get_fileset http0 cfg0 ''s'' ''t'' w = (Inr (fileset0 ''t''), w)" for w
    using http0_answers by (simp add: answers_def)
  have "authenticated acme_cx" using sees_acme by (auto simp: sees_def authenticated_def split: option.splits)
  then show ?thesis
    by (simp add: reconcile_schema_def http0_list g sync_fileset_def rls_dataset empty_db_def add_fileset_def
        empty_sync_def fileset0_def insert_dataset_def clash_iff Let_def)
qed

theorem dry_run_predicts_witness:
  "\<exists>res n2. reconcile_schema acme_cx http0 cfg0 (\<lambda>_. ''u1'') 0 (DT 2024 5 6 7 8 9 0) ''s'' ''acme'' True empty_db ()
     = (Inr res, empty_db, n2, ()) \<and> ms_created res = 1"
proof -
  obtain res d' n' where run: "reconcile_schema acme_cx http0 cfg0 (\<lambda>_. ''u1'') 0 (DT 2024 5 6 7 8 9 0) ''s'' ''acme'' False
      empty_db () = (Inr res, d', n', ())" "ms_created res = 1" using create0 by blast
  from dry_run_predicts [OF run(1) wf_empty_db sees_acme] http0_list run(2) show ?thesis by auto
qed

theorem reconcile_converges_witness:
  "\<exists>d' res2 n2. reconcile_schema acme_cx http0 cfg0 (\<lambda>_. ''u2'') 0 (DT 2024 5 6 7 8 9 0) ''s'' ''acme'' False d' ()
     = (Inr res2, d', n2, ()) \<and> ms_created res2 = 0 \<and> ms_updated res2 = 0"
proof -
  obtain res d' n' where run: "reconcile_schema acme_cx http0 cfg0 (\<lambda>_. ''u1'') 0 (DT 2024 5 6 7 8 9 0) ''s'' ''acme'' False
      empty_db () = (Inr res, d', n', ())" using create0 by blast
  from reconcile_converges [OF http0_answers http0_list wf_empty_db sees_acme run] show ?thesis by blast
qed

definition foreign0 :: db where
  "foreign0 = empty_db\<lparr>datasets := [new_dataset ''u0'' ''lance'' ''s'' ''t'' ''s3://b'' ''globex'' None None (DT 2024 5 6 7 8 9 0)]\<rparr>"

theorem foreign_name_blocks_schema_witness:
  "\<exists>e n' w'. reconcile_schema acme_cx http0 cfg0 (\<lambda>_. ''u1'') 0 (DT 2024 5 6 7 8 9 0) ''s'' ''acme'' False foreign0 ()
     = (Inl e, foreign0, n', w')"
proof -
  let ?r = "new_dataset ''u0'' ''lance'' ''s'' ''t'' ''s3://b'' ''globex'' None None (DT 2024 5 6 7 8 9 0)"
  have wf: "wf_db foreign0" by (simp add: foreign0_def wf_db_def empty_db_def unique_on_Cons clash_iff)
  have r: "?r \<in> set (datasets foreign0)" by (simp add: foreign0_def)
  have t: "''t'' \<in> set [''t'']" by simp
  show ?thesis
    by (rule foreign_name_blocks_schema [OF http0_answers http0_list wf sees_acme t refl r])
      (simp_all add: new_dataset_def cfg0)
qed

end
