(* ===== verification/Security.thy ===== *)
theory Security
  imports Tenancy Config Jsonval "HOL-Library.AList"
begin

text \<open>
  Inbound credentials: \<open>src/lcp/core/security.py\<close> (JWKS cache, OIDC token
  validation, replay denylist, tenant extraction), \<open>src/lcp/api/rest/auth.py\<close> (the
  ASGI middleware that binds the tenant of a request) and the principal resolution of
  \<open>src/lcp/api/grpc/server.py\<close>.  Parameters are what lives elsewhere: PyJWT (\<open>jwt_lib\<close>),
  the HTTP client, the clock readings, the denylist implementation, and the
  ASGI application behind the middleware.  Text is kept as the sequence of its Latin-1
  code points (HTTP headers) or UTF-8 bytes (certificates).
\<close>

section \<open>JWKS cache\<close>

record jwks_cache =
  keys_by_kid :: "(string \<times> params) list"
  fetched_at :: rat
  raw_keys :: json

text \<open>\<open>for key in keys: key.get("kid")\<close>: iterating what is not a list of objects raises.\<close>

fun index_by_kid :: "json list \<Rightarrow> (string \<times> params) list \<Rightarrow> (string \<times> params) list res" where
  "index_by_kid [] acc = Inr acc"
| "index_by_kid (JObj key # ks) acc =
     (case map_of key ''kid'' of
        Some (JStr kid) \<Rightarrow> index_by_kid ks (AList.update kid key acc)
      | _ \<Rightarrow> index_by_kid ks acc)"
| "index_by_kid (_ # ks) acc = Inl (OtherError ''AttributeError'')"

definition build_cache :: "json \<Rightarrow> rat \<Rightarrow> jwks_cache res" where
  "build_cache keys now =
     (case iter_json keys of
        Inl e \<Rightarrow> Inl e
      | Inr ks \<Rightarrow>
          (case index_by_kid ks [] of
             Inl e \<Rightarrow> Inl e
           | Inr kk \<Rightarrow> Inr \<lparr>keys_by_kid = kk, fetched_at = now, raw_keys = keys\<rparr>))"

text \<open>
  \<open>http_get\<close> is \<open>client.get\<close>, \<open>raise_for_status\<close> and \<open>json\<close>; an httpx failure is
  \<open>OtherError ''HTTPError''\<close>, an undecodable body \<open>ValueError\<close>.
\<close>

definition do_fetch_jwks :: "(string \<Rightarrow> json res) \<Rightarrow> settings \<Rightarrow> json res" where
  "do_fetch_jwks http_get s =
     (case http_get (rstrip_char (CHR ''/'') (oidc_issuer s) @ ''/.well-known/openid-configuration'') of
        Inl e \<Rightarrow> Inl e
      | Inr (JObj d) \<Rightarrow>
          (case map_of d ''jwks_uri'' of
             None \<Rightarrow> Inl (OtherError ''KeyError'')
           | Some (JStr uri) \<Rightarrow>
               if \<not> startswith uri ''https://'' then Inl AuthenticationError
               else (case http_get uri of
                       Inl e \<Rightarrow> Inl e
                     | Inr (JObj r) \<Rightarrow>
                         Inr (case map_of r ''keys'' of None \<Rightarrow> JList [] | Some ks \<Rightarrow> ks)
                     | Inr _ \<Rightarrow> Inl (OtherError ''AttributeError''))
           | Some _ \<Rightarrow> Inl (OtherError ''AttributeError''))
      | Inr _ \<Rightarrow> Inl TypeError)"

text \<open>
  One call of \<open>_get_jwks\<close> reads the clock at entry, inside the lock, when the new cache
  is built and in the handler; while it waits for the lock another coroutine may have
  replaced the cache (\<open>meanwhile\<close>).
\<close>

record jwks_env =
  t_entry :: rat
  t_locked :: rat
  t_built :: rat
  t_failed :: rat
  meanwhile :: "jwks_cache option \<Rightarrow> jwks_cache option"
  fetched :: "json res"

definition fresh :: "rat \<Rightarrow> rat \<Rightarrow> jwks_cache option \<Rightarrow> bool" where
  "fresh now ttl c = (case c of None \<Rightarrow> False | Some c \<Rightarrow> now - fetched_at c < ttl)"

definition caught_by_get_jwks :: "lcp_error \<Rightarrow> bool" where
  "caught_by_get_jwks e \<longleftrightarrow> e = OtherError ''HTTPError'' \<or> e = AuthenticationError"

definition get_jwks ::
  "settings \<Rightarrow> bool \<Rightarrow> jwks_env \<Rightarrow> jwks_cache option \<Rightarrow> jwks_cache res \<times> jwks_cache option" where
  "get_jwks s force_refresh en cache0 =
     (let ttl = of_int (oidc_jwks_cache_ttl_seconds s) in
      if \<not> force_refresh \<and> fresh (t_entry en) ttl cache0 then (Inr (the cache0), cache0)
      else
        let cache = meanwhile en cache0 in
        if \<not> force_refresh \<and> fresh (t_locked en) ttl cache then (Inr (the cache), cache)
        else
          case (case fetched en of Inl e \<Rightarrow> Inl e | Inr keys \<Rightarrow> build_cache keys (t_built en)) of
            Inr c \<Rightarrow> (Inr c, Some c)
          | Inl e \<Rightarrow>
              if caught_by_get_jwks e then
                if fresh (t_failed en) (2 * ttl) cache then (Inr (the cache), cache)
                else (Inl AuthenticationError, cache)
              else (Inl e, cache))"

section \<open>Replay denylist\<close>

text \<open>The \<open>JtiDenylist\<close> protocol over an implementation's state.\<close>

record 'd jti_denylist =
  is_denied :: "'d \<Rightarrow> string \<Rightarrow> bool"
  deny :: "'d \<Rightarrow> string \<Rightarrow> int \<Rightarrow> 'd"

definition no_op_denylist :: "unit jti_denylist" where
  "no_op_denylist = \<lparr>is_denied = (\<lambda>d jti. False), deny = (\<lambda>d jti exp. d)\<rparr>"

section \<open>Token validation\<close>

text \<open>
  PyJWT: \<open>get_unverified_header\<close>, \<open>PyJWK.from_dict(...).key\<close> and \<open>jwt.decode\<close> with its
  algorithms, audience, issuer, leeway and required claims.
\<close>

record 'k jwt_lib =
  get_unverified_header :: "string \<Rightarrow> params res"
  jwk_key :: "params \<Rightarrow> 'k res"
  jwt_decode :: "string \<Rightarrow> 'k \<Rightarrow> string list \<Rightarrow> string \<Rightarrow> string \<Rightarrow> int \<Rightarrow> string list \<Rightarrow> params res"

definition PyJWTError :: lcp_error where
  "PyJWTError = OtherError ''PyJWTError''"

definition required_claims :: "string list" where
  "required_claims = [''exp'', ''iat'', ''sub'', ''iss'', ''aud'']"

text \<open>\<open>try: ... except errs as exc: raise AuthenticationError\<close>.\<close>

definition rewrap :: "lcp_error list \<Rightarrow> 'a res \<Rightarrow> 'a res" where
  "rewrap errs r =
     (case r of Inr x \<Rightarrow> Inr x | Inl e \<Rightarrow> Inl (if List.member errs e then AuthenticationError else e))"

definition header_str :: "params \<Rightarrow> string \<Rightarrow> string option" where
  "header_str h k = (case map_of h k of Some (JStr v) \<Rightarrow> Some v | _ \<Rightarrow> None)"

text \<open>The signing key: the cached entry for \<open>kid\<close>, else one forced refresh.\<close>

definition signing_jwk ::
  "settings \<Rightarrow> jwks_env \<Rightarrow> jwks_env \<Rightarrow> string \<Rightarrow> jwks_cache option
     \<Rightarrow> params res \<times> jwks_cache option" where
  "signing_jwk s e1 e2 kid c0 =
     (case get_jwks s False e1 c0 of
        (Inl e, c1) \<Rightarrow> (Inl e, c1)
      | (Inr cache, c1) \<Rightarrow>
          (case map_of (keys_by_kid cache) kid of
             Some jwk \<Rightarrow> (Inr jwk, c1)
           | None \<Rightarrow>
               (case get_jwks s True e2 c1 of
                  (Inl e, c2) \<Rightarrow> (Inl e, c2)
                | (Inr cache2, c2) \<Rightarrow>
                    (case map_of (keys_by_kid cache2) kid of
                       None \<Rightarrow> (Inl AuthenticationError, c2)
                     | Some jwk \<Rightarrow> (Inr jwk, c2)))))"

text \<open>The \<open>jti\<close> check and its recording.\<close>

definition check_jti :: "'d jti_denylist \<Rightarrow> params \<Rightarrow> 'd \<Rightarrow> unit res \<times> 'd" where
  "check_jti dl claims d =
     (case map_of claims ''jti'' of
        Some (JStr jti) \<Rightarrow>
          if jti = [] then (Inr (), d)
          else if is_denied dl d jti then (Inl AuthenticationError, d)
          else (case int_of_json (case map_of claims ''exp'' of None \<Rightarrow> JInt 0 | Some v \<Rightarrow> v) of
                  Inl e \<Rightarrow> (Inl e, d)
                | Inr expiry \<Rightarrow> (Inr (), deny dl d jti expiry))
      | _ \<Rightarrow> (Inr (), d))"

definition decode_token ::
  "settings \<Rightarrow> 'k jwt_lib \<Rightarrow> params \<Rightarrow> string \<Rightarrow> params res" where
  "decode_token s lib jwk token =
     (case rewrap [OtherError ''KeyError'', ValueError, PyJWTError] (jwk_key lib jwk) of
        Inl e \<Rightarrow> Inl e
      | Inr key \<Rightarrow>
          rewrap [PyJWTError]
            (jwt_decode lib token key (oidc_allowed_algorithms s) (oidc_audience s)
               (oidc_issuer s) (oidc_clock_skew_leeway_seconds s) required_claims))"

definition token_kid :: "settings \<Rightarrow> 'k jwt_lib \<Rightarrow> string \<Rightarrow> string res" where
  "token_kid s lib token =
     (case rewrap [PyJWTError] (get_unverified_header lib token) of
        Inl e \<Rightarrow> Inl e
      | Inr h \<Rightarrow>
          (case header_str h ''alg'' of
             None \<Rightarrow> Inl AuthenticationError
           | Some alg \<Rightarrow>
               if \<not> List.member (oidc_allowed_algorithms s) alg then Inl AuthenticationError
               else (case header_str h ''kid'' of
                       None \<Rightarrow> Inl AuthenticationError
                     | Some kid \<Rightarrow> if kid = [] then Inl AuthenticationError else Inr kid)))"

text \<open>\<open>validate_oidc_jwt\<close>; the state is the JWKS cache and the denylist.\<close>

definition validate_oidc_jwt ::
  "settings \<Rightarrow> 'k jwt_lib \<Rightarrow> 'd jti_denylist \<Rightarrow> jwks_env \<Rightarrow> jwks_env \<Rightarrow> string
     \<Rightarrow> jwks_cache option \<times> 'd \<Rightarrow> params res \<times> jwks_cache option \<times> 'd" where
  "validate_oidc_jwt s lib dl e1 e2 token st =
     (let (c0, d) = st in
      case token_kid s lib token of
        Inl e \<Rightarrow> (Inl e, c0, d)
      | Inr kid \<Rightarrow>
          (case signing_jwk s e1 e2 kid c0 of
             (Inl e, c) \<Rightarrow> (Inl e, c, d)
           | (Inr jwk, c) \<Rightarrow>
               (case decode_token s lib jwk token of
                  Inl e \<Rightarrow> (Inl e, c, d)
                | Inr claims \<Rightarrow>
                    (case check_jti dl claims d of
                       (Inl e, d') \<Rightarrow> (Inl e, c, d')
                     | (Inr u, d') \<Rightarrow> (Inr claims, c, d')))))"

section \<open>Tenant extraction\<close>

fun first_text :: "string list \<Rightarrow> params \<Rightarrow> string res" where
  "first_text [] claims = Inl AuthenticationError"
| "first_text (k # ks) claims =
     (case map_of claims k of
        Some (JStr v) \<Rightarrow> if v \<noteq> [] then Inr v else first_text ks claims
      | _ \<Rightarrow> first_text ks claims)"

definition extract_tenant_from_claims :: "params \<Rightarrow> string res" where
  "extract_tenant_from_claims claims =
     first_text [''tenant_id'', ''https://lance.dev/tenant'', ''org''] claims"

definition extract_tenant_from_spiffe_id :: "string \<Rightarrow> string option" where
  "extract_tenant_from_spiffe_id spiffe_id =
     (if \<not> startswith spiffe_id ''spiffe://'' then None
      else let parts = split_on (CHR ''/'') (drop (length ''spiffe://'') spiffe_id)
           in if length parts \<ge> 3 \<and> parts ! 1 = ''tenant'' \<and> parts ! 2 \<noteq> []
              then Some (parts ! 2) else None)"

definition extract_tenant_from_x509_subject :: "string \<Rightarrow> string option \<Rightarrow> string res" where
  "extract_tenant_from_x509_subject subject_cn organization =
     (if organization \<noteq> None \<and> organization \<noteq> Some [] then Inr (the organization)
      else if startswith subject_cn ''tenant-'' then Inr (before_first (CHR ''.'') subject_cn)
      else Inl AuthenticationError)"

section \<open>The REST middleware\<close>

definition PUBLIC_PREFIXES :: "string list" where
  "PUBLIC_PREFIXES =
     [''/healthz'', ''/livez'', ''/readyz'', ''/metrics'', ''/openapi.json'', ''/docs'', ''/redoc'']"

definition is_public :: "string \<Rightarrow> bool" where
  "is_public path = list_ex (\<lambda>p. path = p \<or> startswith path (p @ ''/'')) PUBLIC_PREFIXES"

text \<open>The ASGI scope; header names and values are bytes.\<close>

record asgi_scope =
  sc_type :: string
  sc_path :: string
  sc_headers :: "(string \<times> string) list"

fun bearer_of_headers :: "(string \<times> string) list \<Rightarrow> string option" where
  "bearer_of_headers [] = None"
| "bearer_of_headers ((name, value) # hs) =
     (if name = ''authorization''
      then (if startswith (lower value) ''bearer ''
            then Some (strip (after_first (CHR '' '') value)) else None)
      else bearer_of_headers hs)"

definition extract_bearer_token :: "asgi_scope \<Rightarrow> string option" where
  "extract_bearer_token scope = bearer_of_headers (sc_headers scope)"

text \<open>
  What one request came to: a 401 sent by the middleware, or the outcome of the
  application, which runs on the context variable and may change it.
\<close>

datatype 'r asgi_outcome = Sent_401 | Ran "'r res"

definition claim_subject :: "(json \<Rightarrow> string) \<Rightarrow> params \<Rightarrow> string" where
  "claim_subject py_str claims =
     py_str (case map_of claims ''sub'' of None \<Rightarrow> JStr [] | Some v \<Rightarrow> v)"

definition oidc_principal :: "(json \<Rightarrow> string) \<Rightarrow> params \<Rightarrow> string \<Rightarrow> principal" where
  "oidc_principal py_str claims tenant_id =
     \<lparr>p_tenant_id = tenant_id, p_subject = claim_subject py_str claims,
      p_auth_method = Oidc, p_is_system = False\<rparr>"

text \<open>
  \<open>OIDCAuthMiddleware.__call__\<close>.  \<open>validate\<close> is \<open>validate_oidc_jwt\<close> on the
  security state; an \<open>AuthenticationError\<close> or \<open>HTTPException\<close> becomes a 401, anything
  else propagates.
\<close>

definition oidc_middleware ::
  "(json \<Rightarrow> string) \<Rightarrow> (string \<Rightarrow> 's \<Rightarrow> params res \<times> 's)
     \<Rightarrow> (asgi_scope \<Rightarrow> ctxvar \<Rightarrow> 'r res \<times> ctxvar) \<Rightarrow> asgi_scope \<Rightarrow> ctxvar \<Rightarrow> 's
     \<Rightarrow> 'r asgi_outcome \<times> ctxvar \<times> 's" where
  "oidc_middleware py_str validate app scope cv st =
     (if sc_type scope \<noteq> ''http'' \<or> is_public (sc_path scope)
      then (let (r, cv') = app scope cv in (Ran r, cv', st))
      else
        case extract_bearer_token scope of
          None \<Rightarrow> (Sent_401, cv, st)
        | Some token \<Rightarrow>
            (case validate token st of
               (Inl e, st') \<Rightarrow>
                 (if e = AuthenticationError \<or> e = OtherError ''HTTPException''
                  then Sent_401 else Ran (Inl e), cv, st')
             | (Inr claims, st') \<Rightarrow>
                 (case extract_tenant_from_claims claims of
                    Inl e \<Rightarrow> (Sent_401, cv, st')
                  | Inr tenant_id \<Rightarrow>
                      (let (handle, cv1) =
                             set_current_tenant (oidc_principal py_str claims tenant_id) cv;
                           (r, cv2) = app scope cv1
                       in (Ran r, reset_current_tenant handle cv2, st')))))"

section \<open>The gRPC interceptor\<close>

text \<open>\<open>bytes.decode("utf-8")\<close> succeeds on these byte strings (RFC 3629).\<close>

fun utf8_ok :: "nat list \<Rightarrow> bool" where
  "utf8_ok [] = True"
| "utf8_ok (a # bs) =
     (if a < 128 then utf8_ok bs
      else if 194 \<le> a \<and> a \<le> 223 then
        (case bs of b # bs' \<Rightarrow> 128 \<le> b \<and> b < 192 \<and> utf8_ok bs' | _ \<Rightarrow> False)
      else if 224 \<le> a \<and> a \<le> 239 then
        (case bs of
           b # c # bs' \<Rightarrow> (if a = 224 then 160 else 128) \<le> b \<and> b < (if a = 237 then 160 else 192)
             \<and> 128 \<le> c \<and> c < 192 \<and> utf8_ok bs'
         | _ \<Rightarrow> False)
      else if 240 \<le> a \<and> a \<le> 244 then
        (case bs of
           b # c # d # bs' \<Rightarrow> (if a = 240 then 144 else 128) \<le> b
             \<and> b < (if a = 244 then 144 else 192) \<and> 128 \<le> c \<and> c < 192 \<and> 128 \<le> d \<and> d < 192
             \<and> utf8_ok bs'
         | _ \<Rightarrow> False)
      else False)"

text \<open>An auth-context value is bytes or already text; text is kept as its UTF-8 bytes.\<close>

datatype auth_value = Raw string | Text string

definition decode_value :: "auth_value \<Rightarrow> string option" where
  "decode_value v =
     (case v of Text s \<Rightarrow> Some s | Raw b \<Rightarrow> if utf8_ok (map of_char b) then Some b else None)"

fun decode_first :: "auth_value list \<Rightarrow> string res" where
  "decode_first [] = Inl (OtherError ''IndexError'')"
| "decode_first (v # vs) =
     (case decode_value v of None \<Rightarrow> Inl AuthenticationError | Some s \<Rightarrow> Inr s)"

record auth_context =
  x509_common_name :: "auth_value list"
  x509_organization :: "auth_value list"
  x509_uri :: "auth_value list"

fun spiffe_tenant :: "auth_value list \<Rightarrow> string option" where
  "spiffe_tenant [] = None"
| "spiffe_tenant (v # vs) =
     (case decode_value v of
        None \<Rightarrow> spiffe_tenant vs
      | Some uri \<Rightarrow>
          (case extract_tenant_from_spiffe_id uri of
             None \<Rightarrow> spiffe_tenant vs
           | Some t \<Rightarrow> Some t))"

definition mtls_principal :: "string \<Rightarrow> string \<Rightarrow> principal" where
  "mtls_principal tenant_id cn =
     \<lparr>p_tenant_id = tenant_id, p_subject = cn, p_auth_method = Mtls, p_is_system = False\<rparr>"

definition resolve_principal :: "auth_context \<Rightarrow> principal res" where
  "resolve_principal ac =
     (if x509_common_name ac = [] then Inl AuthenticationError
      else case decode_first (x509_common_name ac) of
        Inl e \<Rightarrow> Inl e
      | Inr cn \<Rightarrow>
          (case (if x509_organization ac = [] then Inr None
                 else case decode_first (x509_organization ac) of
                        Inl e \<Rightarrow> Inl e | Inr org \<Rightarrow> Inr (Some org)) of
             Inl e \<Rightarrow> Inl e
           | Inr organization \<Rightarrow>
               (case spiffe_tenant (x509_uri ac) of
                  Some t \<Rightarrow> Inr (mtls_principal t cn)
                | None \<Rightarrow>
                    (case extract_tenant_from_x509_subject cn organization of
                       Inl e \<Rightarrow> Inl e
                     | Inr t \<Rightarrow> Inr (mtls_principal t cn)))))"

text \<open>
  \<open>_wrap_handler\<close>.  A handler with a unary response is awaited while the principal is
  bound; a streaming one only builds its generator there, and the generator's body runs
  when the server iterates it, on the context variable of that moment.
\<close>

datatype handler_kind = UnaryUnary | UnaryStream | StreamUnary | StreamStream

datatype 'r rpc_outcome =
    Unauthenticated
  | Replied "'r res"
  | Generator "ctxvar \<Rightarrow> 'r res"

definition bind_then_call ::
  "handler_kind \<Rightarrow> (ctxvar \<Rightarrow> 'r res) \<Rightarrow> auth_context \<Rightarrow> ctxvar \<Rightarrow> 'r rpc_outcome \<times> ctxvar" where
  "bind_then_call kind body ac cv =
     (case resolve_principal ac of
        Inl e \<Rightarrow> (Unauthenticated, cv)
      | Inr p \<Rightarrow>
          (let (token, cv1) = set_current_tenant p cv;
               out = (case kind of
                        UnaryUnary \<Rightarrow> Replied (body cv1)
                      | UnaryStream \<Rightarrow> Generator body
                      | StreamUnary \<Rightarrow> Replied (body cv1)
                      | StreamStream \<Rightarrow> Generator body)
           in (out, reset_current_tenant token cv1)))"

text \<open>What the server observes when it drains the outcome on the context variable \<open>cv\<close>.\<close>

definition drain_outcome :: "'r rpc_outcome \<Rightarrow> ctxvar \<Rightarrow> 'r res" where
  "drain_outcome out cv =
     (case out of Unauthenticated \<Rightarrow> Inl AuthenticationError | Replied r \<Rightarrow> r | Generator g \<Rightarrow> g cv)"

section \<open>Lemmas\<close>

lemma rewrap_Inr [simp]: "rewrap errs r = Inr x \<longleftrightarrow> r = Inr x"
  by (auto simp: rewrap_def split: sum.splits)

lemma header_str_Some [simp]: "header_str h k = Some v \<longleftrightarrow> map_of h k = Some (JStr v)"
  by (auto simp: header_str_def split: option.splits json.splits)

lemma fresh_Some [simp]: "fresh now ttl (Some c) \<longleftrightarrow> now - fetched_at c < ttl"
  and fresh_None [simp]: "\<not> fresh now ttl None"
  by (simp_all add: fresh_def)

lemma freshE: "fresh now ttl c \<Longrightarrow> (\<And>x. c = Some x \<Longrightarrow> now - fetched_at x < ttl \<Longrightarrow> P) \<Longrightarrow> P"
  by (cases c) auto

lemma build_cache_at: "build_cache keys now = Inr c \<Longrightarrow> fetched_at c = now \<and> raw_keys c = keys"
  by (auto simp: build_cache_def split: sum.splits)

text \<open>What one call serves, and that the variable then holds what was served.\<close>

lemma get_jwks_cases:
  assumes "get_jwks s f en c0 = (Inr c, c')"
  shows "c' = Some c"
    and "\<not> f \<and> c0 = Some c \<and> t_entry en - fetched_at c < of_int (oidc_jwks_cache_ttl_seconds s)
       \<or> \<not> f \<and> meanwhile en c0 = Some c
           \<and> t_locked en - fetched_at c < of_int (oidc_jwks_cache_ttl_seconds s)
       \<or> (\<exists>keys. fetched en = Inr keys \<and> build_cache keys (t_built en) = Inr c)
       \<or> meanwhile en c0 = Some c
           \<and> t_failed en - fetched_at c < 2 * of_int (oidc_jwks_cache_ttl_seconds s)"
  using assms
  by (auto simp: get_jwks_def Let_def elim!: freshE split: if_splits sum.splits)

lemma get_jwks_age:
  assumes "get_jwks s f en c0 = (Inr c, c')" and "0 \<le> oidc_jwks_cache_ttl_seconds s"
  shows "(\<exists>keys. fetched en = Inr keys \<and> build_cache keys (t_built en) = Inr c)
     \<or> (\<exists>now\<in>{t_entry en, t_locked en, t_failed en}.
          now - fetched_at c < 2 * of_int (oidc_jwks_cache_ttl_seconds s))"
proof -
  let ?ttl = "of_int (oidc_jwks_cache_ttl_seconds s) :: rat"
  have lt: "x < ?ttl \<Longrightarrow> x < 2 * ?ttl" for x
  proof -
    have "0 \<le> ?ttl" using assms(2) by simp
    then show "x < ?ttl \<Longrightarrow> x < 2 * ?ttl" by linarith
  qed
  have "(\<exists>keys. fetched en = Inr keys \<and> build_cache keys (t_built en) = Inr c)
     \<or> t_entry en - fetched_at c < ?ttl \<or> t_locked en - fetched_at c < ?ttl
     \<or> t_failed en - fetched_at c < 2 * ?ttl"
    using get_jwks_cases(2) [OF assms(1)] by blast
  then show ?thesis using lt by blast
qed

lemma signing_jwk_served:
  assumes "signing_jwk s e1 e2 kid c0 = (Inr jwk, c')"
  obtains en f c00 cache where "get_jwks s f en c00 = (Inr cache, c')"
    and "en = e1 \<or> en = e2" and "map_of (keys_by_kid cache) kid = Some jwk"
  using assms
  by (auto simp: signing_jwk_def split: prod.splits sum.splits option.splits)

lemma token_kid_Inr:
  assumes "token_kid s lib token = Inr kid"
  obtains h alg where "get_unverified_header lib token = Inr h"
    and "map_of h ''alg'' = Some (JStr alg)" and "alg \<in> set (oidc_allowed_algorithms s)"
    and "map_of h ''kid'' = Some (JStr kid)" and "kid \<noteq> []"
  using assms
  by (auto simp: token_kid_def split: sum.splits option.splits if_splits)

lemma decode_token_Inr:
  "decode_token s lib jwk token = Inr claims \<longleftrightarrow>
     (\<exists>key. jwk_key lib jwk = Inr key \<and>
        jwt_decode lib token key (oidc_allowed_algorithms s) (oidc_audience s)
          (oidc_issuer s) (oidc_clock_skew_leeway_seconds s) required_claims = Inr claims)"
proof (cases "rewrap [OtherError ''KeyError'', ValueError, PyJWTError] (jwk_key lib jwk)")
  case (Inl e)
  then have "jwk_key lib jwk \<noteq> Inr key" for key by (auto simp: rewrap_def)
  with Inl show ?thesis by (simp add: decode_token_def)
next
  case (Inr key)
  then have "jwk_key lib jwk = Inr key" by simp
  then show ?thesis by (simp add: decode_token_def rewrap_def split: sum.split)
qed

lemma check_jti_ok:
  assumes "check_jti dl claims d = (Inr u, d')" and "map_of claims ''jti'' = Some (JStr jti)"
    and "jti \<noteq> []"
  obtains expiry where "\<not> is_denied dl d jti" and "d' = deny dl d jti expiry"
  using assms by (auto simp: check_jti_def Let_def split: if_splits sum.splits)

lemma validate_parts:
  assumes "validate_oidc_jwt s lib dl e1 e2 token (c0, d) = (Inr claims, c', d')"
  obtains kid jwk where "token_kid s lib token = Inr kid"
    and "signing_jwk s e1 e2 kid c0 = (Inr jwk, c')"
    and "decode_token s lib jwk token = Inr claims"
    and "check_jti dl claims d = (Inr (), d')"
  using assms
  by (auto simp: validate_oidc_jwt_def split: sum.splits prod.splits)

lemma first_text_Inr:
  "first_text ks claims = Inr t \<Longrightarrow> t \<noteq> [] \<and> (\<exists>k\<in>set ks. map_of claims k = Some (JStr t))"
  by (induction ks claims rule: first_text.induct)
     (auto split: option.splits json.splits if_splits)

lemma first_text_error: "first_text ks claims = Inl e \<Longrightarrow> e = AuthenticationError"
  by (induction ks claims rule: first_text.induct)
     (auto split: option.splits json.splits if_splits)

lemma is_public_iff:
  "is_public path \<longleftrightarrow> (\<exists>p\<in>set PUBLIC_PREFIXES. path = p \<or> (\<exists>r. path = p @ ''/'' @ r))"
  by (auto simp: is_public_def list_ex_iff startswith_iff)

lemma spiffe_tenant_skips:
  "(\<And>v u. v \<in> set pre \<Longrightarrow> decode_value v = Some u \<Longrightarrow> extract_tenant_from_spiffe_id u = None)
     \<Longrightarrow> spiffe_tenant (pre @ vs) = spiffe_tenant vs"
proof (induction pre)
  case Nil
  then show ?case by simp
next
  case (Cons v pre)
  have "spiffe_tenant (pre @ vs) = spiffe_tenant vs"
    by (rule Cons.IH) (use Cons.prems in auto)
  moreover have "decode_value v = Some u \<Longrightarrow> extract_tenant_from_spiffe_id u = None" for u
    using Cons.prems [of v u] by simp
  ultimately show ?case by (simp split: option.split)
qed

lemma split_three:
  "(\<exists>a t ps. split_on c s = a # b # t # ps \<and> t = x) \<longleftrightarrow>
   (\<exists>a rest. s = a @ c # b @ c # x @ rest \<and> c \<notin> set a \<and> c \<notin> set b \<and> c \<notin> set x
      \<and> (rest = [] \<or> (\<exists>r. rest = c # r)))"
proof
  assume "\<exists>a t ps. split_on c s = a # b # t # ps \<and> t = x"
  then obtain a ps where s: "split_on c s = a # b # x # ps" by blast
  from split_on_step [OF s] obtain r where r: "s = a @ c # r" "split_on c r = b # x # ps" "c \<notin> set a"
    by auto
  from split_on_step [OF r(2)] obtain q where q: "r = b @ c # q" "split_on c q = x # ps" "c \<notin> set b"
    by auto
  from split_on_step [OF q(2)] have "c \<notin> set x" and "\<exists>rest. q = x @ rest \<and> (rest = [] \<or> (\<exists>r. rest = c # r))"
    by (auto split: if_splits)
  then show "\<exists>a rest. s = a @ c # b @ c # x @ rest \<and> c \<notin> set a \<and> c \<notin> set b \<and> c \<notin> set x
      \<and> (rest = [] \<or> (\<exists>r. rest = c # r))"
    using r q by blast
next
  assume "\<exists>a rest. s = a @ c # b @ c # x @ rest \<and> c \<notin> set a \<and> c \<notin> set b \<and> c \<notin> set x
      \<and> (rest = [] \<or> (\<exists>r. rest = c # r))"
  then obtain a rest where s: "s = a @ c # b @ c # x @ rest" and n: "c \<notin> set a" "c \<notin> set b" "c \<notin> set x"
    and rest: "rest = [] \<or> (\<exists>r. rest = c # r)" by blast
  from rest have "\<exists>ps. split_on c (x @ rest) = x # ps"
    using n by (auto simp: split_on_plain split_on_append)
  then show "\<exists>a t ps. split_on c s = a # b # t # ps \<and> t = x"
    using n by (auto simp: s split_on_append)
qed

section \<open>Properties\<close>

text \<open>C20: A token is accepted only if its unverified header names an allow-listed algorithm
  and a non-empty key id, the key with that id is in the JWKS cache that is then current,
  that cache is younger than twice its time to live or was fetched by this very call,
  PyJWT verified the token under that key with the allow-listed algorithms, the configured
  audience, issuer and leeway, and a \<open>jti\<close> it carries had not been recorded as used.\<close>

theorem accepted_token_was_verified:
  assumes "validate_oidc_jwt s lib dl e1 e2 token (c0, d) = (Inr claims, c', d')"
    and "0 \<le> oidc_jwks_cache_ttl_seconds s"
  shows "\<exists>h alg kid jwk key cache.
     get_unverified_header lib token = Inr h
     \<and> map_of h ''alg'' = Some (JStr alg) \<and> alg \<in> set (oidc_allowed_algorithms s)
     \<and> map_of h ''kid'' = Some (JStr kid) \<and> kid \<noteq> []
     \<and> c' = Some cache \<and> map_of (keys_by_kid cache) kid = Some jwk
     \<and> (\<exists>en\<in>{e1, e2}. (\<exists>keys. fetched en = Inr keys \<and> build_cache keys (t_built en) = Inr cache)
          \<or> (\<exists>now\<in>{t_entry en, t_locked en, t_failed en}.
               now - fetched_at cache < 2 * of_int (oidc_jwks_cache_ttl_seconds s)))
     \<and> jwk_key lib jwk = Inr key
     \<and> jwt_decode lib token key (oidc_allowed_algorithms s) (oidc_audience s) (oidc_issuer s)
          (oidc_clock_skew_leeway_seconds s) required_claims = Inr claims
     \<and> (\<forall>jti. map_of claims ''jti'' = Some (JStr jti) \<longrightarrow> jti \<noteq> [] \<longrightarrow> \<not> is_denied dl d jti)"
proof -
  obtain kid jwk where kid: "token_kid s lib token = Inr kid"
    and jwk: "signing_jwk s e1 e2 kid c0 = (Inr jwk, c')"
    and dec: "decode_token s lib jwk token = Inr claims"
    and jti: "check_jti dl claims d = (Inr (), d')"
    using assms(1) by (rule validate_parts)
  obtain h alg where h: "get_unverified_header lib token = Inr h"
    "map_of h ''alg'' = Some (JStr alg)" "alg \<in> set (oidc_allowed_algorithms s)"
    "map_of h ''kid'' = Some (JStr kid)" "kid \<noteq> []"
    using kid by (rule token_kid_Inr)
  obtain en f c00 cache where g: "get_jwks s f en c00 = (Inr cache, c')" "en = e1 \<or> en = e2"
    "map_of (keys_by_kid cache) kid = Some jwk"
    using jwk by (rule signing_jwk_served)
  have nd: "\<forall>jti. map_of claims ''jti'' = Some (JStr jti) \<longrightarrow> jti \<noteq> [] \<longrightarrow> \<not> is_denied dl d jti"
    using check_jti_ok [OF jti] by metis
  obtain key where key: "jwk_key lib jwk = Inr key"
    "jwt_decode lib token key (oidc_allowed_algorithms s) (oidc_audience s) (oidc_issuer s)
          (oidc_clock_skew_leeway_seconds s) required_claims = Inr claims"
    using dec by (auto simp: decode_token_Inr)
  have en: "\<exists>en\<in>{e1, e2}. (\<exists>keys. fetched en = Inr keys \<and> build_cache keys (t_built en) = Inr cache)
          \<or> (\<exists>now\<in>{t_entry en, t_locked en, t_failed en}.
               now - fetched_at cache < 2 * of_int (oidc_jwks_cache_ttl_seconds s))"
    using get_jwks_age [OF g(1) assms(2)] g(2) by blast
  show ?thesis
    using h g(3) get_jwks_cases(1) [OF g(1)] key nd en by blast
qed

text \<open>Concrete settings, library and denylist for the witnesses.\<close>

definition jwk1 :: params where
  "jwk1 = [(''kid'', JStr ''k1''), (''n'', JStr ''modulus'')]"

definition claims1 :: params where
  "claims1 = [(''sub'', JStr ''alice''), (''tenant_id'', JStr ''acme''), (''exp'', JInt 100),
              (''jti'', JStr ''j1'')]"

definition lib1 :: "string jwt_lib" where
  "lib1 = \<lparr>get_unverified_header = (\<lambda>t. Inr [(''alg'', JStr ''RS256''), (''kid'', JStr ''k1'')]),
           jwk_key = (\<lambda>jwk. case map_of jwk ''n'' of Some (JStr n) \<Rightarrow> Inr n | _ \<Rightarrow> Inl (OtherError ''KeyError'')),
           jwt_decode = (\<lambda>t k algs aud iss leeway req.
              if t = ''token'' \<and> k = ''modulus'' then Inr claims1 else Inl PyJWTError)\<rparr>"

definition listed :: "(string \<times> int) list jti_denylist" where
  "listed = \<lparr>is_denied = (\<lambda>d j. List.member (map fst d) j), deny = (\<lambda>d j e. (j, e) # d)\<rparr>"

definition fetch1 :: jwks_env where
  "fetch1 = \<lparr>t_entry = 0, t_locked = 1, t_built = 2, t_failed = 3, meanwhile = (\<lambda>c. c),
             fetched = Inr (JList [JObj jwk1])\<rparr>"

definition cache1 :: jwks_cache where
  "cache1 = \<lparr>keys_by_kid = [(''k1'', jwk1)], fetched_at = 2, raw_keys = JList [JObj jwk1]\<rparr>"

lemmas witness1_defs =
  jwk1_def claims1_def lib1_def listed_def fetch1_def cache1_def default_settings_def

lemma validate1:
  "validate_oidc_jwt default_settings lib1 listed fetch1 fetch1 ''token'' (None, [])
     = (Inr claims1, Some cache1, [(''j1'', 100)])"
  by (simp add: validate_oidc_jwt_def token_kid_def signing_jwk_def get_jwks_def decode_token_def
      rewrap_def header_str_def check_jti_def build_cache_def witness1_defs)

theorem accepted_token_was_verified_witness:
  "\<exists>h alg kid jwk key cache.
     get_unverified_header lib1 ''token'' = Inr h
     \<and> map_of h ''alg'' = Some (JStr alg) \<and> alg \<in> set (oidc_allowed_algorithms default_settings)
     \<and> map_of h ''kid'' = Some (JStr kid) \<and> Some cache1 = Some cache
     \<and> map_of (keys_by_kid cache) kid = Some jwk \<and> jwk_key lib1 jwk = Inr key"
  using accepted_token_was_verified [OF validate1] by (fastforce simp: default_settings_def)

text \<open>Replay.  With a denylist that remembers what it was told, once a token with a
  non-empty \<open>jti\<close> has been accepted, every later presentation of a token that verifies to
  claims with the same \<open>jti\<close>, after any further denials, is refused with
  \<open>AuthenticationError\<close> and records nothing.\<close>

theorem jti_replay_rejected:
  assumes remembers: "\<And>d j e. is_denied dl (deny dl d j e) j"
    and keeps: "\<And>d j j' e. is_denied dl d j \<Longrightarrow> is_denied dl (deny dl d j' e) j"
    and first: "validate_oidc_jwt s lib dl e1 e2 token (c0, d) = (Inr claims, c', d')"
    and jti: "map_of claims ''jti'' = Some (JStr jti)" "jti \<noteq> []"
    and replay: "token_kid s lib token' = Inr kid"
      "signing_jwk s e3 e4 kid c1 = (Inr jwk, c2)" "decode_token s lib jwk token' = Inr claims'"
      "map_of claims' ''jti'' = Some (JStr jti)"
  shows "validate_oidc_jwt s lib dl e3 e4 token' (c1, foldl (\<lambda>d (j, e). deny dl d j e) d' others)
           = (Inl AuthenticationError, c2, foldl (\<lambda>d (j, e). deny dl d j e) d' others)"
proof -
  have "check_jti dl claims d = (Inr (), d')"
    using first by (rule validate_parts)
  then have "is_denied dl d' jti" using check_jti_ok jti remembers by metis
  then have "is_denied dl (foldl (\<lambda>d (j, e). deny dl d j e) d' others) jti"
  proof (induction others arbitrary: d')
    case Nil
    then show ?case by simp
  next
    case (Cons je others)
    obtain j e where je: "je = (j, e)" by (cases je)
    have "is_denied dl (deny dl d' j e) jti" using keeps [OF Cons.prems] .
    then show ?case using Cons.IH by (simp add: je)
  qed
  then show ?thesis
    using replay jti(2) by (simp add: validate_oidc_jwt_def check_jti_def)
qed

theorem jti_replay_rejected_witness:
  "validate_oidc_jwt default_settings lib1 listed fetch1 fetch1 ''token''
      (Some cache1, [(''j2'', 7), (''j1'', 100)])
    = (Inl AuthenticationError, Some cache1, [(''j2'', 7), (''j1'', 100)])"
proof -
  have "signing_jwk default_settings fetch1 fetch1 ''k1'' (Some cache1) = (Inr jwk1, Some cache1)"
    "token_kid default_settings lib1 ''token'' = Inr ''k1''"
    "decode_token default_settings lib1 jwk1 ''token'' = Inr claims1"
    "map_of claims1 ''jti'' = Some (JStr ''j1'')"
    by (simp_all add: token_kid_def signing_jwk_def get_jwks_def decode_token_def
        rewrap_def header_str_def witness1_defs)
  then show ?thesis
    using jti_replay_rejected [of listed default_settings lib1 fetch1 fetch1 "''token''" None "[]"
        claims1 "Some cache1" "[(''j1'', 100)]" "''j1''" "''token''" "''k1''" fetch1 fetch1
        "Some cache1" jwk1 "Some cache1" claims1 "[(''j2'', 7)]"] validate1
    by (simp add: listed_def)
qed

text \<open>The shipped denylist is the no-op one, which never refuses and remembers nothing.\<close>

lemma no_op_accepts_replays:
  "check_jti no_op_denylist claims d = (Inl e, d') \<Longrightarrow> e \<noteq> AuthenticationError"
proof -
  have "int_of_json v = Inl e \<Longrightarrow> e \<noteq> AuthenticationError" for v
    by (cases v) (auto simp: int_of_text_def int_of_digits_def Let_def split: sum.splits if_splits)
  then show "check_jti no_op_denylist claims d = (Inl e, d') \<Longrightarrow> e \<noteq> AuthenticationError"
    by (auto simp: check_jti_def no_op_denylist_def split: option.splits json.splits if_splits sum.splits)
qed

text \<open>What the middleware does with one request.\<close>

lemma oidc_middleware_cases:
  assumes "oidc_middleware py_str validate app scope cv st = (out, cv', st')"
  obtains (open_path) "sc_type scope \<noteq> ''http'' \<or> is_public (sc_path scope)" "out = Ran (fst (app scope cv))"
      "cv' = snd (app scope cv)" "st' = st"
    | (refused) "out = Sent_401" "cv' = cv"
    | (failed) token e where "extract_bearer_token scope = Some token" "validate token st = (Inl e, st')"
      "e \<noteq> AuthenticationError" "out = Ran (Inl e)" "cv' = cv"
    | (bound) token claims t where "extract_bearer_token scope = Some token" "validate token st = (Inr claims, st')"
      "extract_tenant_from_claims claims = Inr t" "out = Ran (fst (app scope (Some (oidc_principal py_str claims t))))"
      "cv' = cv"
proof (cases "sc_type scope \<noteq> ''http'' \<or> is_public (sc_path scope)")
  case True
  then show thesis using assms open_path by (auto simp: oidc_middleware_def split: prod.splits)
next
  case closed: False
  show thesis
  proof (cases "extract_bearer_token scope")
    case None
    then show thesis using assms closed refused by (auto simp: oidc_middleware_def)
  next
    case (Some token)
    obtain r st1 where v: "validate token st = (r, st1)" by fastforce
    show thesis
    proof (cases r)
      case (Inl e)
      then show thesis using assms closed Some v refused failed [OF Some, of e]
        by (auto simp: oidc_middleware_def split: if_splits)
    next
      case (Inr claims)
      show thesis
      proof (cases "extract_tenant_from_claims claims")
        case (Inl e)
        then show thesis using assms closed Some v Inr refused by (simp add: oidc_middleware_def)
      next
        case t: (Inr t)
        obtain r2 cv2 where a: "app scope (Some (oidc_principal py_str claims t)) = (r2, cv2)" by fastforce
        have "out = Ran r2" and "cv' = cv" and "st' = st1"
          using assms closed Some v Inr t a
          by (simp_all add: oidc_middleware_def set_current_tenant_def reset_current_tenant_def)
        then show thesis using bound [OF Some _ t] v Inr a by simp
      qed
    qed
  qed
qed

lemma tenant_of_claims:
  assumes "extract_tenant_from_claims claims = Inr t"
  shows "t \<noteq> []" and "\<exists>k\<in>{''tenant_id'', ''https://lance.dev/tenant'', ''org''}. map_of claims k = Some (JStr t)"
  using first_text_Inr [OF assms [unfolded extract_tenant_from_claims_def]] by (simp_all only: list.set simp_thms)

text \<open>C21: An HTTP request outside the public prefixes leaves the context variable as it
  found it, whatever the application does to it, and reaches the application only with a
  Bearer token that \<open>validate_oidc_jwt\<close> accepted; the application then runs as the
  non-system OIDC principal whose tenant is the non-empty text of the \<open>tenant_id\<close>, the
  namespaced or the \<open>org\<close> claim, never of \<open>sub\<close>.\<close>

theorem middleware_binds_verified_tenant:
  assumes "oidc_middleware py_str (validate_oidc_jwt s lib dl e1 e2) app scope cv (c0, d)
             = (out, cv', st')"
    and "sc_type scope = ''http''"
    and "\<forall>p\<in>set PUBLIC_PREFIXES. sc_path scope \<noteq> p \<and> (\<forall>r. sc_path scope \<noteq> p @ ''/'' @ r)"
  shows "cv' = cv \<and>
    (out = Sent_401
     \<or> (\<exists>token claims t k. extract_bearer_token scope = Some token
          \<and> validate_oidc_jwt s lib dl e1 e2 token (c0, d) = (Inr claims, st')
          \<and> k \<in> {''tenant_id'', ''https://lance.dev/tenant'', ''org''}
          \<and> map_of claims k = Some (JStr t) \<and> t \<noteq> []
          \<and> out = Ran (fst (app scope (Some (oidc_principal py_str claims t)))))
     \<or> (\<exists>token e. extract_bearer_token scope = Some token
          \<and> validate_oidc_jwt s lib dl e1 e2 token (c0, d) = (Inl e, st')
          \<and> e \<noteq> AuthenticationError \<and> out = Ran (Inl e)))"
  using assms(1)
proof (cases rule: oidc_middleware_cases)
  case open_path
  then show ?thesis using assms(2,3) by (simp add: is_public_iff)
next
  case (bound token claims t)
  then show ?thesis using tenant_of_claims [OF bound(3)] by blast
qed auto

definition whoami :: "asgi_scope \<Rightarrow> ctxvar \<Rightarrow> string res \<times> ctxvar" where
  "whoami scope cv = (case cv of None \<Rightarrow> (Inl RuntimeError, cv) | Some p \<Rightarrow> (Inr (p_tenant_id p), None))"

definition scope1 :: asgi_scope where
  "scope1 = \<lparr>sc_type = ''http'', sc_path = ''/v1/datasets'',
             sc_headers = [(''host'', ''x''), (''authorization'', ''Bearer token'')]\<rparr>"

theorem middleware_binds_verified_tenant_witness:
  "oidc_middleware (\<lambda>j. ''alice'') (validate_oidc_jwt default_settings lib1 listed fetch1 fetch1)
       whoami scope1 None (None, []) = (Ran (Inr ''acme''), None, Some cache1, [(''j1'', 100)])
   \<and> (\<exists>token. extract_bearer_token scope1 = Some token)"
proof -
  have b: "extract_bearer_token scope1 = Some ''token''"
    by code_simp
  have run: "oidc_middleware (\<lambda>j. ''alice'') (validate_oidc_jwt default_settings lib1 listed fetch1 fetch1)
       whoami scope1 None (None, []) = (Ran (Inr ''acme''), None, Some cache1, [(''j1'', 100)])"
    using b validate1
    by (simp add: oidc_middleware_def is_public_def PUBLIC_PREFIXES_def scope1_def
        extract_tenant_from_claims_def claims1_def oidc_principal_def set_current_tenant_def
        reset_current_tenant_def whoami_def)
  have "\<exists>token. extract_bearer_token scope1 = Some token"
    using middleware_binds_verified_tenant [OF run] by (auto simp: scope1_def PUBLIC_PREFIXES_def)
  then show ?thesis using run by blast
qed

text \<open>The SPIFFE parser accepts exactly the URIs
  \<open>spiffe://<trust-domain>/tenant/<id>\<close>, with or without further segments, whose id is
  non-empty and holds no slash, and returns that id.\<close>

theorem spiffe_id_exact:
  "extract_tenant_from_spiffe_id u = Some t \<longleftrightarrow>
     t \<noteq> [] \<and> CHR ''/'' \<notin> set t
     \<and> (\<exists>domain rest. u = ''spiffe://'' @ domain @ ''/tenant/'' @ t @ rest \<and> CHR ''/'' \<notin> set domain
          \<and> (rest = [] \<or> (\<exists>r. rest = CHR ''/'' # r)))"
  (is "?l \<longleftrightarrow> ?r")
proof -
  let ?p = "split_on (CHR ''/'')"
  have three: "3 \<le> length xs \<and> xs ! 1 = ''tenant'' \<and> xs ! 2 = t
      \<longleftrightarrow> (\<exists>a t' ps. xs = a # ''tenant'' # t' # ps \<and> t' = t)" for xs :: "string list"
    by (cases xs; cases "tl xs"; cases "tl (tl xs)") auto
  have ten: "CHR ''/'' \<notin> set ''tenant''" by simp
  have "?l \<longleftrightarrow> (\<exists>s. u = ''spiffe://'' @ s \<and> t \<noteq> []
      \<and> (\<exists>a t' ps. ?p s = a # ''tenant'' # t' # ps \<and> t' = t))"
    unfolding three [symmetric]
    by (auto simp: extract_tenant_from_spiffe_id_def startswith_iff Let_def)
  also have "\<dots> \<longleftrightarrow> ?r"
    unfolding split_three using ten by auto
  finally show ?thesis .
qed

text \<open>GRPC identity.  For a peer with a readable common name and no unreadable
  organization, the first URI SAN that decodes to a tenant SPIFFE id decides the tenant,
  whatever the organization or common name say; without one the organization decides, and
  without that a common name \<open>tenant-...\<close>; a peer with none of them is refused.\<close>

theorem mtls_identity_order:
  assumes "x509_common_name ac = c # cs" and "decode_value c = Some cn"
    and "x509_organization ac = [] \<and> org = None
         \<or> (\<exists>v vs o1. x509_organization ac = v # vs \<and> decode_value v = Some o1 \<and> org = Some o1)"
  shows "resolve_principal ac =
     (case spiffe_tenant (x509_uri ac) of
        Some t \<Rightarrow> Inr (mtls_principal t cn)
      | None \<Rightarrow>
          if org \<noteq> None \<and> org \<noteq> Some [] then Inr (mtls_principal (the org) cn)
          else if startswith cn ''tenant-'' then Inr (mtls_principal (before_first (CHR ''.'') cn) cn)
          else Inl AuthenticationError)
   \<and> (\<forall>pre v post u t. x509_uri ac = pre @ v # post \<longrightarrow> decode_value v = Some u \<longrightarrow>
        extract_tenant_from_spiffe_id u = Some t \<longrightarrow>
        (\<forall>v'\<in>set pre. \<forall>u'. decode_value v' = Some u' \<longrightarrow> extract_tenant_from_spiffe_id u' = None) \<longrightarrow>
        resolve_principal ac = Inr (mtls_principal t cn))"
proof -
  have r: "resolve_principal ac =
     (case spiffe_tenant (x509_uri ac) of
        Some t \<Rightarrow> Inr (mtls_principal t cn)
      | None \<Rightarrow>
          if org \<noteq> None \<and> org \<noteq> Some [] then Inr (mtls_principal (the org) cn)
          else if startswith cn ''tenant-'' then Inr (mtls_principal (before_first (CHR ''.'') cn) cn)
          else Inl AuthenticationError)"
    using assms
    by (auto simp: resolve_principal_def extract_tenant_from_x509_subject_def
        split: option.split if_split_asm)
  have "resolve_principal ac = Inr (mtls_principal t cn)"
    if "x509_uri ac = pre @ v # post" "decode_value v = Some u"
      "extract_tenant_from_spiffe_id u = Some t"
      "\<forall>v'\<in>set pre. \<forall>u'. decode_value v' = Some u' \<longrightarrow> extract_tenant_from_spiffe_id u' = None"
    for pre v post u t
    using that spiffe_tenant_skips [of pre "v # post"] by (simp add: r)
  with r show ?thesis by blast
qed

definition peer1 :: auth_context where
  "peer1 = \<lparr>x509_common_name = [Raw ''worker-7''], x509_organization = [Text ''globex''],
            x509_uri = [Text ''https://x'', Raw ''spiffe://lance/tenant/acme/worker/w-7'']\<rparr>"

lemma peer1_resolved: "resolve_principal peer1 = Inr (mtls_principal ''acme'' ''worker-7'')"
  by (simp add: resolve_principal_def peer1_def decode_value_def extract_tenant_from_spiffe_id_def)

theorem mtls_identity_order_witness:
  "resolve_principal peer1 = Inr (mtls_principal ''acme'' ''worker-7'')"
  using mtls_identity_order [of peer1 "Raw ''worker-7''" "[]" "''worker-7''" "Some ''globex''"]
  by (simp add: peer1_def decode_value_def extract_tenant_from_spiffe_id_def)

text \<open>A unary-response handler runs as the resolved principal; the body of a streaming
  handler runs on whatever the context variable holds when the server drains it, which is
  the value from before the call, so on a fresh connection it finds no tenant at all.
  The variable is restored in every case.\<close>

theorem streaming_body_runs_unbound:
  assumes "bind_then_call kind body ac cv = (out, cv')"
  shows "cv' = cv
    \<and> (\<forall>p. resolve_principal ac = Inr p \<longrightarrow>
         drain_outcome out cv' =
           (if kind = UnaryUnary \<or> kind = StreamUnary then body (Some p) else body cv))
    \<and> (\<forall>e. resolve_principal ac = Inl e \<longrightarrow> out = Unauthenticated)"
  using assms
  by (cases "resolve_principal ac"; cases kind)
     (auto simp: bind_then_call_def drain_outcome_def set_current_tenant_def
        reset_current_tenant_def)

theorem streaming_body_runs_unbound_witness:
  "drain_outcome (fst (bind_then_call UnaryStream require_current_tenant peer1 None)) None
     = Inl RuntimeError"
proof -
  obtain out cv' where b: "bind_then_call UnaryStream require_current_tenant peer1 None = (out, cv')"
    by fastforce
  show ?thesis
    using streaming_body_runs_unbound [OF b] peer1_resolved
    by (auto simp: b require_current_tenant_def)
qed

end
