(* ===== verification/App.thy ===== *)
theory App
  imports Isolation Reconcile Security
begin

text \<open>
  The REST application as \<open>create_app\<close> of \<open>src/lcp/api/rest/main.py\<close> puts it together: the
  routers and the three probes behind \<open>OIDCAuthMiddleware\<close>, on an engine whose statement hook
  is installed by the lifespan.  The router of FastAPI, from a scope to one of the routes, is a
  parameter; so is the connection on which the readiness probe executes its statement.
\<close>

section \<open>Probes\<close>

definition lcp_version :: string where
  "lcp_version = ''0.1.0''"

definition healthz :: "settings \<Rightarrow> reply" where
  "healthz s =
     Reply 200 (JObj [(''status'', JStr ''ok''), (''version'', JStr lcp_version), (''env'', JStr (app_env s))])"

text \<open>\<open>SELECT 1\<close> is a text clause: the hook sees none of the statements it rewrites.  Every
  exception of the session becomes a 503.\<close>

definition readyz :: "rls_ctx \<Rightarrow> (stmt \<Rightarrow> unit res) \<Rightarrow> reply" where
  "readyz cx execute =
     (case (case before_execute cx OtherStmt of Inl e \<Rightarrow> Inl e | Inr s \<Rightarrow> execute s) of
        Inl e \<Rightarrow> Reply 503 (JObj [(''status'', JStr ''not ready''), (''reason'', JStr ''database unreachable'')])
      | Inr _ \<Rightarrow> Reply 200 (JObj [(''status'', JStr ''ready'')]))"

text \<open>The handler of \<open>/metrics\<close> uses \<open>Response\<close>, which the module does not import.\<close>

definition metrics :: reply where
  "metrics = Crash (OtherError ''NameError'')"

section \<open>The application\<close>

text \<open>The routes: those of the seven routers, the probes, and the pages FastAPI answers by itself
  (the documentation, and the 404 and 405 of a path or method without a route).\<close>

datatype target =
    State endpoint
  | SearchVectors string lance_query
  | MetaSync "string option" bool
  | MetaSchemas
  | MetaFilesets string
  | MetaWriteBack string
  | Healthz
  | Readyz
  | Metrics
  | Page reply

definition app_ctx :: "bool \<Rightarrow> settings \<Rightarrow> ctxvar \<Rightarrow> rls_ctx" where
  "app_ctx installed s cv = \<lparr>cx_principal = cv, cx_enforce = (installed \<and> enforce_tenant_rls s)\<rparr>"

fun app_reply ::
  "('h, 'w) rest_env \<Rightarrow> (stmt \<Rightarrow> unit res) \<Rightarrow> rls_ctx \<Rightarrow> target \<Rightarrow> db \<times> 'w \<Rightarrow> reply \<times> db \<times> 'w" where
  "app_reply E execute cx (State ep) dw = (case serve E cx ep (fst dw) of (r, d) \<Rightarrow> (r, d, snd dw))"
| "app_reply E execute cx (SearchVectors u q) dw = rest_search E cx u q dw"
| "app_reply E execute cx (MetaSync schema dry_run) dw = rest_meta_sync E cx schema dry_run dw"
| "app_reply E execute cx MetaSchemas dw = rest_list_schemas E cx dw"
| "app_reply E execute cx (MetaFilesets schema) dw = rest_list_filesets E cx schema dw"
| "app_reply E execute cx (MetaWriteBack u) dw = rest_write_back E cx u dw"
| "app_reply E execute cx Healthz dw = (healthz (re_settings E), dw)"
| "app_reply E execute cx Readyz dw = (readyz cx execute, dw)"
| "app_reply E execute cx Metrics dw = (metrics, dw)"
| "app_reply E execute cx (Page r) dw = (r, dw)"

text \<open>One request through the whole stack.  A 401 of the middleware leaves the database alone; an
  exception of the middleware itself is a 500.\<close>

definition app_asgi ::
  "('h, 'w) rest_env \<Rightarrow> (stmt \<Rightarrow> unit res) \<Rightarrow> bool \<Rightarrow> (asgi_scope \<Rightarrow> target) \<Rightarrow> db \<times> 'w
     \<Rightarrow> asgi_scope \<Rightarrow> ctxvar \<Rightarrow> (reply \<times> db \<times> 'w) res \<times> ctxvar" where
  "app_asgi E execute installed route dw scope cv =
     (Inr (app_reply E execute (app_ctx installed (re_settings E) cv) (route scope) dw), cv)"

datatype http_outcome = Unauthorized | Answered reply

definition rest_request ::
  "(json \<Rightarrow> string) \<Rightarrow> (string \<Rightarrow> 's \<Rightarrow> params res \<times> 's) \<Rightarrow> ('h, 'w) rest_env \<Rightarrow> (stmt \<Rightarrow> unit res) \<Rightarrow> bool
     \<Rightarrow> (asgi_scope \<Rightarrow> target) \<Rightarrow> asgi_scope \<Rightarrow> ctxvar \<Rightarrow> db \<times> 'w \<Rightarrow> 's \<Rightarrow> http_outcome \<times> (db \<times> 'w) \<times> ctxvar \<times> 's" where
  "rest_request py_str validate E execute installed route scope cv dw st =
     (case oidc_middleware py_str validate (app_asgi E execute installed route dw) scope cv st of
        (Sent_401, cv', st') \<Rightarrow> (Unauthorized, dw, cv', st')
      | (Ran (Inl e), cv', st') \<Rightarrow> (Answered (Crash e), dw, cv', st')
      | (Ran (Inr (r, dw')), cv', st') \<Rightarrow> (Answered r, dw', cv', st'))"

text \<open>What an answer shows of the store: the objects of the state and metadata routes.  A search
  body shows the storage of a dataset, a catalog listing the names of the shared catalog, a
  page nothing.\<close>

fun shown :: "target \<Rightarrow> http_outcome \<Rightarrow> params list" where
  "shown (State _) (Answered r) = disclosed r"
| "shown (MetaSync _ _) (Answered r) = disclosed r"
| "shown (MetaWriteBack _) (Answered r) = disclosed r"
| "shown _ _ = []"

lemma shown_nothing [simp]: "shown tgt Unauthorized = []" "shown tgt (Answered (Crash e)) = []"
  by (cases tgt; simp)+

section \<open>A reconciliation stays with its tenant\<close>

lemma untouched_trans: "untouched T a b \<Longrightarrow> untouched T b c \<Longrightarrow> untouched T a c"
proof -
  assume ab: "untouched T a b" and bc: "untouched T b c"
  have "foreign T b u \<longleftrightarrow> foreign T a u" for u
  proof -
    have "foreign T e u \<longleftrightarrow> u \<in> ds_uuid ` set (filter (\<lambda>r. ds_tenant r \<noteq> T) (datasets e))" for e
      by (auto simp: foreign_def list_ex_iff)
    moreover have "filter (\<lambda>r. ds_tenant r \<noteq> T) (datasets b) = filter (\<lambda>r. ds_tenant r \<noteq> T) (datasets a)"
      using ab by (simp add: untouched_def)
    ultimately show ?thesis by metis
  qed
  then show ?thesis using ab bc by (simp add: untouched_def)
qed

lemma untouched_insert: "insert_dataset r d = Inr d' \<Longrightarrow> ds_tenant r = T \<Longrightarrow> untouched T d d'"
  by (auto simp: insert_dataset_def untouched_def split: if_splits)

lemma untouched_pull:
  assumes "wf_db d" and "e \<in> set (datasets d)" and "ds_tenant e = T"
  shows "untouched T d (pull_row f e d)"
proof -
  have "filter (\<lambda>r. ds_tenant r \<noteq> T) (upd_where (\<lambda>r. ds_uuid r = ds_uuid e) (pulled f) (datasets d))
      = filter (\<lambda>r. ds_tenant r \<noteq> T) (datasets d)"
    using dataset_by_uuid [OF assms(1) _ assms(2)] assms(3) by (intro filter_upd_where_other) auto
  then show ?thesis by (simp add: pull_row_def untouched_def)
qed

lemma sync_fileset_untouched:
  assumes "sync_fileset cx uuids now catalog schema T name False f s = Inr s'" and "sees cx T"
    and "view s = Inr d" and "view s' = Inr d'" and "wf_db d"
  shows "untouched T d d' \<and> wf_db d'"
  using assms(1,2)
proof (cases rule: sync_fileset_real)
  case (1 da)
  obtain uri where uri: "fs_storage_location f = Some uri" using 1(4) assms(4) by (cases "fs_storage_location f") auto
  have "insert_dataset (new_dataset (uuids (sy_fresh s)) catalog schema name uri T None (fs_comment f) now) d = Inr d'"
    using 1(1,4) assms(3,4) uri by simp
  then show ?thesis using untouched_insert wf_insert_dataset [OF assms(5)] by (simp add: new_dataset_def)
next
  case (2 da e)
  have "e \<in> set (matches catalog schema name T d)" using 2(1,2) assms(3) by simp
  then have "e \<in> set (datasets d)" "ds_tenant e = T" by (auto simp: matches_def sync_match_def)
  then show ?thesis
    using untouched_pull [OF assms(5)] wf_pull_row [OF assms(5)] 2(1,4) assms(3,4) by simp
qed

lemma sync_loop_untouched:
  assumes "sync_loop cx http cfg uuids now schema T False names s w = (Inr s', w')" and "view s' = Inr d'"
    and "view s = Inr d" and "wf_db d" and "sees cx T"
  shows "untouched T d d' \<and> wf_db d'"
  using assms(1,3,4)
proof (induction names arbitrary: s w d)
  case Nil
  then show ?case using assms(2) by simp
next
  case (Cons name names)
  obtain g w1 where g: "gc_get_fileset http cfg schema name w = (g, w1)" by fastforce
  show ?case
  proof (cases g)
    case (Inl e)
    let ?s = "add_error (''get_fileset('' @ schema @ ''/'' @ name @ '')'') e s"
    have "sync_loop cx http cfg uuids now schema T False names ?s w1 = (Inr s', w')"
      using Cons.prems(1) g Inl by (auto split: if_splits)
    from Cons.IH [OF this, of d] Cons.prems(2,3) show ?thesis by simp
  next
    case (Inr f)
    then obtain s1 where s1: "sync_fileset cx uuids now (gravitino_catalog cfg) schema T name False f s = Inr s1"
      and rest: "sync_loop cx http cfg uuids now schema T False names s1 w1 = (Inr s', w')"
      using Cons.prems(1) g by (auto split: sum.splits)
    obtain d1 where d1: "view s1 = Inr d1" using view_forced [OF rest assms(2)] by blast
    from sync_fileset_untouched [OF s1 assms(5) Cons.prems(2) d1 Cons.prems(3)] Cons.IH [OF rest d1]
    show ?thesis using untouched_trans by blast
  qed
qed

lemma reconcile_schema_untouched:
  assumes "reconcile_schema cx http cfg uuids n now schema T dry d w = (r, d', n', w')" and "sees cx T" and "wf_db d"
  shows "untouched T d d' \<and> wf_db d'"
proof (cases "\<not> dry \<and> (\<exists>res. r = Inr res)")
  case True
  then obtain res where "reconcile_schema cx http cfg uuids n now schema T False d w = (Inr res, d', n', w')"
    using assms(1) by auto
  then show ?thesis
  proof (cases rule: reconcile_schema_real)
    case (1 names w1 s)
    show ?thesis by (rule sync_loop_untouched [OF 1(2,3) _ assms(3,2)]) (simp add: view_def)
  next
    case 2
    then show ?thesis using assms(3) by simp
  qed
next
  case False
  then have "d' = d"
    using assms(1) by (cases dry) (auto simp: reconcile_schema_def split: prod.splits sum.splits)
  then show ?thesis using assms(3) by simp
qed

lemma reconcile_schemas_untouched:
  assumes "reconcile_schemas cx http cfg uuids n now schemas T dry acc d w = (r, d', n', w')"
    and "sees cx T" and "wf_db d"
  shows "untouched T d d'"
  using assms(1,3)
proof (induction schemas arbitrary: n acc d w)
  case Nil
  then show ?case by simp
next
  case (Cons schema schemas)
  obtain r1 d1 n1 w1 where one: "reconcile_schema cx http cfg uuids n now schema T dry d w = (r1, d1, n1, w1)"
    by (cases "reconcile_schema cx http cfg uuids n now schema T dry d w") blast
  note u = reconcile_schema_untouched [OF one assms(2) Cons.prems(2)]
  show ?case
  proof (cases r1)
    case (Inl e)
    then show ?thesis using Cons.prems(1) one u by simp
  next
    case (Inr p)
    then have "untouched T d1 d'" using Cons.prems(1) one u by (auto intro: Cons.IH)
    then show ?thesis using u untouched_trans by blast
  qed
qed

lemma reconcile_all_untouched:
  assumes "reconcile_all cx http cfg uuids now T dry d w = (r, d', n', w')" and "sees cx T" and "wf_db d"
  shows "untouched T d d'"
  using assms(1) reconcile_schemas_untouched [OF _ assms(2,3)]
  by (auto simp: reconcile_all_def split: prod.splits sum.splits if_splits)

section \<open>A request with and without a tenant\<close>

lemma unbound [simp]: "require_current_tenant None = Inl RuntimeError"
  by (simp add: require_current_tenant_def)

lemma serve_unbound:
  assumes "cx_principal cx = None"
  shows "serve E cx ep d = (Crash RuntimeError, d)"
  using assms
  by (cases ep)
    (simp_all add: handler_def rest_list_datasets_def rest_create_dataset_def rest_get_dataset_def
      rest_delete_dataset_def rest_list_tasks_def rest_submit_task_def rest_get_task_def rest_cancel_task_def
      rest_retry_task_def rest_list_indexes_def rest_create_index_def rest_get_index_def rest_drop_index_def
      rest_optimize_index_def rest_merge_index_def rest_list_policies_def rest_create_policy_def
      rest_get_policy_def rest_update_policy_def rest_delete_policy_def rest_enable_policy_def
      rest_list_rules_def rest_create_rule_def rest_get_rule_def rest_update_rule_def rest_delete_rule_def
      rest_enable_rule_def rest_vectorize_now_def)

text \<open>Without a tenant the application changes nothing and shows nothing, whatever the route.\<close>

lemma app_unbound:
  assumes "cx_principal cx = None" and "app_reply E execute cx tgt dw = (r, dw')"
  shows "dw' = dw \<and> shown tgt (Answered r) = []"
  using assms
  by (cases tgt) (auto simp: serve_unbound rest_search_def rest_meta_sync_def rest_list_schemas_def
      rest_list_filesets_def rest_gravitino_def rest_write_back_def)

lemma disclosed_sync:
  "kvs \<in> set (disclosed (answer catch_disabled (sync_body E p schema dry) r)) \<Longrightarrow>
     map_of kvs ''tenant_id'' = Some (JStr (p_tenant_id p))"
  by (auto simp: answer_def catch_disabled_def gravitino_unavailable_def sync_body_def split: sum.splits if_splits)

lemma app_bound:
  assumes "app_reply E execute cx tgt (d, w) = (r, d', w')" and "wf_db d" and "tenant_context T cx"
    and "re_other E = (\<lambda>x. x)"
  shows "untouched T d d' \<and> (\<forall>kvs\<in>set (shown tgt (Answered r)). own T d' kvs)"
proof -
  obtain p where p: "cx_principal cx = Some p" "p_tenant_id p = T" using tenant_context(3) [OF assms(3)] by blast
  have req: "require_current_tenant (cx_principal cx) = Inr p" using p by (simp add: require_current_tenant_def)
  have vis: "sees cx T" using tenant_context(1) [OF assms(3)] by simp
  show ?thesis
  proof (cases tgt)
    case (State ep)
    then have "serve E cx ep d = (r, d')" using assms(1) by (auto split: prod.splits)
    then show ?thesis
      using serve_untouched [OF assms(2-4), of ep] serve_discloses_own [OF assms(2-4), of _ ep] State by auto
  next
    case (MetaSync schema dry)
    have "untouched T d d'"
      using assms(1) req p(2) reconcile_schema_untouched [OF _ vis assms(2)] reconcile_all_untouched [OF _ vis assms(2)]
      unfolding MetaSync app_reply.simps rest_meta_sync_def by (fastforce split: prod.splits if_splits)
    moreover have "own T d' kvs" if "kvs \<in> set (disclosed r)" for kvs
      using assms(1) req p(2) that
      by (auto simp: MetaSync rest_meta_sync_def own_def gravitino_unavailable_def dest!: disclosed_sync
          split: prod.splits if_splits)
    ultimately show ?thesis by (simp add: MetaSync)
  next
    case (MetaWriteBack u)
    then show ?thesis using assms(1) req p(2)
      by (auto simp: rest_write_back_def own_def gravitino_unavailable_def answer_def
          split: prod.splits if_splits sum.splits)
  qed (use assms(1) req in \<open>auto simp: rest_search_def rest_list_schemas_def rest_list_filesets_def
      rest_gravitino_def split: prod.splits if_splits\<close>)
qed

section \<open>Properties\<close>

text \<open>C3: the REST application isolates the tenants, from the socket to the store.  A request
  that carries no token \<open>validate_oidc_jwt\<close> accepts changes nothing and shows nothing of the
  store, whatever its path and route.  Otherwise the accepted claims name a non-empty tenant; no
  dataset or task row of another tenant changes, appears or disappears, nor does an index,
  policy or rule of another tenant's dataset, a reconciliation with the catalog included; every
  object an answer shows carries the tenant's id or names one of its datasets.  The tenant is
  unbound again when the request is done.\<close>

theorem app_isolates_tenants:
  assumes "rest_request py_str (validate_oidc_jwt s lib dl e1 e2) E execute True route scope None (d, w) (c0, den)
      = (out, (d', w'), cv', st')"
    and "wf_db d" and "re_other E = (\<lambda>x. x)" and "enforce_tenant_rls (re_settings E)"
  shows "cv' = None
    \<and> (d' = d \<and> w' = w \<and> shown (route scope) out = []
       \<or> (\<exists>token claims T k. extract_bearer_token scope = Some token
            \<and> validate_oidc_jwt s lib dl e1 e2 token (c0, den) = (Inr claims, st')
            \<and> k \<in> {''tenant_id'', ''https://lance.dev/tenant'', ''org''}
            \<and> map_of claims k = Some (JStr T) \<and> T \<noteq> []
            \<and> untouched T d d' \<and> (\<forall>kvs\<in>set (shown (route scope) out). own T d' kvs)))"
proof -
  obtain o1 where m: "oidc_middleware py_str (validate_oidc_jwt s lib dl e1 e2) (app_asgi E execute True route (d, w))
      scope None (c0, den) = (o1, cv', st')"
    using assms(1) by (auto simp: rest_request_def split: prod.splits asgi_outcome.splits sum.splits)
  from m show ?thesis
  proof (cases rule: oidc_middleware_cases)
    case open_path
    have "app_reply E execute (app_ctx True (re_settings E) None) (route scope) (d, w) = (case out of Answered r \<Rightarrow> r, d', w')
        \<and> (\<exists>r. out = Answered r)"
      using assms(1) m open_path by (auto simp: rest_request_def app_asgi_def split: prod.splits)
    then obtain r where "app_reply E execute (app_ctx True (re_settings E) None) (route scope) (d, w) = (r, d', w')"
        "out = Answered r" by auto
    with app_unbound [OF _ this(1)] show ?thesis using open_path by (simp add: app_ctx_def app_asgi_def)
  next
    case (bound token claims t)
    let ?cx = "app_ctx True (re_settings E) (Some (oidc_principal py_str claims t))"
    obtain r where r: "app_reply E execute ?cx (route scope) (d, w) = (r, d', w')" "out = Answered r"
      using assms(1) m bound by (auto simp: rest_request_def app_asgi_def split: prod.splits)
    have "tenant_context t ?cx" using assms(4) by (simp add: tenant_context_def app_ctx_def oidc_principal_def)
    from app_bound [OF r(1) assms(2) this assms(3)] show ?thesis
      using bound tenant_of_claims [OF bound(3)] r(2) by blast
  qed (use assms(1) m in \<open>auto simp: rest_request_def\<close>)
qed

text \<open>A tenant reads its dataset; without the header the same request shows nothing.\<close>

definition get_u1 :: "asgi_scope \<Rightarrow> target" where
  "get_u1 scope = State (GetDataset ''u1'')"

definition request1 :: "asgi_scope \<Rightarrow> http_outcome \<times> (db \<times> unit) \<times> ctxvar \<times> jwks_cache option \<times> (string \<times> int) list" where
  "request1 scope = rest_request (\<lambda>j. ''alice'') (validate_oidc_jwt default_settings lib1 listed fetch1 fetch1) rest_env0
     (\<lambda>_. Inr ()) True get_u1 scope None (db0, ()) (None, [])"

theorem app_isolates_tenants_witness:
  "length (shown (get_u1 scope1) (fst (request1 scope1))) = 1
 \<and> own ''acme'' db0 (hd (shown (get_u1 scope1) (fst (request1 scope1))))
 \<and> shown (get_u1 scope1) (fst (request1 (scope1\<lparr>sc_headers := []\<rparr>))) = []"
proof -
  note defs = request1_def rest_request_def app_asgi_def oidc_middleware_def is_public_def PUBLIC_PREFIXES_def
  have b: "extract_bearer_token scope1 = Some ''token''" by code_simp
  let ?cx = "app_ctx True default_settings (Some (oidc_principal (\<lambda>j. ''alice'') claims1 ''acme''))"
  have t: "extract_tenant_from_claims claims1 = Inr ''acme''"
    by (simp add: extract_tenant_from_claims_def claims1_def)
  have ds: "get_dataset ?cx ''u1'' db0 = Inr dataset0"
    by (simp add: get_dataset_iff sees_def authenticated_def app_ctx_def oidc_principal_def default_settings_def)
  have r: "request1 scope1 = (Answered (Reply 200 (dataset_response dataset0)), (db0, ()), None, Some cache1, [(''j1'', 100)])"
    using b validate1 t ds
    by (simp add: defs scope1_def get_u1_def rest_env0_def set_current_tenant_def reset_current_tenant_def
        rest_get_dataset_def handler_def reads_def answer_def require_current_tenant_def)
      (simp add: app_ctx_def)
  have none: "request1 (scope1\<lparr>sc_headers := []\<rparr>) = (Unauthorized, (db0, ()), None, None, [])"
    by (simp add: defs scope1_def extract_bearer_token_def)
  have len: "length (shown (get_u1 scope1) (fst (request1 scope1))) = 1"
    by (simp add: r get_u1_def dataset_response_def)
  have env: "re_other rest_env0 = (\<lambda>x. x)" "enforce_tenant_rls (re_settings rest_env0)"
    by (simp_all add: rest_env0_def default_settings_def)
  let ?shown = "shown (get_u1 scope1) (Answered (Reply 200 (dataset_response dataset0)))"
  have some: "?shown \<noteq> []" using len by (auto simp: r)
  have claim: "T = ''acme''" if "map_of claims1 k = Some (JStr T)" "k \<in> {''tenant_id'', ''https://lance.dev/tenant'', ''org''}" for k T
    using that by (auto simp: claims1_def)
  from app_isolates_tenants [OF r [unfolded request1_def] db0(1) env] some obtain token claims T k where
    "extract_bearer_token scope1 = Some token"
    "validate_oidc_jwt default_settings lib1 listed fetch1 fetch1 token (None, []) = (Inr claims, Some cache1, [(''j1'', 100)])"
    "k \<in> {''tenant_id'', ''https://lance.dev/tenant'', ''org''}" "map_of claims k = Some (JStr T)"
    and own: "\<forall>kvs\<in>set ?shown. own T db0 kvs" by blast
  then have "T = ''acme''" using b validate1 claim by simp
  with own some have "own ''acme'' db0 (hd (shown (get_u1 scope1) (fst (request1 scope1))))" by (simp add: r)
  then show ?thesis using len none by (simp add: get_u1_def)
qed

end
