(* ===== verification/Server.thy ===== *)
theory Server
  imports App
begin

text \<open>
  The servers: \<open>src/lcp/api/grpc/server.py\<close> with the service stubs of
  \<open>src/lcp/api/grpc/services/\<close>, the lifespans of \<open>src/lcp/api/rest/main.py\<close> and the unified
  server of \<open>src/lcp/api/unified_server.py\<close>.  Starting a server is the list of its effects, in
  order, or the exception that ends it.  The grpcio and uvicorn servers are not modelled: when
  their coroutines return or raise is an event of the run.
\<close>

section \<open>Services\<close>

text \<open>\<open>importable\<close> says which generated modules exist; without its module a service is skipped.
  Every method aborts with UNIMPLEMENTED.\<close>

definition abort_unimplemented :: "ctxvar \<Rightarrow> unit res" where
  "abort_unimplemented cv = Inl (OtherError ''UNIMPLEMENTED'')"

type_synonym rpc_table = "(string \<times> handler_kind \<times> (ctxvar \<Rightarrow> unit res)) list"

definition worker_register :: "(string \<Rightarrow> bool) \<Rightarrow> rpc_table \<Rightarrow> rpc_table" where
  "worker_register importable server =
     (if \<not> importable ''lcp.generated.lcp_worker_pb2_grpc'' then server
      else server @ [(''Heartbeat'', UnaryUnary, abort_unimplemented)])"

definition vdw_register :: "(string \<Rightarrow> bool) \<Rightarrow> rpc_table \<Rightarrow> rpc_table" where
  "vdw_register importable server =
     (if \<not> importable ''lcp.generated.vdw_writer_pb2_grpc'' then server
      else server @ [(''WriteBatch'', UnaryUnary, abort_unimplemented)])"

definition embedding_register :: "(string \<Rightarrow> bool) \<Rightarrow> rpc_table \<Rightarrow> rpc_table" where
  "embedding_register importable server =
     (if \<not> importable ''lcp.generated.embedding_service_pb2_grpc'' then server
      else server @ [(''Embed'', UnaryUnary, abort_unimplemented)])"

definition create_grpc_server :: "(string \<Rightarrow> bool) \<Rightarrow> rpc_table" where
  "create_grpc_server importable =
     embedding_register importable (vdw_register importable (worker_register importable []))"

text \<open>\<open>MtlsTenantInterceptor.intercept_service\<close>: an unknown method has no handler to wrap.\<close>

definition intercept_service ::
  "(string \<Rightarrow> (handler_kind \<times> (ctxvar \<Rightarrow> 'r res)) option) \<Rightarrow> string
     \<Rightarrow> (auth_context \<Rightarrow> ctxvar \<Rightarrow> 'r rpc_outcome \<times> ctxvar) option" where
  "intercept_service continuation name =
     (case continuation name of
        None \<Rightarrow> None
      | Some (kind, body) \<Rightarrow> Some (bind_then_call kind body))"

section \<open>Start-up\<close>

text \<open>\<open>install_rls_listener\<close> on the \<open>before_execute\<close> listeners of an engine.\<close>

definition install_rls_listener :: "string list \<Rightarrow> string list" where
  "install_rls_listener listeners =
     (if List.member listeners ''_before_execute'' then listeners else listeners @ [''_before_execute''])"

text \<open>What a server does to the outside, in order.\<close>

datatype action =
    InstallHook
  | AddInsecurePort string
  | AddSecurePort string string string string bool
  | StartGrpc
  | ServeRest
  | StopGrpc int
  | DisposeEngine

text \<open>The TLS material is read from disk: \<open>files\<close> is what \<open>open\<close> and \<open>read\<close> yield.\<close>

definition build_server_credentials ::
  "(string \<Rightarrow> string res) \<Rightarrow> settings \<Rightarrow> (string \<times> string \<times> string \<times> bool) res" where
  "build_server_credentials files s =
     (case files (mtls_server_cert_path s) of
        Inl e \<Rightarrow> Inl e
      | Inr server_cert \<Rightarrow>
          (case files (mtls_server_key_path s) of
             Inl e \<Rightarrow> Inl e
           | Inr server_key \<Rightarrow>
               (case files (mtls_ca_cert_path s) of
                  Inl e \<Rightarrow> Inl e
                | Inr ca_cert \<Rightarrow> Inr (server_key, server_cert, ca_cert, mtls_require_client_cert s))))"

definition bind_grpc ::
  "(string \<Rightarrow> string res) \<Rightarrow> settings \<Rightarrow> string \<Rightarrow> int \<Rightarrow> bool \<Rightarrow> action res" where
  "bind_grpc files s host port insecure =
     (let bind_addr = host @ '':'' @ dec_int port in
      if insecure then Inr (AddInsecurePort bind_addr)
      else case build_server_credentials files s of
             Inl e \<Rightarrow> Inl e
           | Inr (key, cert, ca, require) \<Rightarrow> Inr (AddSecurePort bind_addr key cert ca require))"

text \<open>\<open>_serve\<close> of \<open>grpc/server.py\<close>: \<open>start\<close> and \<open>wait\<close> are the outcomes of starting the
  server and of waiting for its end.\<close>

definition grpc_serve ::
  "(string \<Rightarrow> string res) \<Rightarrow> settings \<Rightarrow> string \<Rightarrow> int \<Rightarrow> bool \<Rightarrow> unit res \<Rightarrow> unit res \<Rightarrow> unit res \<times> action list" where
  "grpc_serve files s host port insecure start wait =
     (case bind_grpc files s host port insecure of
        Inl e \<Rightarrow> (Inl e, [InstallHook])
      | Inr bound \<Rightarrow>
          (case start of
             Inl e \<Rightarrow> (Inl e, [InstallHook, bound, StartGrpc])
           | Inr _ \<Rightarrow> (wait, [InstallHook, bound, StartGrpc, DisposeEngine])))"

text \<open>The address of \<open>lcp-grpc\<close>: an empty host or port 0 falls back to the settings.\<close>

definition grpc_address :: "string option \<Rightarrow> int option \<Rightarrow> settings \<Rightarrow> string \<times> int" where
  "grpc_address host port s =
     ((case host of None \<Rightarrow> grpc_host s | Some h \<Rightarrow> if h = [] then grpc_host s else h),
      (case port of None \<Rightarrow> grpc_port s | Some p \<Rightarrow> if p = 0 then grpc_port s else p))"

text \<open>\<open>create_app\<close> picks the lifespan: the managed one installs the hook before the first request
  and disposes of the engine however the application ends.\<close>

definition managed_lifespan :: "unit res \<Rightarrow> unit res \<times> action list" where
  "managed_lifespan body = (body, [InstallHook, ServeRest, DisposeEngine])"

definition noop_lifespan :: "unit res \<Rightarrow> unit res \<times> action list" where
  "noop_lifespan body = (body, [ServeRest])"

definition app_lifespan :: "bool \<Rightarrow> unit res \<Rightarrow> unit res \<times> action list" where
  "app_lifespan manage_engine = (if manage_engine then managed_lifespan else noop_lifespan)"

section \<open>The unified server\<close>

text \<open>
  The state of \<open>_serve\<close> while it gathers the two servers: the exit flag it shares with uvicorn,
  the event the signal handler sets, what each coroutine has come to, what the process has done so
  far and, once \<open>_serve\<close> has ended, its outcome.
\<close>

record unified =
  un_shutdown :: bool
  un_should_exit :: bool
  un_rest :: "unit res option"
  un_grpc :: "unit res option"
  un_actions :: "action list"
  un_result :: "unit res option"

datatype server_event =
    SignalReceived
  | RestEnds "unit res"
  | GrpcEnds "unit res"

definition unified_start ::
  "(string \<Rightarrow> string res) \<Rightarrow> settings \<Rightarrow> bool \<Rightarrow> unit res \<Rightarrow> unified" where
  "unified_start files s insecure start =
     (let u = \<lparr>un_shutdown = False, un_should_exit = False, un_rest = None, un_grpc = None,
               un_actions = [InstallHook], un_result = None\<rparr>
      in case bind_grpc files s (grpc_host s) (grpc_port s) insecure of
           Inl e \<Rightarrow> u\<lparr>un_result := Some (Inl e)\<rparr>
         | Inr bound \<Rightarrow>
             let u1 = u\<lparr>un_actions := [InstallHook, bound, StartGrpc]\<rparr> in
             (case start of
                Inl e \<Rightarrow> u1\<lparr>un_result := Some (Inl e)\<rparr>
              | Inr _ \<Rightarrow> u1\<lparr>un_actions := un_actions u1 @ snd (app_lifespan False (Inr ()))\<rparr>))"

text \<open>\<open>asyncio.gather\<close> ends with the first exception, or when both have returned; the \<open>finally\<close>
  block then stops the gRPC server and disposes of the engine.\<close>

definition gathered :: "unified \<Rightarrow> unit res option" where
  "gathered u =
     (case (un_rest u, un_grpc u) of
        (Some (Inl e), _) \<Rightarrow> Some (Inl e)
      | (_, Some (Inl e)) \<Rightarrow> Some (Inl e)
      | (Some (Inr _), Some (Inr _)) \<Rightarrow> Some (Inr ())
      | _ \<Rightarrow> None)"

definition settle :: "unified \<Rightarrow> unified" where
  "settle u =
     (case gathered u of
        None \<Rightarrow> u
      | Some r \<Rightarrow> u\<lparr>un_actions := un_actions u @ [StopGrpc 5, DisposeEngine], un_result := Some r\<rparr>)"

definition once :: "'a option \<Rightarrow> 'a \<Rightarrow> 'a option" where
  "once x r = (case x of None \<Rightarrow> Some r | Some _ \<Rightarrow> x)"

fun unified_event :: "server_event \<Rightarrow> unified \<Rightarrow> unified" where
  "unified_event SignalReceived u = u\<lparr>un_shutdown := True, un_should_exit := True\<rparr>"
| "unified_event (RestEnds r) u = u\<lparr>un_rest := once (un_rest u) r\<rparr>"
| "unified_event (GrpcEnds r) u = u\<lparr>un_grpc := once (un_grpc u) r\<rparr>"

definition unified_step :: "server_event \<Rightarrow> unified \<Rightarrow> unified" where
  "unified_step ev u = (if un_result u \<noteq> None then u else settle (unified_event ev u))"

fun unified_run :: "server_event list \<Rightarrow> unified \<Rightarrow> unified" where
  "unified_run [] u = u"
| "unified_run (ev # evs) u = unified_run evs (unified_step ev u)"

text \<open>grpcio documents that \<open>wait_for_termination\<close> returns only once the server has been stopped.\<close>

definition grpc_stopped :: "unified \<Rightarrow> bool" where
  "grpc_stopped u = list_ex (\<lambda>a. case a of StopGrpc _ \<Rightarrow> True | _ \<Rightarrow> False) (un_actions u)"

fun grpc_waits :: "server_event list \<Rightarrow> unified \<Rightarrow> bool" where
  "grpc_waits [] u = True"
| "grpc_waits (ev # evs) u =
     ((case ev of GrpcEnds (Inr _) \<Rightarrow> grpc_stopped u | _ \<Rightarrow> True) \<and> grpc_waits evs (unified_step ev u))"

section \<open>Lemmas\<close>

lemma stub_handlers:
  "map_of (create_grpc_server importable) name = Some (kind, body) \<Longrightarrow> kind = UnaryUnary \<and> body = abort_unimplemented"
  by (auto simp: create_grpc_server_def worker_register_def vdw_register_def embedding_register_def
      split: if_splits)

lemma install_rls_listener_idem [simp]:
  "install_rls_listener (install_rls_listener ls) = install_rls_listener ls"
  by (simp add: install_rls_listener_def)

text \<open>While nothing has raised, the gRPC server is never stopped.\<close>

definition serving :: "unified \<Rightarrow> bool" where
  "serving u \<longleftrightarrow> un_result u = None \<and> un_grpc u = None \<and> un_rest u \<in> {None, Some (Inr ())}
     \<and> \<not> grpc_stopped u \<and> DisposeEngine \<notin> set (un_actions u)"

lemma serving_settle: "serving u \<Longrightarrow> settle u = u"
  by (auto simp: serving_def settle_def gathered_def)

lemma serving_step:
  assumes "serving u" and "ev = SignalReceived \<or> ev = RestEnds (Inr ())"
  shows "serving (unified_step ev u)"
    and "un_should_exit (unified_step ev u) \<longleftrightarrow> un_should_exit u \<or> ev = SignalReceived"
proof -
  have s: "serving (unified_event ev u)"
    using assms by (auto simp: serving_def once_def grpc_stopped_def split: option.split)
  have "unified_step ev u = unified_event ev u"
    using assms(1) serving_settle [OF s] by (simp add: unified_step_def serving_def)
  then show "serving (unified_step ev u)"
    and "un_should_exit (unified_step ev u) \<longleftrightarrow> un_should_exit u \<or> ev = SignalReceived"
    using s assms(2) by auto
qed

lemma serving_run:
  assumes "serving u" and "grpc_waits evs u" and "\<forall>e. RestEnds (Inl e) \<notin> set evs \<and> GrpcEnds (Inl e) \<notin> set evs"
  shows "serving (unified_run evs u)
    \<and> (un_should_exit (unified_run evs u) \<longleftrightarrow> un_should_exit u \<or> SignalReceived \<in> set evs)"
  using assms
proof (induction evs arbitrary: u)
  case Nil
  then show ?case by simp
next
  case (Cons ev evs)
  have "ev = SignalReceived \<or> ev = RestEnds (Inr ())"
  proof (cases ev)
    case (RestEnds r)
    then show ?thesis using Cons.prems(3) by (cases r) auto
  next
    case (GrpcEnds r)
    then show ?thesis using Cons.prems by (cases r) (auto simp: serving_def)
  qed simp
  note st = serving_step [OF Cons.prems(1) this]
  show ?case using Cons.IH [OF st(1)] Cons.prems(2,3) st(2) by auto
qed

lemma serving_start: "un_result (unified_start files s insecure start) = None \<Longrightarrow>
    serving (unified_start files s insecure start) \<and> \<not> un_should_exit (unified_start files s insecure start)"
  by (auto simp: unified_start_def Let_def bind_grpc_def app_lifespan_def noop_lifespan_def serving_def
      grpc_stopped_def split: sum.splits if_splits prod.splits)

lemma first_action: "un_actions u = InstallHook # as \<Longrightarrow> \<exists>as'. un_actions (unified_run evs u) = InstallHook # as'"
proof (induction evs arbitrary: u as)
  case (Cons ev evs)
  have "un_actions (unified_event ev u) = un_actions u" by (cases ev) simp_all
  then have "\<exists>bs. un_actions (unified_step ev u) = InstallHook # bs"
    using Cons.prems by (auto simp: unified_step_def settle_def split: option.split)
  then show ?case using Cons.IH by auto
qed simp

section \<open>Properties\<close>

text \<open>C36: a signal never ends the unified server.  Whatever number of SIGINT and SIGTERM arrive, and
  whether or not uvicorn has returned, \<open>_serve\<close> keeps waiting for the gRPC server, which only its own
  \<open>finally\<close> block would stop: the engine is not disposed of and the process has no outcome until
  something raises.  The signal is seen only by uvicorn.\<close>

theorem signals_never_end_unified_server:
  assumes "un_result (unified_start files s insecure start) = None"
    and "grpc_waits evs (unified_start files s insecure start)"
    and "\<forall>e. RestEnds (Inl e) \<notin> set evs \<and> GrpcEnds (Inl e) \<notin> set evs"
  shows "un_result (unified_run evs (unified_start files s insecure start)) = None
    \<and> DisposeEngine \<notin> set (un_actions (unified_run evs (unified_start files s insecure start)))
    \<and> (un_should_exit (unified_run evs (unified_start files s insecure start)) \<longleftrightarrow> SignalReceived \<in> set evs)"
  using serving_run [OF conjunct1 [OF serving_start [OF assms(1)]] assms(2,3)] serving_start [OF assms(1)]
  by (simp add: serving_def)

theorem signals_never_end_unified_server_witness:
  "un_result (unified_run [SignalReceived, RestEnds (Inr ()), SignalReceived]
      (unified_start (\<lambda>_. Inr ''pem'') default_settings True (Inr ()))) = None
 \<and> un_rest (unified_run [SignalReceived, RestEnds (Inr ()), SignalReceived]
      (unified_start (\<lambda>_. Inr ''pem'') default_settings True (Inr ()))) = Some (Inr ())"
proof -
  let ?u = "unified_start (\<lambda>_. Inr ''pem'') default_settings True (Inr ())"
  let ?evs = "[SignalReceived, RestEnds (Inr ()), SignalReceived]"
  have st: "un_result ?u = None" "un_rest ?u = None" "un_grpc ?u = None"
    by (simp_all add: unified_start_def bind_grpc_def Let_def)
  have "grpc_waits ?evs ?u" by simp
  from signals_never_end_unified_server [OF st(1) this]
  have "un_result (unified_run ?evs ?u) = None" by simp
  moreover have "un_rest (unified_run ?evs ?u) = Some (Inr ())"
    using st by (simp add: unified_step_def settle_def gathered_def once_def)
  ultimately show ?thesis by blast
qed

text \<open>A failure of either server does end it: the gRPC server is stopped, then the engine disposed of.\<close>

theorem failure_ends_unified_server:
  assumes "un_result u = None" and "un_rest u = None"
  shows "un_result (unified_step (RestEnds (Inl e)) u) = Some (Inl e)
    \<and> un_actions (unified_step (RestEnds (Inl e)) u) = un_actions u @ [StopGrpc 5, DisposeEngine]"
  using assms by (simp add: unified_step_def settle_def gathered_def once_def)

text \<open>No server accepts traffic on an engine without the statement hook.\<close>

theorem hook_before_traffic:
  "hd (snd (grpc_serve files s host port insecure start wait)) = InstallHook
 \<and> hd (snd (app_lifespan True body)) = InstallHook
 \<and> hd (un_actions (unified_run evs (unified_start files s insecure start))) = InstallHook"
proof -
  have "\<exists>as. un_actions (unified_start files s insecure start) = InstallHook # as"
    by (auto simp: unified_start_def Let_def split: sum.split)
  then obtain as' where "un_actions (unified_run evs (unified_start files s insecure start)) = InstallHook # as'"
    using first_action by blast
  then show ?thesis by (simp add: grpc_serve_def app_lifespan_def managed_lifespan_def split: sum.split)
qed

text \<open>No gRPC call reaches the store: a method is unknown, refused or unimplemented, and in insecure
  mode, where the peer has no certificate, every registered method is refused.\<close>

theorem grpc_serves_nothing:
  assumes "intercept_service (map_of (create_grpc_server importable)) name = Some call"
  shows "drain_outcome (fst (call ac cv)) cv \<in> {Inl AuthenticationError, Inl (OtherError ''UNIMPLEMENTED'')}
    \<and> snd (call ac cv) = cv
    \<and> (x509_common_name ac = [] \<longrightarrow> drain_outcome (fst (call ac cv)) cv = Inl AuthenticationError)"
proof -
  obtain kind body where h: "map_of (create_grpc_server importable) name = Some (kind, body)"
      "call = bind_then_call kind body"
    using assms by (auto simp: intercept_service_def split: option.splits)
  with stub_handlers [OF h(1)] show ?thesis
    by (auto simp: bind_then_call_def drain_outcome_def abort_unimplemented_def resolve_principal_def Let_def
        set_current_tenant_def reset_current_tenant_def split: sum.split prod.split)
qed

end
