(* ===== verification/Migration.thy ===== *)
theory Migration
  imports Pytext
begin

text \<open>
  The schema migration of the watcher columns, \<open>scripts/migrate_watcher_columns.py\<close>: five
  \<open>ALTER TABLE ... ADD COLUMN ... AFTER ...\<close> in order, where a duplicate column is skipped and any
  other error ends the run.  The database server is a parameter: \<open>execute\<close> yields the text of its
  error or succeeds.
\<close>

section \<open>The script\<close>

record ddl =
  dd_table :: string
  dd_column :: string
  dd_after :: string

definition DDL :: "ddl list" where
  "DDL =
     [\<lparr>dd_table = ''vector_index'', dd_column = ''last_seen_version'', dd_after = ''last_merged_at''\<rparr>,
      \<lparr>dd_table = ''lifecycle_policy'', dd_column = ''index_watch_enabled'', dd_after = ''index_optimize_cron''\<rparr>,
      \<lparr>dd_table = ''lifecycle_policy'', dd_column = ''index_watch_min_unindexed_rows'',
       dd_after = ''index_watch_enabled''\<rparr>,
      \<lparr>dd_table = ''lifecycle_policy'', dd_column = ''index_watch_min_version_drift'',
       dd_after = ''index_watch_min_unindexed_rows''\<rparr>,
      \<lparr>dd_table = ''lifecycle_policy'', dd_column = ''index_watch_stale_minutes'',
       dd_after = ''index_watch_min_version_drift''\<rparr>]"

datatype ddl_outcome = Done_ok | Skipped | Failed_with string

text \<open>The exit code, what was printed for each statement, and the schema that is left.\<close>

fun migrate_loop :: "(ddl \<Rightarrow> 's \<Rightarrow> (string + unit) \<times> 's) \<Rightarrow> ddl list \<Rightarrow> 's \<Rightarrow> nat \<times> ddl_outcome list \<times> 's" where
  "migrate_loop execute [] s = (0, [], s)"
| "migrate_loop execute (d # ds) s =
     (case execute d s of
        (Inr _, s1) \<Rightarrow> (case migrate_loop execute ds s1 of (rc, outs, s2) \<Rightarrow> (rc, Done_ok # outs, s2))
      | (Inl msg, s1) \<Rightarrow>
          if contains msg ''Duplicate column name''
          then (case migrate_loop execute ds s1 of (rc, outs, s2) \<Rightarrow> (rc, Skipped # outs, s2))
          else (2, [Failed_with msg], s1))"

definition migrate ::
  "(ddl \<Rightarrow> 's \<Rightarrow> (string + unit) \<times> 's) \<Rightarrow> string option \<Rightarrow> 's \<Rightarrow> nat \<times> ddl_outcome list \<times> 's" where
  "migrate execute dsn s =
     (case dsn of
        None \<Rightarrow> (1, [], s)
      | Some url \<Rightarrow> if url = [] then (1, [], s) else migrate_loop execute DDL s)"

section \<open>Migrating twice\<close>

text \<open>
  What MySQL documents of \<open>ADD COLUMN\<close>: an existing column is refused with a duplicate error and
  nothing changes; a new one after an existing column is added.
\<close>

definition adds_columns :: "(ddl \<Rightarrow> 's \<Rightarrow> (string + unit) \<times> 's) \<Rightarrow> ('s \<Rightarrow> (string \<times> string) set) \<Rightarrow> bool" where
  "adds_columns execute columns \<longleftrightarrow>
     (\<forall>d s. if (dd_table d, dd_column d) \<in> columns s
            then \<exists>msg. contains msg ''Duplicate column name'' \<and> execute d s = (Inl msg, s)
            else (dd_table d, dd_after d) \<in> columns s \<longrightarrow>
              (\<exists>s'. execute d s = (Inr (), s') \<and> columns s' = insert (dd_table d, dd_column d) (columns s)))"

definition new_columns :: "ddl list \<Rightarrow> (string \<times> string) set" where
  "new_columns ds = (\<lambda>d. (dd_table d, dd_column d)) ` set ds"

text \<open>Every statement finds the column it comes after.\<close>

fun anchored :: "ddl list \<Rightarrow> (string \<times> string) set \<Rightarrow> bool" where
  "anchored [] cs = True"
| "anchored (d # ds) cs \<longleftrightarrow>
     (dd_table d, dd_after d) \<in> cs \<and> anchored ds (insert (dd_table d, dd_column d) cs)"

lemma migrate_loop_adds:
  assumes "adds_columns execute columns" and "anchored ds (columns s)"
  shows "\<exists>outs s'. migrate_loop execute ds s = (0, outs, s') \<and> columns s' = columns s \<union> new_columns ds
    \<and> length outs = length ds"
  using assms(2)
proof (induction ds arbitrary: s)
  case Nil
  then show ?case by (simp add: new_columns_def)
next
  case (Cons d ds)
  show ?case
  proof (cases "(dd_table d, dd_column d) \<in> columns s")
    case True
    then obtain msg where "contains msg ''Duplicate column name''" "execute d s = (Inl msg, s)"
      using assms(1) unfolding adds_columns_def by metis
    moreover have "anchored ds (columns s)" using Cons.prems True by (simp add: insert_absorb)
    from Cons.IH [OF this] obtain outs s' where "migrate_loop execute ds s = (0, outs, s')"
        "columns s' = columns s \<union> new_columns ds" "length outs = length ds" by blast
    ultimately show ?thesis using True by (auto simp: new_columns_def)
  next
    case False
    then obtain s1 where s1: "execute d s = (Inr (), s1)" "columns s1 = insert (dd_table d, dd_column d) (columns s)"
      using assms(1) Cons.prems unfolding adds_columns_def by (metis anchored.simps(2))
    then have "anchored ds (columns s1)" using Cons.prems by simp
    from Cons.IH [OF this] obtain outs s' where "migrate_loop execute ds s1 = (0, outs, s')"
        "columns s' = columns s1 \<union> new_columns ds" "length outs = length ds" by blast
    then show ?thesis using s1 by (auto simp: new_columns_def)
  qed
qed

lemma migrate_loop_skips:
  assumes "adds_columns execute columns" and "new_columns ds \<subseteq> columns s"
  shows "migrate_loop execute ds s = (0, replicate (length ds) Skipped, s)"
  using assms(2)
proof (induction ds)
  case (Cons d ds)
  then have "(dd_table d, dd_column d) \<in> columns s" by (simp add: new_columns_def)
  then obtain msg where "contains msg ''Duplicate column name''" "execute d s = (Inl msg, s)"
    using assms(1) unfolding adds_columns_def by metis
  then show ?case using Cons by (simp add: new_columns_def)
qed simp

text \<open>From any schema that has the two anchor columns, whatever of the migration was already done, the
  script succeeds and leaves exactly the five columns added; a second run skips every statement
  and changes nothing.\<close>

theorem migration_idempotent:
  assumes "adds_columns execute columns" and "url \<noteq> []"
    and "(''vector_index'', ''last_merged_at'') \<in> columns s" and "(''lifecycle_policy'', ''index_optimize_cron'') \<in> columns s"
  shows "\<exists>outs s'. migrate execute (Some url) s = (0, outs, s') \<and> columns s' = columns s \<union> new_columns DDL
    \<and> migrate execute (Some url) s' = (0, replicate 5 Skipped, s')"
proof -
  have "anchored DDL (columns s)" using assms(3,4) by (simp add: DDL_def)
  from migrate_loop_adds [OF assms(1) this] obtain outs s' where run: "migrate_loop execute DDL s = (0, outs, s')"
      "columns s' = columns s \<union> new_columns DDL" by blast
  have "migrate_loop execute DDL s' = (0, replicate (length DDL) Skipped, s')"
    by (rule migrate_loop_skips [OF assms(1)]) (simp add: run(2))
  moreover have "length DDL = 5" by (simp add: DDL_def)
  ultimately show ?thesis using run assms(2) by (simp add: migrate_def)
qed

text \<open>A server that keeps the columns of its tables in a list.\<close>

definition alter_list :: "ddl \<Rightarrow> (string \<times> string) list \<Rightarrow> (string + unit) \<times> (string \<times> string) list" where
  "alter_list d s =
     (if List.member s (dd_table d, dd_column d) then (Inl ''Duplicate column name'', s)
      else if List.member s (dd_table d, dd_after d) then (Inr (), (dd_table d, dd_column d) # s)
      else (Inl ''Unknown column'', s))"

theorem migration_idempotent_witness:
  "\<exists>outs s'. migrate alter_list (Some ''mysql://db'') [(''vector_index'', ''last_merged_at''),
        (''lifecycle_policy'', ''index_optimize_cron''), (''lifecycle_policy'', ''index_watch_enabled'')] = (0, outs, s')
    \<and> migrate alter_list (Some ''mysql://db'') s' = (0, replicate 5 Skipped, s')"
proof -
  have dup: "contains ''Duplicate column name'' ''Duplicate column name''" by code_simp
  have "adds_columns alter_list set" using dup
    by (auto simp: adds_columns_def alter_list_def intro!: exI [of _ "''Duplicate column name''"])
  from migration_idempotent [OF this, of "''mysql://db''" "[(''vector_index'', ''last_merged_at''),
        (''lifecycle_policy'', ''index_optimize_cron''), (''lifecycle_policy'', ''index_watch_enabled'')]"]
  show ?thesis by auto
qed

end
