(* ===== verification/Spec2Isabelle.thy ===== *)
theory Spec2Isabelle
  imports RestRuns Daemons Server Migration
begin

text \<open>
  A verification library for the LanceDB control plane (\<open>src/lcp\<close>).

  The program.  Clients call REST services that keep datasets, indexes, lifecycle policies,
  vectorization rules and tasks of several tenants in one relational store.  A planner
  turns policies into tasks, a watcher turns live index statistics into INDEX_OPTIMIZE tasks, a
  scheduler hands tasks to registered workers, and workers run executors against the Lance
  storage.  A metadata service pulls the Gravitino catalog into the store.  Every tenant table
  is read through a statement hook that adds the tenant predicate of the caller.

  Theories and sources (paths under \<open>src/lcp\<close>).

  \<^item> \<open>Prelude\<close>, \<open>Pytext\<close>, \<open>Calendar\<close>, \<open>Jsonval\<close>: rows, exceptions as values, the text, time and
    JSON operations of Python that the code uses.
  \<^item> \<open>Schema\<close>, \<open>Store\<close>: the tables of \<open>db/models.py\<close>, INSERTs with UNIQUE keys, \<open>wf_db\<close>.
  \<^item> \<open>Tenancy\<close>: \<open>core/tenant.py\<close> and the statement hook of \<open>db/rls.py\<close>; every SELECT on a tenant
    table goes through \<open>rls_rows\<close>, computed by the hook's model.
  \<^item> \<open>Datasets\<close>, \<open>Tasks\<close>, \<open>Indexes\<close>, \<open>Policies\<close>, \<open>Rules\<close>: the services of \<open>services/\<close> with the request
    schemas of \<open>schemas/\<close>.  \<open>Tasks\<close> also holds the abstract task machine.
  \<^item> \<open>Scheduler\<close>, \<open>Fleet\<close>, \<open>Steps\<close>: \<open>services/scheduler_service.py\<close>, the accounting of workers and
    tasks, and the effects that keep it.
  \<^item> \<open>Worker\<close>: \<open>workers/lifecycle_worker_service.py\<close> and the loops of \<open>workers/lifecycle_worker.py\<close>.
  \<^item> \<open>Planner\<close>, \<open>Watcher\<close>: \<open>services/lifecycle_planner_service.py\<close> and \<open>services/index_watcher_service.py\<close>.
  \<^item> \<open>DataPlane\<close>, \<open>Embeddings\<close>, \<open>Executors\<close>, \<open>Vectorize\<close>: \<open>data_plane/lance_io.py\<close>, \<open>embeddings/\<close> and
    \<open>workers/executors/\<close>, with the default registry; \<open>Execution\<close>: what the dispatched tasks
    achieve.
  \<^item> \<open>Gravitino\<close>, \<open>Reconcile\<close>: \<open>integrations/gravitino/\<close>, \<open>workers/executors/_gravitino_push.py\<close> and
    \<open>services/meta_sync_service.py\<close>.
  \<^item> \<open>Config\<close>, \<open>Security\<close>: \<open>core/config.py\<close>, \<open>db/session.py\<close>, \<open>core/security.py\<close>, \<open>api/rest/auth.py\<close> and the
    principals of \<open>api/grpc/server.py\<close>.
  \<^item> \<open>Search\<close>, \<open>Rest\<close>: \<open>services/search_service.py\<close> and the endpoints of \<open>api/rest/routers/\<close>, one
    definition each, from the decoded request to the status and body; \<open>Isolation\<close>, \<open>RestRuns\<close>: what
    the endpoints keep from the other tenants, and which requests end in a 500.
  \<^item> \<open>App\<close>, \<open>Server\<close>: \<open>api/rest/main.py\<close> (routers, probes and middleware as one application),
    \<open>api/grpc/server.py\<close> with the stubs of \<open>api/grpc/services/\<close>, and \<open>api/unified_server.py\<close>.
  \<^item> \<open>Migration\<close>: \<open>scripts/migrate_watcher_columns.py\<close>.
  \<^item> \<open>ControlPlane\<close>: all operations as one transition system; \<open>Daemons\<close>: the worker, watcher and planner
    processes of \<open>workers/lifecycle_worker.py\<close>, \<open>workers/index_watcher_cli.py\<close> and
    \<open>workers/lifecycle_planner_cli.py\<close> with the calls they make on \<open>observability/metrics.py\<close>.

  How the state corresponds.  The database \<open>db\<close> has one list of records per table.  An
  operation takes the caller's context (\<open>rls_ctx\<close>: the context variable and whether the hook is
  installed), its arguments, the clock reading and the UUIDs it draws, and returns its
  result or exception (\<open>'a res\<close>) together with the committed database.  Code that awaits has a
  parameter for what other transactions commit meanwhile (\<open>other\<close>) or which rows they lock
  (\<open>locked\<close>).  The outside world (Lance storage, HTTP services) is a type \<open>'w\<close> threaded
  through \<open>io\<close> computations; third-party packages are records of functions over it.

  What the lemma groups show.  The tenant predicate reaches every protected table of every
  statement, and children of a dataset are reachable only through it (locale \<open>guarded_child\<close>).
  Rows satisfy \<open>wf_db\<close>, \<open>wf_tasks\<close>, \<open>wf_workers\<close>, \<open>attended\<close> and, without re-registration,
  \<open>accounted\<close>, along every run of \<open>step\<close>; every run refines the abstract task machine
  (\<open>task_edge\<close>).  A claim is exclusive, urgent and live; only the owner finishes a task; the reaper
  requeues exactly the tasks of stale workers.  A planner pass does what the policies ask for and
  is idempotent within its time bucket; a watcher pass keeps index rows and tasks in step.  The
  executors meet the contract of the locale \<open>lawful_executor\<close>, which is what the worker relies on
  (\<open>tame\<close>).  A reconciliation converges, is predicted by its dry run and
  stays with its tenant.  An HTTP request without an accepted token changes nothing and shows
  nothing of the store; with one it touches only the rows of the token's tenant.  A worker
  process is a run of the transition system, a timely one is never reaped, and the watcher
  survives whatever a pass raises.  Some theorems state what goes wrong: an explicit null in a rule
  PATCH poisons the rule, a task can name another tenant's dataset, one foreign name blocks the
  reconciliation of a schema, signals never end the unified server.

  Bounds and fuel.  \<open>drain_loop\<close>, \<open>watcher_loop\<close> and \<open>unified_run\<close> model loops that run for ever: they
  consume a finite prefix of what the environment does, one element per iteration or event, and say
  when the prefix ends first.  The digest loop of the mock embedding terminates by its buffer length
  and can exhaust its four-byte counter only above dimension \<open>2 ^ 35\<close>.  SHA-256 works on
  \<open>32 word\<close>; database integers are unbounded here, floats are the rationals they approximate.

  Not modelled.  FastAPI's routing, decoding and 422 bodies (the route is a parameter of \<open>App\<close>), the
  serialisation of gRPC, argument parsing and logging, the Prometheus client itself, the smoke and
  seed scripts, which drive a deployment and keep no state of the program, and \<open>schemas/meta.py\<close>,
  which nothing uses.
  \<open>workers/meta_sync_cli.py\<close> is left out because it cannot be imported: it names a class that
  \<open>integrations/gravitino\<close> does not export.  Text is made of 8-bit characters.  Isolation levels below
  serialisable are represented only by the \<open>other\<close> and \<open>locked\<close> parameters.
\<close>

end
